(* ===== verification/Prelude.thy ===== *)
theory Prelude
  imports Main "HOL-Library.Char_ord" "HOL-Library.List_Lexorder" "HOL-Library.Multiset"
begin

text \<open>
  Shared vocabulary of the development: the collections of rewrite rules the component
  theories add to, the result type of fallible Go functions, and generic facts on lists,
  association lists and options.

  A Go \<open>string\<close> or \<open>[]byte\<close> is a sequence of bytes; an Isabelle \<^typ>\<open>char\<close> is one of
  256 values, so both are a \<^typ>\<open>string\<close> here, byte for byte.
\<close>

subsection \<open>Characters\<close>

abbreviation TAB :: char where "TAB \<equiv> CHR 0x09"
abbreviation NL :: char where "NL \<equiv> CHR 0x0A"
abbreviation CR :: char where "CR \<equiv> CHR 0x0D"
abbreviation dquote :: char where "dquote \<equiv> CHR 0x22"
abbreviation squote :: char where "squote \<equiv> CHR 0x27"
abbreviation backslash :: char where "backslash \<equiv> CHR 0x5C"
abbreviation bquote :: char where "bquote \<equiv> CHR 0x60"

named_theorems go_str \<open>characterisations of the string package\<close>
named_theorems go_os \<open>effects of the file-system calls\<close>
named_theorems go_cal \<open>calendar arithmetic\<close>

type_synonym bytes = string

text \<open>Go's \<open>(value, error)\<close> returns: \<open>Inl\<close> is a non-nil error.\<close>

type_synonym ('e, 'a) result = "'e + 'a"

subsection \<open>Lists\<close>

lemma take_length_append [simp]: "take (length xs) (xs @ ys) = xs"
  by simp

lemma drop_takeWhile_length:
  "xs = takeWhile P xs @ drop (length (takeWhile P xs)) xs"
  by (metis append_take_drop_id takeWhile_eq_take)

lemma last_filter_Some:
  "filter P xs \<noteq> [] \<Longrightarrow> last (filter P xs) \<in> set xs \<and> P (last (filter P xs))"
  using last_in_set [of "filter P xs"] by simp

lemma mset_eq_set: "mset xs = mset ys \<Longrightarrow> set xs = set ys"
  by (metis set_mset_mset)

subsection \<open>Comparing bytes\<close>

text \<open>Code equations that compare bytes as integers rather than as unary numbers.\<close>

lemma less_char_code [code]: "(c :: char) < d \<longleftrightarrow> (of_char c :: int) < of_char d"
  by (metis less_char_def of_nat_less_iff of_nat_of_char)

lemma less_eq_char_code [code]: "(c :: char) \<le> d \<longleftrightarrow> (of_char c :: int) \<le> of_char d"
  by (metis less_eq_char_def of_nat_le_iff of_nat_of_char)

end
