(* ===== verification/Go_Strings.thy ===== *)
theory Go_Strings
  imports Prelude
begin

text \<open>
  What the sources use of Go's \<open>strings\<close>, \<open>strconv\<close>, \<open>unicode/utf8\<close> and \<open>bufio\<close>
  packages, on byte sequences.
\<close>

subsection \<open>Searching and trimming\<close>

definition HasPrefix :: "string \<Rightarrow> string \<Rightarrow> bool" where
  "HasPrefix s p \<longleftrightarrow> take (length p) s = p"

definition HasSuffix :: "string \<Rightarrow> string \<Rightarrow> bool" where
  "HasSuffix s p \<longleftrightarrow> length p \<le> length s \<and> drop (length s - length p) s = p"

definition TrimPrefix :: "string \<Rightarrow> string \<Rightarrow> string" where
  "TrimPrefix s p = (if HasPrefix s p then drop (length p) s else s)"

definition TrimSuffix :: "string \<Rightarrow> string \<Rightarrow> string" where
  "TrimSuffix s p = (if HasSuffix s p then take (length s - length p) s else s)"

text \<open>\<open>strings.Index\<close>; \<^const>\<open>None\<close> is Go's \<open>-1\<close>.\<close>

fun Index :: "string \<Rightarrow> string \<Rightarrow> nat option" where
  "Index [] p = (if p = [] then Some 0 else None)"
| "Index (c # s) p = (if HasPrefix (c # s) p then Some 0 else map_option Suc (Index s p))"

definition Contains :: "string \<Rightarrow> string \<Rightarrow> bool" where
  "Contains s p \<longleftrightarrow> Index s p \<noteq> None"

text \<open>
  \<open>strings.ReplaceAll\<close> with a one-byte old string, the only way the sources call it.
\<close>

definition ReplaceAll :: "string \<Rightarrow> char \<Rightarrow> string \<Rightarrow> string" where
  "ReplaceAll s old new = concat (map (\<lambda>c. if c = old then new else [c]) s)"

text \<open>
  \<open>unicode.IsSpace\<close>: the UTF-8 encodings of the white-space code points. No encoding is a
  prefix of another, and each starts with a byte that starts a rune, so trimming whole
  encodings from a byte sequence removes exactly the runes Go's \<open>strings.TrimSpace\<close> removes,
  also where the rest of the sequence is not valid UTF-8.
\<close>

definition space_runes :: "string list" where
  "space_runes =
     [[CHR 0x09], [CHR 0x0A], [CHR 0x0B], [CHR 0x0C], [CHR 0x0D], [CHR 0x20],
      [CHR 0xC2, CHR 0x85], [CHR 0xC2, CHR 0xA0], [CHR 0xE1, CHR 0x9A, CHR 0x80],
      [CHR 0xE2, CHR 0x80, CHR 0x80], [CHR 0xE2, CHR 0x80, CHR 0x81],
      [CHR 0xE2, CHR 0x80, CHR 0x82], [CHR 0xE2, CHR 0x80, CHR 0x83],
      [CHR 0xE2, CHR 0x80, CHR 0x84], [CHR 0xE2, CHR 0x80, CHR 0x85],
      [CHR 0xE2, CHR 0x80, CHR 0x86], [CHR 0xE2, CHR 0x80, CHR 0x87],
      [CHR 0xE2, CHR 0x80, CHR 0x88], [CHR 0xE2, CHR 0x80, CHR 0x89],
      [CHR 0xE2, CHR 0x80, CHR 0x8A], [CHR 0xE2, CHR 0x80, CHR 0xA8],
      [CHR 0xE2, CHR 0x80, CHR 0xA9], [CHR 0xE2, CHR 0x80, CHR 0xAF],
      [CHR 0xE2, CHR 0x81, CHR 0x9F], [CHR 0xE3, CHR 0x80, CHR 0x80]]"

lemma HasPrefix_drop_less: "r \<noteq> [] \<Longrightarrow> HasPrefix s r \<Longrightarrow> length s - length r < length s"
  by (cases s) (auto simp: HasPrefix_def)

function trim_runes :: "string list \<Rightarrow> string \<Rightarrow> string" where
  "trim_runes rs s =
     (case find (\<lambda>r. r \<noteq> [] \<and> HasPrefix s r) rs of
        None \<Rightarrow> s
      | Some r \<Rightarrow> trim_runes rs (drop (length r) s))"
  by pat_completeness auto
termination
  by (relation "measure (\<lambda>(rs, s). length s)")
    (auto simp: find_Some_iff HasPrefix_drop_less)

declare trim_runes.simps [simp del]

definition TrimSpace :: "string \<Rightarrow> string" where
  "TrimSpace s = rev (trim_runes (map rev space_runes) (rev (trim_runes space_runes s)))"

text \<open>\<open>strings.TrimRight(s, "\n")\<close>.\<close>

definition TrimRightNL :: "string \<Rightarrow> string" where
  "TrimRightNL s = rev (dropWhile (\<lambda>c. c = CHR 0x0A) (rev s))"

subsection \<open>Case mapping\<close>

definition ascii_upper :: "char \<Rightarrow> char" where
  "ascii_upper c = (let n = of_char c :: int in if 97 \<le> n \<and> n \<le> 122 then char_of (n - 32) else c)"

definition ascii_lower :: "char \<Rightarrow> char" where
  "ascii_lower c = (let n = of_char c :: int in if 65 \<le> n \<and> n \<le> 90 then char_of (n + 32) else c)"

text \<open>
  \<open>strings.ToUpper\<close> and \<open>strings.ToLower\<close>. Besides the ASCII letters they map the
  non-ASCII runes whose image is an ASCII letter: dotless i (U+0131) and long s (U+017F) to
  upper case, dotted I (U+0130) and the Kelvin sign (U+212A) to lower case. Every other rune
  has a non-ASCII image and is left as it is; the sources use the results only to look for
  ASCII text, which such a rune can neither form nor break up.
\<close>

fun ToUpper :: "string \<Rightarrow> string" where
  "ToUpper [] = []"
| "ToUpper [c] = [ascii_upper c]"
| "ToUpper (c # d # s) =
     (if c = CHR 0xC4 \<and> d = CHR 0xB1 then CHR ''I'' # ToUpper s
      else if c = CHR 0xC5 \<and> d = CHR 0xBF then CHR ''S'' # ToUpper s
      else ascii_upper c # ToUpper (d # s))"

fun ToLower :: "string \<Rightarrow> string" where
  "ToLower [] = []"
| "ToLower [c] = [ascii_lower c]"
| "ToLower (c # d # s) =
     (if c = CHR 0xC4 \<and> d = CHR 0xB0 then CHR ''i'' # ToLower s
      else if c = CHR 0xE2 \<and> d = CHR 0x84 \<and> take 1 s = [CHR 0xAA] then CHR ''k'' # ToLower (tl s)
      else ascii_lower c # ToLower (d # s))"

text \<open>
  \<open>strings.EqualFold(s, t)\<close> for an ASCII \<open>t\<close> without the letters i and k, on which folding
  and mapping to upper case agree.
\<close>

definition EqualFold :: "string \<Rightarrow> string \<Rightarrow> bool" where
  "EqualFold s t \<longleftrightarrow> ToUpper s = ToUpper t"

subsection \<open>Splitting\<close>

text \<open>
  \<open>strings.SplitN(s, sep, n)\<close> and \<open>strings.Split(s, sep)\<close> with a one-byte separator.
\<close>

function SplitN :: "string \<Rightarrow> char \<Rightarrow> nat \<Rightarrow> string list" where
  "SplitN s sep n =
     (if n = 0 then []
      else if n = 1 \<or> sep \<notin> set s then [s]
      else takeWhile (\<lambda>c. c \<noteq> sep) s
           # SplitN (tl (dropWhile (\<lambda>c. c \<noteq> sep) s)) sep (n - 1))"
  by pat_completeness auto
termination
  by (relation "measure (\<lambda>(s, sep, n). n)") auto

declare SplitN.simps [simp del]

fun Split :: "string \<Rightarrow> char \<Rightarrow> string list" where
  "Split [] sep = [[]]"
| "Split (c # s) sep =
     (if c = sep then [] # Split s sep
      else (case Split s sep of [] \<Rightarrow> [[c]] | p # ps \<Rightarrow> (c # p) # ps))"

text \<open>
  \<open>bufio.Scanner\<close> with \<open>ScanLines\<close> over an in-memory reader: the lines without their
  line end (a carriage return before the newline is dropped too), and whether the scan
  stopped at a line that does not fit the buffer (\<open>bufio.ErrTooLong\<close>: with a buffer limit
  of \<open>lim\<close> bytes, a line of \<open>lim\<close> bytes or more). The default limit is 64 KiB.
\<close>

definition MaxScanTokenSize :: int where
  "MaxScanTokenSize = 64 * 1024"

definition dropCR :: "string \<Rightarrow> string" where
  "dropCR l = (if l \<noteq> [] \<and> last l = CHR 0x0D then butlast l else l)"

function ScanLines :: "int \<Rightarrow> string \<Rightarrow> string list \<times> bool" where
  "ScanLines lim s =
     (if s = [] then ([], False)
      else let l = takeWhile (\<lambda>c. c \<noteq> CHR 0x0A) s in
        if lim \<le> int (length l) then ([], True)
        else (case ScanLines lim (drop (Suc (length l)) s) of
                (ls, e) \<Rightarrow> (dropCR l # ls, e)))"
  by pat_completeness auto
termination
  by (relation "measure (\<lambda>(lim, s). length s)") auto

declare ScanLines.simps [simp del]

subsection \<open>Decimal numbers\<close>

definition is_digit :: "char \<Rightarrow> bool" where
  "is_digit c \<longleftrightarrow> (let n = of_char c :: int in 48 \<le> n \<and> n \<le> 57)"

definition digit_val :: "char \<Rightarrow> int" where
  "digit_val c = of_char c - 48"

definition digit_chr :: "int \<Rightarrow> char" where
  "digit_chr d = char_of (d + 48)"

text \<open>\<open>pad_int w n\<close> is \<open>%0wd\<close> for a non-negative \<open>n\<close>: at least \<open>w\<close> digits.\<close>

fun dec_digits :: "nat \<Rightarrow> int \<Rightarrow> string" where
  "dec_digits 0 n = []"
| "dec_digits (Suc w) n = dec_digits w (n div 10) @ [digit_chr (n mod 10)]"

function dec_len :: "int \<Rightarrow> nat" where
  "dec_len n = (if n < 10 then 1 else Suc (dec_len (n div 10)))"
  by pat_completeness auto
termination
  by (relation "measure nat") auto

declare dec_len.simps [simp del]

definition pad_int :: "nat \<Rightarrow> int \<Rightarrow> string" where
  "pad_int w n = dec_digits (max w (dec_len n)) n"

text \<open>\<open>strconv.Itoa\<close>, \<open>strconv.FormatInt(n, 10)\<close> and the verb \<open>%d\<close>.\<close>

definition Itoa :: "int \<Rightarrow> string" where
  "Itoa n = (if n < 0 then CHR ''-'' # pad_int 1 (- n) else pad_int 1 n)"

definition digits_val :: "string \<Rightarrow> int" where
  "digits_val s = foldl (\<lambda>n c. 10 * n + digit_val c) 0 s"

text \<open>\<open>strings.Join\<close>.\<close>

fun strings_Join :: "string list \<Rightarrow> string \<Rightarrow> string" where
  "strings_Join [] sep = []"
| "strings_Join [p] sep = p"
| "strings_Join (p # q # ps) sep = p @ sep @ strings_Join (q # ps) sep"

subsection \<open>Facts on prefixes and suffixes\<close>

lemma HasPrefix_iff [go_str]: "HasPrefix s p \<longleftrightarrow> (\<exists>r. s = p @ r)"
  by (metis HasPrefix_def append_eq_conv_conj append_take_drop_id)

lemma HasPrefix_append [simp]: "HasPrefix (p @ r) p"
  by (simp add: HasPrefix_def)

lemma HasSuffix_iff [go_str]: "HasSuffix s p \<longleftrightarrow> (\<exists>r. s = r @ p)"
proof
  assume "HasSuffix s p"
  then have "s = take (length s - length p) s @ p"
    by (metis HasSuffix_def append_take_drop_id)
  then show "\<exists>r. s = r @ p" ..
qed (auto simp: HasSuffix_def)

lemma HasSuffix_append [simp]: "HasSuffix (r @ p) p"
  by (simp add: HasSuffix_def)

lemma TrimSuffix_append [simp]: "TrimSuffix (r @ p) p = r"
  by (simp add: TrimSuffix_def)

lemma TrimPrefix_append [simp]: "TrimPrefix (p @ r) p = r"
  by (simp add: TrimPrefix_def)

lemma TrimSuffix_HasSuffix: "HasSuffix s p \<Longrightarrow> TrimSuffix s p @ p = s"
  by (auto simp: HasSuffix_iff)

lemma Contains_iff [go_str]: "Contains s p \<longleftrightarrow> (\<exists>a b. s = a @ p @ b)"
proof (induction s)
  case Nil
  show ?case by (auto simp: Contains_def)
next
  case (Cons c s)
  have "Contains (c # s) p \<longleftrightarrow> HasPrefix (c # s) p \<or> Contains s p"
    by (simp add: Contains_def)
  also have "\<dots> \<longleftrightarrow> (\<exists>a b. c # s = a @ p @ b)"
  proof
    assume "HasPrefix (c # s) p \<or> Contains s p"
    then show "\<exists>a b. c # s = a @ p @ b"
      unfolding Cons.IH HasPrefix_iff by (metis append_Cons append_Nil)
  next
    assume "\<exists>a b. c # s = a @ p @ b"
    then obtain a b where "c # s = a @ p @ b" by blast
    then show "HasPrefix (c # s) p \<or> Contains s p"
      unfolding Cons.IH HasPrefix_iff by (cases a) auto
  qed
  finally show ?case .
qed

lemma Contains_singleton: "Contains s [c] \<longleftrightarrow> c \<in> set s"
  by (auto simp: Contains_iff dest: split_list)

lemma ReplaceAll_simps [simp]:
  "ReplaceAll [] old new = []"
  "ReplaceAll (c # s) old new = (if c = old then new else [c]) @ ReplaceAll s old new"
  "ReplaceAll (s @ t) old new = ReplaceAll s old new @ ReplaceAll t old new"
  by (simp_all add: ReplaceAll_def)

lemma ReplaceAll_id: "old \<notin> set s \<Longrightarrow> ReplaceAll s old new = s"
  by (induction s) auto

subsection \<open>Decimal numbers\<close>

lemma digit_chr_digit [simp]:
  assumes "0 \<le> d" "d \<le> 9"
  shows "is_digit (digit_chr d)" "digit_val (digit_chr d) = d"
  using assms by (simp_all add: is_digit_def digit_val_def digit_chr_def)

lemma digit_chr_mod [simp]:
  "is_digit (digit_chr (n mod 10))" "digit_val (digit_chr (n mod 10)) = n mod 10"
  using pos_mod_bound [of 10 n] by (intro digit_chr_digit; simp)+

lemma digit_val_range:
  "is_digit c \<Longrightarrow> 0 \<le> digit_val c \<and> digit_val c \<le> 9"
  by (simp add: is_digit_def digit_val_def Let_def)

lemma digit_chr_val [simp]: "is_digit c \<Longrightarrow> digit_chr (digit_val c) = c"
  by (simp add: digit_val_def digit_chr_def)

lemma length_dec_digits [simp]: "length (dec_digits w n) = w"
  by (induction w arbitrary: n) auto

lemma dec_digits_digits [simp]: "list_all is_digit (dec_digits w n)"
  by (induction w arbitrary: n) auto

lemma digits_val_snoc [simp]: "digits_val (s @ [c]) = 10 * digits_val s + digit_val c"
  by (simp add: digits_val_def)

lemma digits_val_Nil [simp]: "digits_val [] = 0"
  by (simp add: digits_val_def)

lemma digits_val_dec_digits: "digits_val (dec_digits w n) = n mod 10 ^ w"
proof (induction w arbitrary: n)
  case (Suc w)
  have "n mod (10 * 10 ^ w) = 10 * (n div 10 mod 10 ^ w) + n mod 10"
    by (rule zmod_zmult2_eq) simp
  then show ?case by (simp add: Suc.IH)
qed simp

lemma digits_val_bounds:
  "list_all is_digit s \<Longrightarrow> 0 \<le> digits_val s \<and> digits_val s < 10 ^ length s"
proof (induction s rule: rev_induct)
  case (snoc c s)
  then have "0 \<le> digits_val s" "digits_val s < 10 ^ length s" "is_digit c" by auto
  with digit_val_range [of c] show ?case by simp
qed simp

lemma dec_digits_digits_val:
  "list_all is_digit s \<Longrightarrow> dec_digits (length s) (digits_val s) = s"
proof (induction s rule: rev_induct)
  case (snoc c s)
  then have "is_digit c" by simp
  with digit_val_range [of c] have "(10 * digits_val s + digit_val c) div 10 = digits_val s"
    "(10 * digits_val s + digit_val c) mod 10 = digit_val c"
    by auto
  with snoc show ?case by simp
qed simp

lemma dec_len_le: "1 \<le> w \<Longrightarrow> n < 10 ^ w \<Longrightarrow> dec_len n \<le> w"
proof (induction n arbitrary: w rule: dec_len.induct)
  case (1 n)
  show ?case
  proof (cases "n < 10")
    case True
    with 1 show ?thesis by (simp add: dec_len.simps [of n])
  next
    case False
    with 1(3) have "w \<noteq> 1" by (cases "w = 1") auto
    with 1(2) obtain v where v: "w = Suc v" "1 \<le> v" by (cases w) auto
    with 1(3) have "n div 10 < 10 ^ v" by (simp add: div_less_iff_less_mult)
    with 1(1) False v(2) have "dec_len (n div 10) \<le> v" by blast
    with False v(1) show ?thesis by (simp add: dec_len.simps [of n])
  qed
qed

lemma pad_int_dec_digits:
  assumes "1 \<le> w" "0 \<le> n" "n < 10 ^ w" shows "pad_int w n = dec_digits w n"
proof -
  from assms have "dec_len n \<le> w" by (intro dec_len_le)
  then show ?thesis by (simp add: pad_int_def max_def)
qed

subsection \<open>Facts on splitting and joining\<close>

lemma Split_not_Nil [simp]: "Split s sep \<noteq> []"
  by (induction s) (auto split: list.splits)

lemma Split_append_sep: "Split (s @ sep # t) sep = Split s sep @ Split t sep"
proof (induction s)
  case (Cons c s)
  then show ?case by (cases "Split s sep") auto
qed simp

lemma Split_no_sep: "sep \<notin> set s \<Longrightarrow> Split s sep = [s]"
  by (induction s) auto

lemma Split_pieces: "p \<in> set (Split s sep) \<Longrightarrow> sep \<notin> set p"
proof (induction s arbitrary: p)
  case (Cons c s)
  then show ?case by (cases "Split s sep") (auto split: if_splits)
qed simp

lemma strings_Join_snoc:
  "ps \<noteq> [] \<Longrightarrow> strings_Join (ps @ [p]) sep = strings_Join ps sep @ sep @ p"
proof (induction ps rule: induct_list012)
  case (3 x y zs)
  then show ?case by simp
qed simp_all

lemma Split_Join:
  "ps \<noteq> [] \<Longrightarrow> (\<forall>p \<in> set ps. sep \<notin> set p) \<Longrightarrow> Split (strings_Join ps [sep]) sep = ps"
  by (induction ps "[sep]" rule: strings_Join.induct) (auto simp: Split_no_sep Split_append_sep)

lemma dec_len_gt: "10 ^ w \<le> n \<Longrightarrow> w < dec_len n"
proof (induction w arbitrary: n)
  case 0
  show ?case by (simp add: dec_len.simps [of n])
next
  case (Suc w)
  then have n: "10 * 10 ^ w \<le> n" by simp
  have "10 \<le> n" using n one_le_power [of "10::int" w] by linarith
  have "10 ^ w \<le> n div 10" using zdiv_mono1 [OF n, of 10] by simp
  with Suc.IH \<open>10 \<le> n\<close> show ?case by (simp add: dec_len.simps [of n])
qed

lemma length_pad_int: "length (pad_int w n) = max w (dec_len n)"
  by (simp add: pad_int_def)

subsection \<open>Trimming\<close>

lemma trim_runes_None: "find (\<lambda>r. r \<noteq> [] \<and> HasPrefix s r) rs = None \<Longrightarrow> trim_runes rs s = s"
  by (subst trim_runes.simps) simp

lemma trim_runes_Some:
  "find (\<lambda>r. r \<noteq> [] \<and> HasPrefix s r) rs = Some r \<Longrightarrow> trim_runes rs s = trim_runes rs (drop (length r) s)"
  by (subst trim_runes.simps) simp

lemma trim_runes_suffix: "\<exists>p. s = p @ trim_runes rs s"
proof (induction rs s rule: trim_runes.induct)
  case (1 rs s)
  show ?case
  proof (cases "find (\<lambda>r. r \<noteq> [] \<and> HasPrefix s r) rs")
    case (Some r)
    with 1 obtain p where "drop (length r) s = p @ trim_runes rs (drop (length r) s)" by blast
    then have "s = (take (length r) s @ p) @ trim_runes rs (drop (length r) s)"
      by (metis append.assoc append_take_drop_id)
    with Some show ?thesis by (metis trim_runes_Some)
  qed (simp add: trim_runes_None)
qed

definition no_prefix :: "string list \<Rightarrow> string \<Rightarrow> bool" where
  "no_prefix rs s \<longleftrightarrow> (\<forall>r \<in> set rs. r \<noteq> [] \<longrightarrow> \<not> HasPrefix s r)"

lemma no_prefix_trim: "no_prefix rs (trim_runes rs s)"
proof (induction rs s rule: trim_runes.induct)
  case (1 rs s)
  show ?case
  proof (cases "find (\<lambda>r. r \<noteq> [] \<and> HasPrefix s r) rs")
    case None
    then have "no_prefix rs s" by (auto simp: find_None_iff no_prefix_def)
    with None show ?thesis by (simp add: trim_runes_None)
  qed (use 1 in \<open>simp add: trim_runes_Some\<close>)
qed

lemma trim_runes_id: "no_prefix rs s \<Longrightarrow> trim_runes rs s = s"
proof -
  assume "no_prefix rs s"
  then have "find (\<lambda>r. r \<noteq> [] \<and> HasPrefix s r) rs = None" by (auto simp: find_None_iff no_prefix_def)
  then show ?thesis by (rule trim_runes_None)
qed

lemma no_prefix_take: "no_prefix rs (a @ b) \<Longrightarrow> no_prefix rs a"
  by (fastforce simp: no_prefix_def HasPrefix_iff)

lemma TrimSpace_left: "no_prefix space_runes (TrimSpace s)"
proof -
  obtain p where "rev (trim_runes space_runes s) = p @ rev (TrimSpace s)"
    using trim_runes_suffix [of "rev (trim_runes space_runes s)" "map rev space_runes"] by (auto simp: TrimSpace_def)
  then have "trim_runes space_runes s = TrimSpace s @ rev p" by (metis rev_append rev_rev_ident)
  then show ?thesis using no_prefix_trim [of space_runes s] no_prefix_take by simp
qed

lemma TrimSpace_right: "no_prefix (map rev space_runes) (rev (TrimSpace s))"
  by (simp add: TrimSpace_def no_prefix_trim)

lemma TrimSpace_id:
  "no_prefix space_runes s \<Longrightarrow> no_prefix (map rev space_runes) (rev s) \<Longrightarrow> TrimSpace s = s"
  by (simp add: TrimSpace_def trim_runes_id)

lemma TrimSpace_TrimSpace [simp]: "TrimSpace (TrimSpace s) = TrimSpace s"
  by (rule TrimSpace_id [OF TrimSpace_left TrimSpace_right])

lemma TrimRightNL_not_Nil: "c \<in> set s \<Longrightarrow> c \<noteq> CHR 0x0A \<Longrightarrow> TrimRightNL s \<noteq> []"
  unfolding TrimRightNL_def rev_is_Nil_conv dropWhile_eq_Nil_conv set_rev by blast

end
