(* ===== verification/Go_Filepath.thy ===== *)
theory Go_Filepath
  imports Go_Strings
begin

text \<open>
  Go's \<open>path/filepath\<close> package as it is on Unix, where the separator is a slash and
  \<open>FromSlash\<close> and \<open>ToSlash\<close> are the identity.
\<close>

abbreviation slash :: char where
  "slash \<equiv> CHR ''/''"

definition FromSlash :: "string \<Rightarrow> string" where
  "FromSlash p = p"

definition ToSlash :: "string \<Rightarrow> string" where
  "ToSlash p = p"

text \<open>
  \<open>filepath.Clean\<close>: empty and \<open>.\<close> elements go, \<open>..\<close> removes the element before it (at the
  root it goes too; at the start of a relative path it stays). \<open>st\<close> holds the elements kept
  so far, the last one first.
\<close>

definition clean_step :: "bool \<Rightarrow> string list \<Rightarrow> string \<Rightarrow> string list" where
  "clean_step rooted st c =
     (if c = [] \<or> c = ''.'' then st
      else if c = ''..'' then
        (case st of
           [] \<Rightarrow> if rooted then [] else [''..'']
         | t # ts \<Rightarrow> if t = ''..'' then ''..'' # st else ts)
      else c # st)"

definition path_of :: "bool \<Rightarrow> string list \<Rightarrow> string" where
  "path_of rooted cs =
     (if rooted then slash # strings_Join cs [slash]
      else if cs = [] then ''.'' else strings_Join cs [slash])"

definition rooted :: "string \<Rightarrow> bool" where
  "rooted p \<longleftrightarrow> HasPrefix p [slash]"

definition elements :: "string \<Rightarrow> string list" where
  "elements p = rev (foldl (clean_step (rooted p)) [] (Split p slash))"

definition Clean :: "string \<Rightarrow> string" where
  "Clean p = path_of (rooted p) (elements p)"

text \<open>\<open>filepath.Join\<close> of two elements.\<close>

definition Join :: "string \<Rightarrow> string \<Rightarrow> string" where
  "Join d n =
     (if d \<noteq> [] then Clean (d @ [slash] @ n) else if n \<noteq> [] then Clean n else [])"

text \<open>\<open>filepath.Dir\<close>: everything up to the last separator, cleaned.\<close>

definition Dir :: "string \<Rightarrow> string" where
  "Dir p = Clean (rev (dropWhile (\<lambda>c. c \<noteq> slash) (rev p)))"

definition Base :: "string \<Rightarrow> string" where
  "Base p =
     (if p = [] then ''.''
      else (let b = rev (takeWhile (\<lambda>c. c \<noteq> slash) (dropWhile (\<lambda>c. c = slash) (rev p)))
            in if b = [] then [slash] else b))"

text \<open>\<open>filepath.Ext\<close>: the suffix from the last dot of the last element, or empty.\<close>

definition Ext :: "string \<Rightarrow> string" where
  "Ext p =
     (let e = takeWhile (\<lambda>c. c \<noteq> slash) (rev p)
      in if CHR ''.'' \<in> set e then CHR ''.'' # rev (takeWhile (\<lambda>c. c \<noteq> CHR ''.'') e) else [])"

subsection \<open>Names in a directory\<close>

text \<open>A path that \<open>Clean\<close> does not change, and a name a directory entry can have.\<close>

definition is_clean :: "string \<Rightarrow> bool" where
  "is_clean p \<longleftrightarrow> Clean p = p"

definition entry_name :: "string \<Rightarrow> bool" where
  "entry_name n \<longleftrightarrow> n \<noteq> [] \<and> n \<noteq> ''.'' \<and> n \<noteq> ''..'' \<and> slash \<notin> set n"

definition element_ok :: "string \<Rightarrow> bool" where
  "element_ok e \<longleftrightarrow> e \<noteq> [] \<and> e \<noteq> ''.'' \<and> slash \<notin> set e"

lemma element_ok_dotdot [simp]: "element_ok ''..''"
  by (simp add: element_ok_def)

lemma entry_name_ok: "entry_name n \<Longrightarrow> element_ok n"
  by (simp add: entry_name_def element_ok_def)

lemma clean_step_Nil [simp]: "clean_step r st [] = st"
  by (simp add: clean_step_def)

lemma clean_step_elements:
  assumes "slash \<notin> set c" "list_all element_ok st"
  shows "list_all element_ok (clean_step r st c)"
proof -
  have "c \<noteq> [] \<Longrightarrow> c \<noteq> ''.'' \<Longrightarrow> element_ok c" using assms(1) by (simp add: element_ok_def)
  then show ?thesis using assms(2) by (cases st) (simp_all add: clean_step_def)
qed

lemma foldl_clean_elements:
  "\<forall>c \<in> set cs. slash \<notin> set c \<Longrightarrow> list_all element_ok st \<Longrightarrow> list_all element_ok (foldl (clean_step r) st cs)"
  by (induction cs arbitrary: st) (simp_all add: clean_step_elements)

lemma elements_ok: "list_all element_ok (elements p)"
  unfolding elements_def list_all_rev
  by (rule foldl_clean_elements) (auto dest: Split_pieces)

lemma strings_Join_eq_Nil:
  "list_all element_ok cs \<Longrightarrow> strings_Join cs [slash] = [] \<longleftrightarrow> cs = []"
  by (cases cs; cases "tl cs") (auto simp: element_ok_def)

lemma strings_Join_not_rooted:
  "list_all element_ok cs \<Longrightarrow> slash # x \<noteq> strings_Join cs [slash]"
  by (cases cs; cases "tl cs") (auto simp: element_ok_def Cons_eq_append_conv)

lemma strings_Join_not_dot:
  assumes "list_all element_ok cs" shows "''.'' \<noteq> strings_Join cs [slash]"
proof (cases cs)
  case (Cons p ps)
  with assms show ?thesis by (cases ps) (auto simp: element_ok_def Cons_eq_append_conv)
qed simp

lemma Clean_not_Nil [simp]: "Clean p \<noteq> []"
  using elements_ok [of p] by (simp add: Clean_def path_of_def strings_Join_eq_Nil)

lemma rooted_append [simp]: "p \<noteq> [] \<Longrightarrow> rooted (p @ q) = rooted p"
  by (cases p) (auto simp: rooted_def HasPrefix_def)

lemma elements_snoc:
  assumes "d \<noteq> []" "entry_name n" shows "elements (d @ [slash] @ n) = elements d @ [n]"
proof -
  from assms(2) have n: "n \<noteq> []" "n \<noteq> ''.''" "n \<noteq> ''..''" "slash \<notin> set n"
    by (simp_all add: entry_name_def)
  have "Split (d @ [slash] @ n) slash = Split d slash @ [n]"
    using n(4) by (simp add: Split_append_sep Split_no_sep)
  then show ?thesis using n assms(1) by (simp add: elements_def clean_step_def)
qed

text \<open>Joining a clean directory and the name of an entry.\<close>

lemma Join_entry:
  assumes "is_clean d" "entry_name n"
  shows "Join d n = (if d = ''.'' then n else if d = [slash] then slash # n else d @ slash # n)"
proof -
  have d: "d = path_of (rooted d) (elements d)" "d \<noteq> []"
    using assms(1) Clean_not_Nil [of d] by (auto simp: is_clean_def Clean_def)
  have J: "Join d n = path_of (rooted d) (elements d @ [n])"
    using d(2) elements_snoc [OF d(2) assms(2)] by (simp add: Join_def Clean_def)
  show ?thesis
  proof (cases "elements d = []")
    case True
    with d(1) J show ?thesis by (cases "rooted d") (auto simp: path_of_def)
  next
    case False
    with d(1) have "d \<noteq> ''.''" "d \<noteq> [slash]"
      using strings_Join_not_dot [OF elements_ok [of d]] strings_Join_not_rooted [OF elements_ok [of d]]
        strings_Join_eq_Nil [OF elements_ok [of d]]
      by (auto simp: path_of_def split: if_splits)
    moreover have "Join d n = d @ slash # n"
      using J False by (subst d(1)) (simp add: path_of_def strings_Join_snoc)
    ultimately show ?thesis by simp
  qed
qed

lemma last_element:
  assumes "entry_name n"
  shows "takeWhile (\<lambda>c. c \<noteq> slash) (dropWhile (\<lambda>c. c = slash) (rev n)) = rev n"
    and "takeWhile (\<lambda>c. c \<noteq> slash) (dropWhile (\<lambda>c. c = slash) (rev n @ slash # r)) = rev n"
proof -
  from assms have n: "n \<noteq> []" "slash \<notin> set n" by (simp_all add: entry_name_def)
  then have "dropWhile (\<lambda>c. c = slash) (rev n @ r') = rev n @ r'" for r'
    by (cases n rule: rev_cases) auto
  from this [of "[]"] this [of "slash # r"] n(2)
  show "takeWhile (\<lambda>c. c \<noteq> slash) (dropWhile (\<lambda>c. c = slash) (rev n)) = rev n"
    "takeWhile (\<lambda>c. c \<noteq> slash) (dropWhile (\<lambda>c. c = slash) (rev n @ slash # r)) = rev n"
    by (auto simp: takeWhile_eq_all_conv takeWhile_append)
qed

lemma Base_entry: "entry_name n \<Longrightarrow> Base n = n"
  using last_element(1) [of n] by (simp add: Base_def entry_name_def Let_def)

lemma Base_append_entry: "entry_name n \<Longrightarrow> Base (d @ slash # n) = n"
  using last_element(2) [of n "rev d"] by (simp add: Base_def entry_name_def Let_def)

lemma Base_Join: "is_clean d \<Longrightarrow> entry_name n \<Longrightarrow> Base (Join d n) = n"
  using Base_append_entry [of n "[]"] by (simp add: Join_entry Base_entry Base_append_entry)

lemma Join_inj:
  "is_clean d \<Longrightarrow> entry_name m \<Longrightarrow> entry_name n \<Longrightarrow> Join d m = Join d n \<longleftrightarrow> m = n"
  by (metis Base_Join)

lemma Ext_append: "slash \<notin> set e \<Longrightarrow> CHR ''.'' \<notin> set e \<Longrightarrow> Ext (s @ CHR ''.'' # e) = CHR ''.'' # e"
  by (simp add: Ext_def takeWhile_append)

lemma Ext_zip [simp]: "Ext (s @ ''.zip'') = ''.zip''"
  using Ext_append [of "''zip''" s] by simp

lemma Ext_suffix: "HasSuffix p (Ext p)"
proof (cases "CHR ''.'' \<in> set (takeWhile (\<lambda>c. c \<noteq> slash) (rev p))")
  case True
  then obtain ys zs where e: "takeWhile (\<lambda>c. c \<noteq> slash) (rev p) = ys @ CHR ''.'' # zs" "CHR ''.'' \<notin> set ys"
    by (meson split_list_first)
  then have "takeWhile (\<lambda>c. c \<noteq> CHR ''.'') (ys @ CHR ''.'' # zs) = ys"
    by (simp add: takeWhile_append)
  with True e have E: "Ext p = CHR ''.'' # rev ys" by (simp add: Ext_def)
  have "rev p = (ys @ CHR ''.'' # zs) @ dropWhile (\<lambda>c. c \<noteq> slash) (rev p)"
    by (simp add: e(1) [symmetric])
  then have "p = rev ((ys @ CHR ''.'' # zs) @ dropWhile (\<lambda>c. c \<noteq> slash) (rev p))"
    by (metis rev_rev_ident)
  then have "p = (rev (dropWhile (\<lambda>c. c \<noteq> slash) (rev p)) @ rev zs) @ Ext p"
    by (simp add: E)
  then show ?thesis unfolding HasSuffix_iff by (rule exI)
next
  case False
  then show ?thesis by (simp add: Ext_def HasSuffix_def)
qed

subsection \<open>Clean is idempotent\<close>

text \<open>
  The element lists \<open>Clean\<close> produces: \<open>..\<close> only at the start of a relative path. \<open>st\<close> is
  the list from its end, as \<^const>\<open>clean_step\<close> keeps it.
\<close>

fun normal :: "bool \<Rightarrow> string list \<Rightarrow> bool" where
  "normal r [] = True"
| "normal r (e # st) = (element_ok e \<and> normal r st \<and>
     (e = ''..'' \<longrightarrow> \<not> r \<and> list_all ((=) ''..'') st))"

lemma normal_clean_step:
  assumes "slash \<notin> set c" "normal r st" shows "normal r (clean_step r st c)"
proof -
  have "c \<noteq> [] \<Longrightarrow> c \<noteq> ''.'' \<Longrightarrow> element_ok c" using assms(1) by (simp add: element_ok_def)
  then show ?thesis using assms(2) by (cases st; cases r) (simp_all add: clean_step_def)
qed

lemma normal_foldl:
  "\<forall>c \<in> set cs. slash \<notin> set c \<Longrightarrow> normal r st \<Longrightarrow> normal r (foldl (clean_step r) st cs)"
  by (induction cs arbitrary: st) (simp_all add: normal_clean_step)

lemma normal_elements: "normal (rooted p) (rev (elements p))"
  by (simp add: elements_def normal_foldl Split_pieces)

lemma clean_step_normal:
  assumes "normal r (e # st)" shows "clean_step r st e = e # st"
  using assms by (cases st) (simp_all add: element_ok_def clean_step_def)

lemma foldl_normal: "normal r (rev cs) \<Longrightarrow> foldl (clean_step r) [] cs = rev cs"
proof (induction cs rule: rev_induct)
  case (snoc c cs)
  then have "foldl (clean_step r) [] cs = rev cs" by simp
  with snoc.prems show ?case by (simp add: clean_step_normal)
qed simp

lemma elements_path_of:
  assumes "normal r (rev cs)" "list_all element_ok cs"
  shows "elements (path_of r cs) = cs" "rooted (path_of r cs) = r"
proof -
  from assms(2) have s: "\<forall>c \<in> set cs. slash \<notin> set c"
    by (auto simp: list_all_iff element_ok_def)
  show r: "rooted (path_of r cs) = r"
    using strings_Join_not_rooted [OF assms(2), THEN not_sym]
    by (auto simp: rooted_def path_of_def HasPrefix_iff)
  show "elements (path_of r cs) = cs"
  proof (cases "cs = []")
    case True
    then show ?thesis by (simp add: elements_def path_of_def clean_step_def)
  next
    case False
    then have "Split (strings_Join cs [slash]) slash = cs" using s by (rule Split_Join)
    then have "Split (path_of r cs) slash = (if r then [[]] else []) @ cs"
      using False by (simp add: path_of_def)
    with r foldl_normal [OF assms(1)] show ?thesis by (cases r) (simp_all add: elements_def)
  qed
qed

lemma Clean_Clean [simp]: "Clean (Clean p) = Clean p"
  using elements_path_of [OF normal_elements elements_ok, of p] by (simp add: Clean_def)

lemma is_clean_Clean [simp]: "is_clean (Clean p)"
  by (simp add: is_clean_def)

lemma Join_Clean:
  assumes "d \<noteq> []" "entry_name n" shows "Join (Clean d) n = Join d n"
proof -
  have e: "elements (Clean d) = elements d" "rooted (Clean d) = rooted d"
    unfolding Clean_def by (rule elements_path_of [OF normal_elements elements_ok])+
  have J: "Join p n = path_of (rooted p) (elements p @ [n])" if "p \<noteq> []" for p
    using that elements_snoc [OF that assms(2)] by (simp add: Join_def Clean_def [of "p @ slash # n"])
  show ?thesis using J [OF assms(1)] J [of "Clean d"] e by simp
qed

lemma Base_Join_any: "entry_name n \<Longrightarrow> Base (Join d n) = n"
proof (cases "d = []")
  case True
  assume n: "entry_name n"
  then have "Split n slash = [n]" by (simp add: Split_no_sep entry_name_def)
  with n have "Clean n = n"
    by (auto simp: Clean_def elements_def clean_step_def path_of_def rooted_def HasPrefix_iff entry_name_def)
  with n True show ?thesis by (simp add: Join_def Base_entry entry_name_def)
next
  case False
  assume "entry_name n"
  with False Base_Join [of "Clean d" n] show ?thesis by (simp add: Join_Clean)
qed

end
