(* ===== verification/Go_OS.thy ===== *)
theory Go_OS
  imports Go_Filepath
begin

text \<open>
  The file system and the process state the program works on, and Go's \<open>os\<close> calls.

  A file system maps paths to nodes; it is an association list with one entry per path. The
  entries of a directory are the paths that are its own path joined with their last element.
  Every call can also fail for a reason outside the model (permissions, a missing parent
  directory, a full disk, a broken medium): \<open>faults\<close> says which calls do, as a function of
  the state of the file system and the call. Theorems hold for every \<open>faults\<close>. The text of
  such an error is not modelled, and log lines carry their other arguments only.
\<close>

subsection \<open>State\<close>

datatype oserr = ErrNotExist | ErrOther

datatype node = File (content: bytes) (mtime: int) | Directory

type_synonym fs = "(string \<times> node) list"

datatype osop =
    OpReadDir string
  | OpStat string
  | OpRemove string
  | OpRename string string
  | OpCreate string
  | OpMkdirAll string
  | OpReadFile string
  | OpRead string
  | OpWriteFile string
  | OpZipCreate string
  | OpZipClose string
  | OpClose string

type_synonym faults = "fs \<Rightarrow> osop \<Rightarrow> bool"

text \<open>
  A log line: its level, the translation key of its text, and the arguments formatted into it.
\<close>

datatype level = INFO | WARN | ERROR | DEBUG

type_synonym logline = "level \<times> string \<times> string list"

record world =
  files :: fs
  logs :: "logline list"

definition log_msg :: "level \<Rightarrow> string \<Rightarrow> string list \<Rightarrow> 'a world_scheme \<Rightarrow> 'a world_scheme" where
  "log_msg l key args w = w\<lparr>logs := logs w @ [(l, key, args)]\<rparr>"

subsection \<open>Calls\<close>

definition fs_update :: "string \<Rightarrow> node \<Rightarrow> fs \<Rightarrow> fs" where
  "fs_update p n f = (p, n) # filter (\<lambda>(q, _). q \<noteq> p) f"

definition fs_delete :: "string \<Rightarrow> fs \<Rightarrow> fs" where
  "fs_delete p f = filter (\<lambda>(q, _). q \<noteq> p) f"

definition Stat :: "faults \<Rightarrow> fs \<Rightarrow> string \<Rightarrow> (oserr, node) result" where
  "Stat F f p =
     (if F f (OpStat p) then Inl ErrOther
      else (case map_of f p of None \<Rightarrow> Inl ErrNotExist | Some n \<Rightarrow> Inr n))"

definition entries :: "fs \<Rightarrow> string \<Rightarrow> (string \<times> node) list" where
  "entries f d = map (\<lambda>(p, n). (Base p, n)) (filter (\<lambda>(p, _). entry_name (Base p) \<and> p = Join d (Base p)) f)"

text \<open>\<open>os.ReadDir\<close> returns the entries sorted by name.\<close>

definition ReadDir :: "faults \<Rightarrow> fs \<Rightarrow> string \<Rightarrow> (oserr, (string \<times> node) list) result" where
  "ReadDir F f d =
     (if F f (OpReadDir d) then Inl ErrOther
      else (case map_of f d of
              None \<Rightarrow> Inl ErrNotExist
            | Some (File _ _) \<Rightarrow> Inl ErrOther
            | Some Directory \<Rightarrow> Inr (sort_key fst (entries f d))))"

definition Remove :: "faults \<Rightarrow> fs \<Rightarrow> string \<Rightarrow> (oserr, fs) result" where
  "Remove F f p =
     (if F f (OpRemove p) then Inl ErrOther
      else (case map_of f p of
              None \<Rightarrow> Inl ErrNotExist
            | Some (File _ _) \<Rightarrow> Inr (fs_delete p f)
            | Some Directory \<Rightarrow> if entries f p = [] then Inr (fs_delete p f) else Inl ErrOther))"

text \<open>
  \<open>os.Rename\<close>. A directory moves with everything below it. A file replaces a file; nothing
  replaces a directory (the one case Unix allows, an empty directory over an empty one, does
  not arise in the sources).
\<close>

definition rename_key :: "string \<Rightarrow> string \<Rightarrow> string \<Rightarrow> string" where
  "rename_key a b p =
     (if p = a then b else if HasPrefix p (a @ [slash]) then b @ drop (length a) p else p)"

definition Rename :: "faults \<Rightarrow> fs \<Rightarrow> string \<Rightarrow> string \<Rightarrow> (oserr, fs) result" where
  "Rename F f a b =
     (if F f (OpRename a b) then Inl ErrOther
      else (case map_of f a of
              None \<Rightarrow> Inl ErrNotExist
            | Some (File c t) \<Rightarrow>
                if a = b then Inr f
                else if map_of f b = Some Directory then Inl ErrOther
                else Inr (fs_update b (File c t) (fs_delete a f))
            | Some Directory \<Rightarrow>
                if a = b then Inr f
                else if map_of f b \<noteq> None then Inl ErrOther
                else Inr (map (\<lambda>(p, n). (rename_key a b p, n)) f)))"

text \<open>\<open>os.Create\<close> at the time \<open>now\<close>: a new or truncated file.\<close>

definition Create :: "faults \<Rightarrow> fs \<Rightarrow> string \<Rightarrow> int \<Rightarrow> (oserr, fs) result" where
  "Create F f p now =
     (if F f (OpCreate p) \<or> map_of f p = Some Directory then Inl ErrOther
      else Inr (fs_update p (File [] now) f))"

text \<open>\<open>os.MkdirAll\<close>: an existing directory is no error; an existing file is one.\<close>

definition MkdirAll :: "faults \<Rightarrow> fs \<Rightarrow> string \<Rightarrow> (oserr, fs) result" where
  "MkdirAll F f d =
     (case map_of f d of
        Some Directory \<Rightarrow> Inr f
      | Some (File _ _) \<Rightarrow> Inl ErrOther
      | None \<Rightarrow> if F f (OpMkdirAll d) then Inl ErrOther else Inr (fs_update d Directory f))"

text \<open>
  The process: the results of \<open>os.Executable\<close>, \<open>os.Getwd\<close> and \<open>os.UserHomeDir\<close>
  (\<^const>\<open>None\<close> for an error), and \<open>filepath.Abs\<close>.
\<close>

record procenv =
  Executable :: "string option"
  Getwd :: "string option"
  UserHomeDir :: "string option"

definition Abs :: "procenv \<Rightarrow> string \<Rightarrow> string option" where
  "Abs e p = (if rooted p then Some (Clean p) else map_option (\<lambda>wd. Join wd p) (Getwd e))"

text \<open>\<open>os.ReadFile\<close>, \<open>os.WriteFile\<close> and \<open>os.OpenFile\<close> for appending.\<close>

definition ReadFile :: "faults \<Rightarrow> fs \<Rightarrow> string \<Rightarrow> (oserr, bytes) result" where
  "ReadFile F f p =
     (if F f (OpReadFile p) then Inl ErrOther
      else (case map_of f p of
              None \<Rightarrow> Inl ErrNotExist
            | Some Directory \<Rightarrow> Inl ErrOther
            | Some (File c _) \<Rightarrow> Inr c))"

definition WriteFile :: "faults \<Rightarrow> fs \<Rightarrow> string \<Rightarrow> bytes \<Rightarrow> int \<Rightarrow> (oserr, fs) result" where
  "WriteFile F f p c now =
     (if F f (OpWriteFile p) \<or> map_of f p = Some Directory then Inl ErrOther
      else Inr (fs_update p (File c now) f))"

definition OpenAppend :: "faults \<Rightarrow> fs \<Rightarrow> string \<Rightarrow> int \<Rightarrow> (oserr, fs) result" where
  "OpenAppend F f p now =
     (if F f (OpCreate p) then Inl ErrOther
      else (case map_of f p of
              None \<Rightarrow> Inr (fs_update p (File [] now) f)
            | Some Directory \<Rightarrow> Inl ErrOther
            | Some (File _ _) \<Rightarrow> Inr f))"

subsection \<open>Facts\<close>

definition fs_ok :: "fs \<Rightarrow> bool" where
  "fs_ok f \<longleftrightarrow> distinct (map fst f)"

lemma map_of_fs_delete [simp]: "map_of (fs_delete p f) = (map_of f)(p := None)"
  by (induction f) (auto simp: fs_delete_def)

lemma map_of_fs_update [simp]: "map_of (fs_update p n f) = (map_of f)(p \<mapsto> n)"
  using map_of_fs_delete [of p f] by (simp add: fs_update_def fs_delete_def)

lemma fs_ok_delete [simp, intro]: "fs_ok f \<Longrightarrow> fs_ok (fs_delete p f)"
  by (induction f) (auto simp: fs_ok_def fs_delete_def)

lemma fs_ok_update [simp, intro]: "fs_ok f \<Longrightarrow> fs_ok (fs_update p n f)"
  using fs_ok_delete [of f p] by (auto simp: fs_ok_def fs_update_def fs_delete_def)

lemma entries_iff:
  "(m, n) \<in> set (entries f d) \<longleftrightarrow> (\<exists>p. (p, n) \<in> set f \<and> m = Base p \<and> entry_name m \<and> p = Join d m)"
proof
  assume "\<exists>p. (p, n) \<in> set f \<and> m = Base p \<and> entry_name m \<and> p = Join d m"
  then obtain p where "(p, n) \<in> set f" "m = Base p" "entry_name (Base p) \<and> p = Join d (Base p)" by blast
  then have "(p, n) \<in> set (filter (\<lambda>(p, _). entry_name (Base p) \<and> p = Join d (Base p)) f)" by simp
  with \<open>m = Base p\<close> show "(m, n) \<in> set (entries f d)" unfolding entries_def by force
qed (auto simp: entries_def)

lemma entries_map_of:
  "fs_ok f \<Longrightarrow> (m, n) \<in> set (entries f d) \<Longrightarrow> map_of f (Join d m) = Some n"
  by (auto simp: entries_iff fs_ok_def)

lemma set_ReadDir: "ReadDir F f d = Inr es \<Longrightarrow> set es = set (entries f d)"
  by (auto simp: ReadDir_def split: if_splits option.splits node.splits)

lemma Remove_File:
  "map_of f p = Some (File c t) \<Longrightarrow>
     Remove F f p = (if F f (OpRemove p) then Inl ErrOther else Inr (fs_delete p f))"
  by (simp add: Remove_def)

text \<open>The calls on files, as updates of the map from paths to nodes.\<close>

lemma Stat_ok: "\<not> F f (OpStat p) \<Longrightarrow> Stat F f p = (case map_of f p of None \<Rightarrow> Inl ErrNotExist | Some n \<Rightarrow> Inr n)"
  by (simp add: Stat_def)

lemma Rename_File_iff:
  assumes "map_of f a = Some (File c t)" "a \<noteq> b"
  shows "Rename F f a b = (if F f (OpRename a b) \<or> map_of f b = Some Directory then Inl ErrOther
    else Inr (fs_update b (File c t) (fs_delete a f)))"
  using assms by (simp add: Rename_def)

lemma Rename_None [simp]: "map_of f a = None \<Longrightarrow> Rename F f a b = Inr f' \<longleftrightarrow> False"
  by (simp add: Rename_def)

lemma Create_Inr: "Create F f p now = Inr f' \<Longrightarrow> f' = fs_update p (File [] now) f \<and> map_of f p \<noteq> Some Directory"
  by (simp add: Create_def split: if_splits)

lemma Remove_None [simp]: "map_of f p = None \<Longrightarrow> \<exists>e. Remove F f p = Inl e"
  by (simp add: Remove_def)

lemma fun_upd_None_id: "m p = None \<Longrightarrow> m(p := None) = m"
  by (rule fun_upd_idem)

end
