(* ===== verification/Go_Exec.thy ===== *)
theory Go_Exec
  imports Go_OS
begin

text \<open>
  What the program asks of the world outside its files: processes (\<open>os/exec\<close>), TCP
  connections (\<open>net\<close>), mail (\<open>net/smtp\<close>) and time (\<open>time\<close>).

  Every request is an event, and the events so far are part of the state. The outside world
  answers as a function of all events up to the request (\<open>extenv\<close>), so it may keep any state
  of its own: a server that runs after a start command, a clock that moves on. Theorems hold
  for every such world unless a hypothesis restricts it.
\<close>

subsection \<open>Events and answers\<close>

datatype smtp_op =
    TLSDial string string
  | SMTPDial string
  | NewClient string
  | Extension string
  | StartTLS string
  | Auth string string string string
  | Mail string
  | Rcpt string
  | Data
  | WriteData bytes
  | CloseData
  | Quit
  | Hello
  | Ehlo

datatype event =
    Exec string "string list" bytes
  | Start string "string list"
  | DialTCP string
  | Sleep int
  | SMTP smtp_op

text \<open>
  How a process ended: with status 0, with another status, killed at the deadline of its
  context, or it could not be run.
\<close>

datatype exit = ExitOK | ExitStatus int | ErrDeadline | ErrNotFound | ErrExec

text \<open>
  \<open>stdout\<close> and \<open>stderr\<close> are the outputs of a process, \<open>combined\<close> both in the order in which
  it wrote them (\<open>CombinedOutput\<close>); \<open>eaten\<close> says whether it took its whole standard input.
\<close>

record reply =
  combined :: bytes
  stdout :: bytes
  stderr :: bytes
  status :: exit
  eaten :: bool

record extenv =
  process :: "event list \<Rightarrow> reply"
  listens :: "event list \<Rightarrow> bool"
  smtp_ok :: "event list \<Rightarrow> bool"
  clock :: "event list \<Rightarrow> int"

record sysworld = world +
  trace :: "event list"

definition emit :: "event \<Rightarrow> 'a sysworld_scheme \<Rightarrow> 'a sysworld_scheme" where
  "emit e w = w\<lparr>trace := trace w @ [e]\<rparr>"

definition run_cmd ::
  "extenv \<Rightarrow> string \<Rightarrow> string list \<Rightarrow> bytes \<Rightarrow> 'a sysworld_scheme \<Rightarrow> reply \<times> 'a sysworld_scheme"
where
  "run_cmd X name args input w = (let w' = emit (Exec name args input) w in (process X (trace w'), w'))"

text \<open>\<open>cmd.Start\<close>: the process goes on in the background.\<close>

definition start_cmd ::
  "extenv \<Rightarrow> string \<Rightarrow> string list \<Rightarrow> 'a sysworld_scheme \<Rightarrow> exit \<times> 'a sysworld_scheme"
where
  "start_cmd X name args w = (let w' = emit (Start name args) w in (status (process X (trace w')), w'))"

text \<open>\<open>net.JoinHostPort\<close> and \<open>net.DialTimeout\<close> (the connection is closed again at once).\<close>

definition JoinHostPort :: "string \<Rightarrow> string \<Rightarrow> string" where
  "JoinHostPort host port =
     (if CHR '':'' \<in> set host then ''['' @ host @ '']:'' @ port else host @ '':'' @ port)"

definition dial_tcp :: "extenv \<Rightarrow> string \<Rightarrow> 'a sysworld_scheme \<Rightarrow> bool \<times> 'a sysworld_scheme" where
  "dial_tcp X addr w = (let w' = emit (DialTCP addr) w in (listens X (trace w'), w'))"

text \<open>\<open>time.Now\<close> in nanoseconds, and \<open>time.Sleep\<close>.\<close>

definition time_Now :: "extenv \<Rightarrow> 'a sysworld_scheme \<Rightarrow> int" where
  "time_Now X w = clock X (trace w)"

definition time_Sleep :: "int \<Rightarrow> 'a sysworld_scheme \<Rightarrow> 'a sysworld_scheme" where
  "time_Sleep d w = emit (Sleep d) w"

definition Second :: int where
  "Second = 1000000000"

subsection \<open>Errors\<close>

text \<open>
  An error of the program: the translation key of its text, the arguments formatted into it,
  and the error it wraps.
\<close>

datatype goerr =
    OSErr oserr
  | ExitErr exit
  | TooLong
  | Text string
  | Err string "string list" "goerr option"

subsection \<open>Facts\<close>

lemma emit_simps [simp]:
  "files (emit e w) = files w" "logs (emit e w) = logs w" "trace (emit e w) = trace w @ [e]"
  by (simp_all add: emit_def)

lemma log_msg_simps [simp]:
  "files (log_msg l k a w) = files w" "logs (log_msg l k a w) = logs w @ [(l, k, a)]"
  by (simp_all add: log_msg_def)

text \<open>Events only ever get more: \<open>extends tr tr'\<close> says that \<open>tr'\<close> goes on from \<open>tr\<close>.\<close>

definition extends :: "event list \<Rightarrow> event list \<Rightarrow> bool" where
  "extends tr tr' \<longleftrightarrow> take (length tr) tr' = tr"

lemma extends_iff: "extends tr tr' \<longleftrightarrow> (\<exists>es. tr' = tr @ es)"
  unfolding extends_def by (metis append_eq_conv_conj)

lemma extends_refl [simp]: "extends tr tr" and extends_append [simp]: "extends tr (tr @ es)"
  by (simp_all add: extends_def)

lemma extends_trans: "extends a b \<Longrightarrow> extends b c \<Longrightarrow> extends a c"
  by (auto simp: extends_iff)

lemma extends_more [simp]: "extends a b \<Longrightarrow> extends a (b @ es)"
  by (auto simp: extends_iff)

lemma trace_log_msg [simp]: "trace (log_msg l k a w) = trace w"
  by (simp add: log_msg_def)

lemma run_cmd_simps [simp]:
  "snd (run_cmd X n a i w) = emit (Exec n a i) w"
  "fst (run_cmd X n a i w) = process X (trace w @ [Exec n a i])"
  by (simp_all add: run_cmd_def Let_def)

lemma dial_tcp_simps [simp]:
  "snd (dial_tcp X a w) = emit (DialTCP a) w" "fst (dial_tcp X a w) = listens X (trace w @ [DialTCP a])"
  by (simp_all add: dial_tcp_def Let_def)

lemma start_cmd_simps [simp]:
  "snd (start_cmd X n a w) = emit (Start n a) w"
  "fst (start_cmd X n a w) = status (process X (trace w @ [Start n a]))"
  by (simp_all add: start_cmd_def Let_def)

end
