(* ===== verification/Go_Regexp.thy ===== *)
theory Go_Regexp
  imports Go_Strings
begin

text \<open>
  The part of Go's \<open>regexp\<close> package the sources use: a syntax of expressions, the
  leftmost-first (Perl-like) match with capture groups on UTF-8 input, and
  \<open>FindStringSubmatch\<close>, \<open>MatchString\<close> and \<open>ReplaceAllString\<close>.
\<close>

subsection \<open>Runes\<close>

text \<open>
  \<open>utf8.DecodeRuneInString\<close> on a non-empty string: the first code point and its width in
  bytes. A byte that starts no valid encoding is U+FFFD of width 1.
\<close>

type_synonym rune = int

definition in_range :: "int \<Rightarrow> int \<Rightarrow> int \<Rightarrow> bool" where
  "in_range lo hi x \<longleftrightarrow> lo \<le> x \<and> x \<le> hi"

fun DecodeRune :: "int list \<Rightarrow> rune \<times> nat" where
  "DecodeRune [] = (0xFFFD, 0)"
| "DecodeRune (b0 # bs) =
     (if b0 < 0x80 then (b0, 1)
      else (case bs of
        [] \<Rightarrow> (0xFFFD, 1)
      | b1 # bs1 \<Rightarrow>
          if in_range 0xC2 0xDF b0 \<and> in_range 0x80 0xBF b1
          then ((b0 - 0xC0) * 0x40 + (b1 - 0x80), 2)
          else (case bs1 of
            [] \<Rightarrow> (0xFFFD, 1)
          | b2 # bs2 \<Rightarrow>
              if in_range 0xE0 0xEF b0
                 \<and> in_range (if b0 = 0xE0 then 0xA0 else 0x80) (if b0 = 0xED then 0x9F else 0xBF) b1
                 \<and> in_range 0x80 0xBF b2
              then ((b0 - 0xE0) * 0x1000 + (b1 - 0x80) * 0x40 + (b2 - 0x80), 3)
              else (case bs2 of
                [] \<Rightarrow> (0xFFFD, 1)
              | b3 # _ \<Rightarrow>
                  if in_range 0xF0 0xF4 b0
                     \<and> in_range (if b0 = 0xF0 then 0x90 else 0x80) (if b0 = 0xF4 then 0x8F else 0xBF) b1
                     \<and> in_range 0x80 0xBF b2 \<and> in_range 0x80 0xBF b3
                  then ((b0 - 0xF0) * 0x40000 + (b1 - 0x80) * 0x1000 + (b2 - 0x80) * 0x40 + (b3 - 0x80), 4)
                  else (0xFFFD, 1)))))"

definition first_rune :: "string \<Rightarrow> rune \<times> nat" where
  "first_rune s = DecodeRune (map of_char (take 4 s))"

subsection \<open>Expressions and the match\<close>

text \<open>
  \<open>Cls neg rs\<close> is a character class given by ranges of code points, negated when \<open>neg\<close>.
  \<open>Grp k r\<close> is the capture group number \<open>k\<close>. \<open>Bol\<close> and \<open>Eol\<close> are the anchors \<open>^\<close> and
  \<open>$\<close> without the multi-line flag.
\<close>

datatype re =
    Eps
  | Cls bool "(int \<times> int) list"
  | Cat re re
  | Alt re re
  | Star re
  | Grp nat re
  | Bol
  | Eol

definition Plus :: "re \<Rightarrow> re" where
  "Plus r = Cat r (Star r)"

definition in_cls :: "bool \<Rightarrow> (int \<times> int) list \<Rightarrow> rune \<Rightarrow> bool" where
  "in_cls neg rs x \<longleftrightarrow> neg \<noteq> list_ex (\<lambda>(lo, hi). in_range lo hi x) rs"

text \<open>
  A match state: the number of bytes consumed since the start of the text, the rest of the
  text, and the captures so far (the latest of a group first).
\<close>

type_synonym mstate = "nat \<times> string \<times> (nat \<times> string) list"

definition step_rune :: "bool \<Rightarrow> (int \<times> int) list \<Rightarrow> mstate \<Rightarrow> mstate list" where
  "step_rune neg rs = (\<lambda>(p, s, cs).
     if s = [] then []
     else (case first_rune s of (x, w) \<Rightarrow>
             if in_cls neg rs x then [(p + w, drop w s, cs)] else []))"

text \<open>
  The possible ends of a match, in the order in which a backtracking matcher tries them;
  the first is the leftmost-first match. A greedy repetition tries one more round first.
  Every round of \<open>star_iter\<close> consumes input, so as many rounds as there are bytes suffice.
\<close>

fun star_iter :: "(mstate \<Rightarrow> mstate list) \<Rightarrow> nat \<Rightarrow> mstate \<Rightarrow> mstate list" where
  "star_iter f 0 st = [st]"
| "star_iter f (Suc n) st =
     concat (map (star_iter f n) (filter (\<lambda>st'. length (fst (snd st')) < length (fst (snd st))) (f st)))
     @ [st]"

primrec ends :: "re \<Rightarrow> mstate \<Rightarrow> mstate list" where
  "ends Eps st = [st]"
| "ends (Cls neg rs) st = step_rune neg rs st"
| "ends (Cat r1 r2) st = concat (map (ends r2) (ends r1 st))"
| "ends (Alt r1 r2) st = ends r1 st @ ends r2 st"
| "ends (Star r) st = star_iter (ends r) (length (fst (snd st))) st"
| "ends (Grp k r) st =
     map (\<lambda>(p, s, cs). (p, s, (k, take (p - fst st) (fst (snd st))) # cs)) (ends r st)"
| "ends Bol st = (if fst st = 0 then [st] else [])"
| "ends Eol st = (if fst (snd st) = [] then [st] else [])"

text \<open>
  The leftmost match at or after position \<open>p\<close>: its start, its end state. Candidate starts
  advance by whole runes.
\<close>

function find_from :: "re \<Rightarrow> nat \<Rightarrow> string \<Rightarrow> (nat \<times> mstate) option" where
  "find_from r p s =
     (case ends r (p, s, []) of
        st # _ \<Rightarrow> Some (p, st)
      | [] \<Rightarrow> if s = [] then None
              else (let w = max 1 (snd (first_rune s)) in find_from r (p + w) (drop w s)))"
  by pat_completeness auto
termination
  by (relation "measure (\<lambda>(r, p, s). length s)") auto

declare find_from.simps [simp del]

definition MatchString :: "re \<Rightarrow> string \<Rightarrow> bool" where
  "MatchString r s \<longleftrightarrow> find_from r 0 s \<noteq> None"

text \<open>
  \<open>FindStringSubmatch\<close>: \<^const>\<open>None\<close> is Go's nil slice. The captures are looked up with
  \<open>sub k\<close>; a group that took no part in the match is the empty string, as in Go.
\<close>

definition FindStringSubmatch :: "re \<Rightarrow> string \<Rightarrow> (nat \<times> string) list option" where
  "FindStringSubmatch r s = map_option (\<lambda>(_, _, _, cs). cs) (find_from r 0 s)"

definition sub :: "(nat \<times> string) list \<Rightarrow> nat \<Rightarrow> string" where
  "sub cs k = (case map_of cs k of None \<Rightarrow> [] | Some s \<Rightarrow> s)"

text \<open>
  \<open>ReplaceAllString\<close> with a replacement without \<open>$\<close>: every leftmost match, one after the
  other, is replaced. The expressions of the sources match no empty text; a matcher that did
  would copy one rune and go on.
\<close>

function replace_from :: "re \<Rightarrow> string \<Rightarrow> nat \<Rightarrow> string \<Rightarrow> string" where
  "replace_from r new p s =
     (if s = [] then []
      else (case ends r (p, s, []) of
        (p', s', cs) # _ \<Rightarrow>
          if length s' < length s then new @ replace_from r new p' s'
          else (let w = max 1 (snd (first_rune s)) in take w s @ replace_from r new (p + w) (drop w s))
      | [] \<Rightarrow> (let w = max 1 (snd (first_rune s)) in take w s @ replace_from r new (p + w) (drop w s))))"
  by pat_completeness auto
termination
  by (relation "measure (\<lambda>(r, new, p, s). length s)") auto

declare replace_from.simps [simp del]

definition ReplaceAllString :: "re \<Rightarrow> string \<Rightarrow> string \<Rightarrow> string" where
  "ReplaceAllString r s new = replace_from r new 0 s"

subsection \<open>Building blocks\<close>

definition Chr :: "char \<Rightarrow> re" where
  "Chr c = Cls False [(of_char c, of_char c)]"

definition NotChr :: "char \<Rightarrow> re" where
  "NotChr c = Cls True [(of_char c, of_char c)]"

definition Lit :: "string \<Rightarrow> re" where
  "Lit s = foldr (\<lambda>c r. Cat (Chr c) r) s Eps"

text \<open>
  A letter under the flag \<open>(?i)\<close>: both ASCII cases, and for \<open>s\<close> and \<open>k\<close> the long s and the
  Kelvin sign, which fold to them.
\<close>

definition ChrI :: "char \<Rightarrow> re" where
  "ChrI c =
     (let u = of_char (ascii_upper c) :: int; l = of_char (ascii_lower c) :: int in
      Cls False ([(u, u), (l, l)]
        @ (if l = of_char (CHR ''s'') then [(0x17F, 0x17F)] else [])
        @ (if l = of_char (CHR ''k'') then [(0x212A, 0x212A)] else [])))"

definition LitI :: "string \<Rightarrow> re" where
  "LitI s = foldr (\<lambda>c r. Cat (ChrI c) r) s Eps"

text \<open>\<open>\d\<close>, \<open>\s\<close> and \<open>.\<close> (ASCII classes, and any rune but a newline).\<close>

definition Digit :: re where
  "Digit = Cls False [(48, 57)]"

definition Space :: re where
  "Space = Cls False [(9, 10), (12, 13), (32, 32)]"

definition AnyRune :: re where
  "AnyRune = Cls True [(10, 10)]"

text \<open>\<open>r{n}\<close>.\<close>

definition RepN :: "nat \<Rightarrow> re \<Rightarrow> re" where
  "RepN n r = foldr Cat (replicate n r) Eps"

subsection \<open>Matching ASCII text\<close>

lemma of_char_range [simp]: "0 \<le> (of_char c :: int)" "(of_char c :: int) < 256"
  by (simp_all add: of_char_def) 

lemma of_char_inj [simp]: "(of_char c :: int) = of_char d \<longleftrightarrow> c = d"
  by (simp add: of_char_eq_iff)

lemma DecodeRune_ascii: "0 \<le> b \<Longrightarrow> b < 0x80 \<Longrightarrow> DecodeRune (b # bs) = (b, 1)"
  by simp

lemma DecodeRune_not_ascii: "0x80 \<le> b \<Longrightarrow> 0x80 \<le> fst (DecodeRune (b # bs))"
  by (cases bs; cases "tl bs"; cases "tl (tl bs)") (simp_all add: in_range_def)

lemma first_rune_ascii: "(of_char c :: int) < 0x80 \<Longrightarrow> first_rune (c # s) = (of_char c, 1)"
  by (simp add: first_rune_def)

lemma first_rune_not_ascii: "0x80 \<le> (of_char c :: int) \<Longrightarrow> 0x80 \<le> fst (first_rune (c # s))"
  using DecodeRune_not_ascii [of "of_char c" "map of_char (take 3 s)"]
  by (simp add: first_rune_def numeral_eq_Suc)

lemma DecodeRune_width: "0 < snd (DecodeRune (b # bs))"
  by (cases bs; cases "tl bs"; cases "tl (tl bs)") simp_all

lemma first_rune_width: "0 < snd (first_rune (c # s))"
  using DecodeRune_width [of "of_char c" "map of_char (take 3 s)"] by (simp add: first_rune_def numeral_eq_Suc)

definition ascii_cls :: "(int \<times> int) list \<Rightarrow> bool" where
  "ascii_cls rs \<longleftrightarrow> list_all (\<lambda>(lo, hi). hi < 0x80) rs"

lemma step_rune_ascii:
  assumes "ascii_cls rs"
  shows "step_rune False rs (p, c # s, cs) =
    (if in_cls False rs (of_char c) then [(p + 1, s, cs)] else [])"
proof (cases "(of_char c :: int) < 0x80")
  case True
  then show ?thesis by (simp add: step_rune_def first_rune_ascii)
next
  case False
  have no: "\<not> in_cls False rs x" if "0x80 \<le> x" for x
    using assms that by (auto simp: in_cls_def ascii_cls_def in_range_def list_ex_iff list_all_iff)
  obtain x w where "first_rune (c # s) = (x, w)" by fastforce
  with first_rune_not_ascii [of c s] False no show ?thesis by (simp add: step_rune_def)
qed

lemma step_rune_Nil [simp]: "step_rune neg rs (p, [], cs) = []"
  by (simp add: step_rune_def)

lemma ends_Chr:
  assumes "(of_char c :: int) < 0x80"
  shows "ends (Chr c) (p, s, cs) = (case s of x # xs \<Rightarrow> if x = c then [(p + 1, xs, cs)] else [] | [] \<Rightarrow> [])"
proof -
  have "ascii_cls [(of_char c, of_char c)]" using assms by (simp add: ascii_cls_def)
  then show ?thesis
    by (cases s) (auto simp: Chr_def step_rune_ascii in_cls_def in_range_def eq_iff [symmetric])
qed

lemma ends_Digit:
  "ends Digit (p, s, cs) = (case s of x # xs \<Rightarrow> if is_digit x then [(p + 1, xs, cs)] else [] | [] \<Rightarrow> [])"
proof -
  have "ascii_cls [(48, 57)]" by (simp add: ascii_cls_def)
  then show ?thesis
    by (cases s) (simp_all add: Digit_def step_rune_ascii in_cls_def in_range_def is_digit_def Let_def)
qed

definition is_ascii :: "string \<Rightarrow> bool" where
  "is_ascii s \<longleftrightarrow> list_all (\<lambda>c. (of_char c :: int) < 0x80) s"

lemma ends_Lit:
  "is_ascii l \<Longrightarrow> ends (Lit l) (p, s, cs) =
     (if HasPrefix s l then [(p + length l, drop (length l) s, cs)] else [])"
proof (induction l arbitrary: p s)
  case Nil
  show ?case by (simp add: Lit_def HasPrefix_def)
next
  case (Cons c l)
  then have IH: "\<And>p s. ends (Lit l) (p, s, cs) =
     (if HasPrefix s l then [(p + length l, drop (length l) s, cs)] else [])"
    and c: "(of_char c :: int) < 0x80" by (simp_all add: is_ascii_def)
  have "ends (Lit (c # l)) (p, s, cs) = concat (map (ends (Lit l)) (ends (Chr c) (p, s, cs)))"
    by (simp add: Lit_def)
  with IH show ?case by (cases s) (auto simp: ends_Chr [OF c] HasPrefix_def)
qed

lemma ends_RepN_Digit:
  "ends (RepN n Digit) (p, s, cs) =
     (if n \<le> length s \<and> list_all is_digit (take n s) then [(p + n, drop n s, cs)] else [])"
proof (induction n arbitrary: p s)
  case 0
  show ?case by (simp add: RepN_def)
next
  case (Suc n)
  have "ends (RepN (Suc n) Digit) (p, s, cs) = concat (map (ends (RepN n Digit)) (ends Digit (p, s, cs)))"
    by (simp add: RepN_def)
  with Suc show ?case by (cases s) (auto simp: ends_Digit)
qed

subsection \<open>Anchored search\<close>

lemma find_from_Bol: "0 < p \<Longrightarrow> find_from (Cat Bol r) p s = None"
proof (induction "length s" arbitrary: p s rule: less_induct)
  case less
  then show ?case
  proof (cases "s = []")
    case False
    with less have "find_from (Cat Bol r) (p + max 1 (snd (first_rune s))) (drop (max 1 (snd (first_rune s))) s) = None"
      by (intro less.hyps) auto
    with less.prems False show ?thesis by (subst find_from.simps) (simp add: Let_def)
  qed (simp add: find_from.simps)
qed

lemma MatchString_Bol: "MatchString (Cat Bol r) s \<longleftrightarrow> ends r (0, s, []) \<noteq> []"
proof (cases "ends r (0, s, [])")
  case Nil
  then have "find_from (Cat Bol r) 0 s = None"
    by (subst find_from.simps) (simp add: Let_def find_from_Bol)
  with Nil show ?thesis by (simp add: MatchString_def)
qed (simp add: MatchString_def find_from.simps)

lemma FindStringSubmatch_start:
  "ends r (0, s, []) = (p, s', cs) # sts \<Longrightarrow> FindStringSubmatch r s = Some cs"
  by (simp add: FindStringSubmatch_def find_from.simps [of r 0 s])

subsection \<open>Any text\<close>

text \<open>A rune never runs into an ASCII character, so \<open>.*\<close> can stop before every one.\<close>

lemma first_rune_stops:
  assumes "u \<noteq> []" "(of_char x :: int) < 0x80" shows "snd (first_rune (u @ x # v)) \<le> length u"
proof -
  obtain a u1 where u: "u = a # u1" using assms(1) by (cases u) auto
  show ?thesis
  proof (cases u1)
    case Nil
    then show ?thesis using assms(2) u
      by (cases v; cases "tl v") (simp_all add: first_rune_def in_range_def numeral_eq_Suc)
  next
    case (Cons b u2)
    note u1 = Cons
    show ?thesis
    proof (cases u2)
      case Nil
      then show ?thesis using assms(2) u u1 by (cases v) (simp_all add: first_rune_def in_range_def numeral_eq_Suc)
    next
      case (Cons c u3)
      then show ?thesis using assms(2) u u1 by (cases u3) (simp_all add: first_rune_def in_range_def numeral_eq_Suc)
    qed
  qed
qed

lemma first_rune_not_NL: "c \<noteq> NL \<Longrightarrow> fst (first_rune (c # s)) \<noteq> 10"
proof (cases "(of_char c :: int) < 0x80")
  case True
  assume "c \<noteq> NL"
  moreover have "(of_char NL :: int) = 10" by simp
  ultimately show ?thesis using True first_rune_ascii [of c s] of_char_inj [of c NL] by auto
qed (use first_rune_not_ascii [of c s] in auto)

lemma star_any:
  assumes "NL \<notin> set u" "(of_char x :: int) < 0x80" "length u \<le> n"
  shows "\<exists>q. (q, x # v, cs) \<in> set (star_iter (ends AnyRune) n (p, u @ x # v, cs))"
  using assms
proof (induction "length u" arbitrary: u p n rule: less_induct)
  case less
  show ?case
  proof (cases u)
    case Nil
    then show ?thesis by (cases n) auto
  next
    case (Cons c r)
    obtain m where n: "n = Suc m" using less.prems(3) Cons by (cases n) auto
    define k where "k = snd (first_rune (u @ x # v))"
    have k: "0 < k" "k \<le> length u"
      using first_rune_width [of c "r @ x # v"] first_rune_stops [of u x v] less.prems(2) Cons by (auto simp: k_def)
    have "fst (first_rune (u @ x # v)) \<noteq> 10" using first_rune_not_NL [of c] less.prems(1) Cons by auto
    then have step: "ends AnyRune (p, u @ x # v, cs) = [(p + k, drop k u @ x # v, cs)]"
    proof -
      assume x: "fst (first_rune (u @ x # v)) \<noteq> 10"
      have "drop k (u @ x # v) = drop k u @ x # v" using k(2) by simp
      moreover obtain y where y: "first_rune (u @ x # v) = (y, k)" "y \<noteq> 10" using x by (cases "first_rune (u @ x # v)") (simp add: k_def)
      ultimately show ?thesis by (simp add: AnyRune_def step_rune_def in_cls_def in_range_def y)
    qed
    have "\<exists>q. (q, x # v, cs) \<in> set (star_iter (ends AnyRune) m (p + k, drop k u @ x # v, cs))"
    proof (rule less.hyps)
      show "length (drop k u) < length u" using k by simp
      show "NL \<notin> set (drop k u)" using less.prems(1) by (meson in_set_dropD)
      show "length (drop k u) \<le> m" using less.prems(3) k n by simp
    qed (rule less.prems)
    moreover have "length (drop k u @ x # v) < length (u @ x # v)" using k by simp
    ultimately show ?thesis using n step by auto
  qed
qed

lemma ends_Star_any:
  assumes "NL \<notin> set u" "(of_char x :: int) < 0x80"
  shows "\<exists>q. (q, x # v, cs) \<in> set (ends (Star AnyRune) (p, u @ x # v, cs))"
  using star_any [OF assms, of "length (u @ x # v)"] by (simp only: ends.simps fst_conv snd_conv length_append le_add1)

end
