(* ===== verification/User_SQL.thy ===== *)
theory User_SQL
  imports Go_OS Go_Regexp "HOL-Library.AList"
begin

text \<open>
  \<open>internal/backup/usersql.go\<close>: the parser that turns the exported \<open>CREATE USER\<close> and
  \<open>GRANT\<close> statements into one block of SQL per database.

  A Go map is an association list with one entry per key. Go iterates over a map in any
  order; the orders are parameters (\<open>map_order\<close>), one per loop over a map.
\<close>

subsection \<open>Regular expressions\<close>

definition ident_re :: re where
  "ident_re = Plus (Cls False [(97, 122), (65, 90), (48, 57), (36, 36), (95, 95), (0x80, 0xFFFF)])"

definition quoted :: "char \<Rightarrow> re \<Rightarrow> re" where
  "quoted q body = Cat (Chr q) (Cat body (Chr q))"

text \<open>A name in one of the three quotes or unquoted, captured in the groups \<open>k\<close> to \<open>k + 3\<close>.\<close>

definition name_re :: "nat \<Rightarrow> re" where
  "name_re k =
     Alt (quoted bquote (Grp k (Plus (NotChr bquote))))
    (Alt (quoted dquote (Grp (k + 1) (Plus (NotChr dquote))))
    (Alt (quoted squote (Grp (k + 2) (Plus (NotChr squote))))
         (Grp (k + 3) ident_re)))"

definition userHostRe :: re where
  "userHostRe = Cat (name_re 1) (Cat (Star Space) (Cat (Chr (CHR ''@'')) (Cat (Star Space) (name_re 5))))"

definition identified_by :: re where
  "identified_by =
     Cat (LitI ''IDENTIFIED'') (Cat (Plus Space) (Cat (LitI ''BY'') (Cat (Plus Space)
       (Cat (LitI ''PASSWORD'') (Plus Space)))))"

definition identifiedByRe :: re where
  "identifiedByRe = Cat identified_by
     (Alt (quoted bquote (Grp 1 (Star (NotChr bquote))))
     (Alt (quoted dquote (Grp 2 (Star (NotChr dquote))))
          (quoted squote (Grp 3 (Star (NotChr squote))))))"

definition grantOnDbRe :: re where
  "grantOnDbRe = Cat (LitI ''ON'') (Cat (Plus Space) (Cat (name_re 1)
     (Cat (Star Space) (Cat (Chr (CHR ''.'')) (Cat (Star Space) (Chr (CHR ''*'')))))))"

definition stripIdentRe :: re where
  "stripIdentRe = Cat (Star Space) (Cat identified_by
     (Alt (quoted bquote (Star (NotChr bquote)))
     (Alt (quoted dquote (Star (NotChr dquote)))
          (quoted squote (Star (NotChr squote))))))"

text \<open>
  The three functions that read the captures. The slice \<open>m\<close> of \<open>FindStringSubmatch\<close> is nil
  or has one entry per group, so the tests of its length are tests for nil.
\<close>

definition extractUserHost :: "(nat \<times> string) list option \<Rightarrow> string \<times> string" where
  "extractUserHost mo =
     (case mo of None \<Rightarrow> ([], [])
      | Some m \<Rightarrow> (TrimSpace (sub m 1 @ sub m 2 @ sub m 3 @ sub m 4),
                  TrimSpace (sub m 5 @ sub m 6 @ sub m 7 @ sub m 8)))"

definition extractIdentPassword :: "(nat \<times> string) list \<Rightarrow> string" where
  "extractIdentPassword m = TrimSpace (sub m 1 @ sub m 2 @ sub m 3)"

definition extractGrantDb :: "(nat \<times> string) list \<Rightarrow> string" where
  "extractGrantDb m =
     (let db = TrimSpace (sub m 1 @ sub m 2 @ sub m 3 @ sub m 4) in if db = ''*'' then [] else db)"

subsection \<open>User records\<close>

record grantLine =
  graw :: string
  gdb :: string

record userRecord =
  uname :: string
  hosts :: "string list"
  hostSet :: "string \<Rightarrow> bool"
  password :: string
  pwByHost :: "(string \<times> string) list"
  grants :: "grantLine list"
  dbs :: "string list"

definition newUserRecord :: "string \<Rightarrow> userRecord" where
  "newUserRecord n =
     \<lparr>uname = n, hosts = [], hostSet = (\<lambda>_. False), password = [], pwByHost = [], grants = [], dbs = []\<rparr>"

definition addHost :: "userRecord \<Rightarrow> string \<Rightarrow> userRecord" where
  "addHost u host =
     (if hostSet u host then u
      else u\<lparr>hostSet := (hostSet u)(host := True), hosts := hosts u @ [host]\<rparr>)"

text \<open>\<open>setPassword\<close>: the error is the log line its caller writes.\<close>

definition setPassword :: "userRecord \<Rightarrow> string \<Rightarrow> string \<Rightarrow> (logline, userRecord) result" where
  "setPassword u host hash =
     (if hash = [] then Inr u
      else if \<exists>prev \<in> set_option (map_of (pwByHost u) host). prev \<noteq> hash
      then Inl (WARN, ''err.user_differing_password'', [uname u, host])
      else let u' = u\<lparr>pwByHost := AList.update host hash (pwByHost u)\<rparr> in
        Inr (if password u' = [] then u'\<lparr>password := hash\<rparr> else u'))"

fun differ_loop :: "string \<Rightarrow> string list \<Rightarrow> bool" where
  "differ_loop first [] = False"
| "differ_loop first (p # ps) =
     (if first = [] then differ_loop p ps else if p \<noteq> first then True else differ_loop first ps)"

definition hasDifferentPasswords :: "((string \<times> string) list \<Rightarrow> (string \<times> string) list) \<Rightarrow> userRecord \<Rightarrow> bool" where
  "hasDifferentPasswords pw_order u =
     (if length (pwByHost u) \<le> 1 then False else differ_loop [] (map snd (pw_order (pwByHost u))))"

subsection \<open>Parsing\<close>

type_synonym users = "(string \<times> userRecord) list"

definition lookup_user :: "users \<Rightarrow> string \<Rightarrow> userRecord" where
  "lookup_user us n = (case map_of us n of Some u \<Rightarrow> u | None \<Rightarrow> newUserRecord n)"

definition add_password :: "string \<Rightarrow> string \<Rightarrow> userRecord \<Rightarrow> userRecord \<times> logline list" where
  "add_password trimmed host u =
     (case FindStringSubmatch identifiedByRe trimmed of
        None \<Rightarrow> (u, [])
      | Some m \<Rightarrow>
          let pw = extractIdentPassword m in
          if pw \<noteq> [] then (case setPassword u host pw of Inl e \<Rightarrow> (u, [e]) | Inr u' \<Rightarrow> (u', []))
          else (u, []))"

definition grant_db :: "string \<Rightarrow> string" where
  "grant_db trimmed =
     (case FindStringSubmatch grantOnDbRe trimmed of None \<Rightarrow> [] | Some m \<Rightarrow> extractGrantDb m)"

definition add_grant :: "string \<Rightarrow> string \<Rightarrow> userRecord \<Rightarrow> userRecord" where
  "add_grant line db u =
     (let u1 = (if db \<noteq> [] then u\<lparr>dbs := (if db \<in> set (dbs u) then dbs u else dbs u @ [db])\<rparr> else u) in
      u1\<lparr>grants := grants u1 @ [\<lparr>graw = line, gdb = db\<rparr>]\<rparr>)"

definition parse_line :: "users \<Rightarrow> string \<Rightarrow> users \<times> logline list" where
  "parse_line us line =
     (let trimmed = TrimSpace line in
      if trimmed = [] then (us, [])
      else let upper = ToUpper trimmed in
      if HasPrefix upper ''CREATE USER '' then
        (case extractUserHost (FindStringSubmatch userHostRe trimmed) of (name, host) \<Rightarrow>
           if name \<noteq> [] \<and> host \<noteq> [] then
             (case add_password trimmed host (addHost (lookup_user us name) host) of
                (u, ws) \<Rightarrow> (AList.update name u us, ws))
           else (us, []))
      else if HasPrefix upper ''GRANT '' then
        (case extractUserHost (FindStringSubmatch userHostRe trimmed) of (name, host) \<Rightarrow>
           if name = [] \<or> host = [] then (us, [])
           else
             (case add_password trimmed host (addHost (lookup_user us name) host) of
                (u, ws) \<Rightarrow> (AList.update name (add_grant line (grant_db trimmed) u) us, ws)))
      else (us, []))"

fun parse_lines :: "users \<Rightarrow> string list \<Rightarrow> users \<times> logline list" where
  "parse_lines us [] = (us, [])"
| "parse_lines us (l # ls) =
     (case parse_line us l of (us1, ws1) \<Rightarrow>
        (case parse_lines us1 ls of (us2, ws2) \<Rightarrow> (us2, ws1 @ ws2)))"

text \<open>\<open>parseUserRecords\<close>; the error of the scanner is not looked at.\<close>

definition parseUserRecords :: "bytes \<Rightarrow> users \<times> logline list" where
  "parseUserRecords sql = parse_lines [] (fst (ScanLines (1024 * 1024) sql))"

subsection \<open>The SQL of a database\<close>

definition escapeSQL :: "string \<Rightarrow> string" where
  "escapeSQL s = ReplaceAll (ReplaceAll s backslash [backslash, backslash]) squote [squote, squote]"

definition create_user :: "userRecord \<Rightarrow> string \<Rightarrow> string" where
  "create_user u h =
     (let passHash = password u in
      if passHash \<noteq> [] then
        ''CREATE USER IF NOT EXISTS '' @ [squote] @ escapeSQL (uname u) @ [squote] @ ''@'' @ [squote]
        @ escapeSQL h @ [squote] @ '' IDENTIFIED BY PASSWORD '' @ [squote] @ escapeSQL passHash @ [squote] @ '';'' @ [NL]
      else
        ''CREATE USER IF NOT EXISTS '' @ [squote] @ escapeSQL (uname u) @ [squote] @ ''@'' @ [squote]
        @ escapeSQL h @ [squote] @ '';'' @ [NL])"

definition grant_text :: "string \<Rightarrow> grantLine \<Rightarrow> string" where
  "grant_text db g =
     (if gdb g \<noteq> db then []
      else let stripped = TrimSpace (ReplaceAllString stripIdentRe (graw g) []) in
        if stripped \<noteq> [] then
          (if \<not> HasSuffix stripped '';'' then stripped @ '';'' else stripped) @ [NL]
        else [])"

definition user_block :: "userRecord \<Rightarrow> string \<Rightarrow> string" where
  "user_block u db = concat (map (create_user u) (hosts u)) @ concat (map (grant_text db) (grants u))"

text \<open>The inner loop of \<open>ParseUserSQL\<close>, over the databases of a user.\<close>

fun db_loop :: "userRecord \<Rightarrow> string list \<Rightarrow> (string \<rightharpoonup> string) \<Rightarrow> (string \<rightharpoonup> string)" where
  "db_loop u [] m = m"
| "db_loop u (d # ds) m =
     (let db = TrimSpace d in
      if db = [] then db_loop u ds m
      else let s = user_block u db in
        if s = [] then db_loop u ds m
        else let existing = (case m db of None \<Rightarrow> [] | Some e \<Rightarrow> if e \<noteq> [] then e @ [NL, NL] else e)
          in db_loop u ds (m(db \<mapsto> existing @ TrimRightNL s)))"

text \<open>
  The orders in which the loops over maps run: over the users in \<open>userNamesFromUsers\<close> and in
  \<open>ParseUserSQL\<close>, over the databases of a user, and over the passwords of a user.
\<close>

record map_order =
  names_order :: "userRecord list \<Rightarrow> userRecord list"
  users_order :: "userRecord list \<Rightarrow> userRecord list"
  dbs_order :: "string \<Rightarrow> string list \<Rightarrow> string list"
  pw_order :: "string \<Rightarrow> (string \<times> string) list \<Rightarrow> (string \<times> string) list"

fun user_loop ::
  "map_order \<Rightarrow> userRecord list \<Rightarrow> (string \<rightharpoonup> string) \<Rightarrow> (string \<rightharpoonup> string) \<times> logline list"
where
  "user_loop ord [] m = (m, [])"
| "user_loop ord (u # us) m =
     (if dbs u = [] then user_loop ord us m
      else
        let ws = (if hasDifferentPasswords (pw_order ord (uname u)) u
                  then [(WARN, ''log.warn.user_different_passwords'', [uname u])] else [])
        in (case user_loop ord us (db_loop u (dbs_order ord (uname u) (dbs u)) m) of
              (m', ws') \<Rightarrow> (m', ws @ ws')))"

definition user_key :: "userRecord \<Rightarrow> string \<Rightarrow> string" where
  "user_key u h = uname u @ ''@'' @ h"

text \<open>\<open>userNamesFromUsers\<close>; \<open>names\<close> is also the set \<open>seen\<close>.\<close>

fun add_names :: "userRecord \<Rightarrow> string list \<Rightarrow> string list \<Rightarrow> string list" where
  "add_names u [] names = names"
| "add_names u (h # hs) names =
     (let key = user_key u h in
      if key \<in> set names then add_names u hs names else add_names u hs (names @ [key]))"

definition userNamesFromUsers :: "map_order \<Rightarrow> users \<Rightarrow> string list" where
  "userNamesFromUsers ord us = foldl (\<lambda>names u. add_names u (hosts u) names) [] (names_order ord (map snd us))"

record parsed =
  dbToSQL :: "string \<rightharpoonup> string"
  userNames :: "string list"
  warnings :: "logline list"

definition ParseUserSQL :: "map_order \<Rightarrow> bytes \<Rightarrow> parsed" where
  "ParseUserSQL ord sql =
     (if sql = [] then \<lparr>dbToSQL = Map.empty, userNames = [], warnings = []\<rparr>
      else (case parseUserRecords sql of (us, ws1) \<Rightarrow>
              (case user_loop ord (users_order ord (map snd us)) Map.empty of (m, ws2) \<Rightarrow>
                 \<lparr>dbToSQL = m, userNames = userNamesFromUsers ord us, warnings = ws1 @ ws2\<rparr>)))"

subsection \<open>The records the parser builds\<close>

definition user_inv :: "userRecord \<Rightarrow> bool" where
  "user_inv u \<longleftrightarrow>
     uname u \<noteq> [] \<and> distinct (hosts u) \<and> (\<forall>h. hostSet u h \<longleftrightarrow> h \<in> set (hosts u))
     \<and> distinct (map fst (pwByHost u)) \<and> fst ` set (pwByHost u) \<subseteq> set (hosts u)
     \<and> [] \<notin> snd ` set (pwByHost u)
     \<and> (if pwByHost u = [] then password u = [] else password u \<in> snd ` set (pwByHost u))
     \<and> distinct (dbs u) \<and> set (dbs u) = gdb ` set (grants u) - {[]}
     \<and> (\<forall>d \<in> set (dbs u). TrimSpace d = d)"

definition users_ok :: "users \<Rightarrow> bool" where
  "users_ok us \<longleftrightarrow>
     distinct (map fst us) \<and> (\<forall>(n, u) \<in> set us. uname u = n \<and> hosts u \<noteq> [] \<and> user_inv u)"

lemma user_inv_new [simp]: "n \<noteq> [] \<Longrightarrow> user_inv (newUserRecord n)"
  by (simp add: user_inv_def newUserRecord_def)

lemma user_inv_addHost: "user_inv u \<Longrightarrow> user_inv (addHost u h)"
  by (auto simp: user_inv_def addHost_def)

lemma addHost_simps [simp]:
  "uname (addHost u h) = uname u" "user_inv u \<Longrightarrow> h \<in> set (hosts (addHost u h))"
  by (simp_all add: addHost_def user_inv_def)

lemma update_same: "map_of q h = Some p \<Longrightarrow> AList.update h p q = q"
  by (induction q) (auto split: if_splits)

lemma update_new: "map_of q h = None \<Longrightarrow> AList.update h p q = q @ [(h, p)]"
  by (induction q) (auto split: if_splits)

lemma setPassword_inv:
  assumes "user_inv u" "h \<in> set (hosts u)" "setPassword u h p = Inr u'"
  shows "user_inv u'" "uname u' = uname u" "hosts u' = hosts u"
proof -
  consider "u' = u" | "p \<noteq> []" "map_of (pwByHost u) h = Some p" "u' = (if password u = [] then u\<lparr>password := p\<rparr> else u)"
    | "p \<noteq> []" "map_of (pwByHost u) h = None"
      "u' = u\<lparr>pwByHost := pwByHost u @ [(h, p)], password := (if password u = [] then p else password u)\<rparr>"
    using assms(3) by (cases "map_of (pwByHost u) h")
      (auto simp: setPassword_def Let_def update_same update_new split: if_splits)
  then have "user_inv u' \<and> uname u' = uname u \<and> hosts u' = hosts u"
  proof cases
    case 2
    with assms(1) have "password u \<noteq> []" by (auto simp: user_inv_def split: if_splits)
    with 2 assms(1) show ?thesis by simp
  next
    case 3
    with assms(1,2) show ?thesis by (auto simp: user_inv_def map_of_eq_None_iff split: if_splits)
  qed (use assms in simp)
  then show "user_inv u'" "uname u' = uname u" "hosts u' = hosts u" by simp_all
qed

lemma add_password_inv:
  assumes "add_password l h u = (u', ws)" "user_inv u" "h \<in> set (hosts u)"
  shows "user_inv u' \<and> uname u' = uname u \<and> hosts u' = hosts u"
  using assms setPassword_inv [OF assms(2,3)]
  by (auto simp: add_password_def Let_def split: option.splits if_splits sum.splits)

lemma grant_db_trimmed: "TrimSpace (grant_db l) = grant_db l"
proof -
  have [simp]: "TrimSpace [] = []" by (rule TrimSpace_id) (simp_all add: no_prefix_def HasPrefix_def)
  show ?thesis by (simp add: grant_db_def extractGrantDb_def Let_def split: option.split)
qed

lemma add_grant_inv: "user_inv u \<Longrightarrow> TrimSpace db = db \<Longrightarrow> user_inv (add_grant l db u)"
  by (cases "db = []"; cases "db \<in> set (dbs u)") (auto simp: user_inv_def add_grant_def Let_def)

lemma add_grant_simps [simp]:
  "uname (add_grant l db u) = uname u" "hosts (add_grant l db u) = hosts u"
  by (simp_all add: add_grant_def Let_def)

lemma users_ok_update:
  assumes "users_ok us" "uname u = n" "hosts u \<noteq> []" "user_inv u"
  shows "users_ok (AList.update n u us)"
proof (cases "map_of us n")
  case None
  with assms show ?thesis by (auto simp: users_ok_def update_new map_of_eq_None_iff)
next
  case (Some v)
  have "set (AList.update n u us) \<subseteq> insert (n, u) (set us)"
    by (induction us) auto
  with assms show ?thesis by (auto simp: users_ok_def distinct_update)
qed

lemma lookup_user_inv:
  "users_ok us \<Longrightarrow> n \<noteq> [] \<Longrightarrow> user_inv (lookup_user us n) \<and> uname (lookup_user us n) = n"
  by (auto simp: lookup_user_def users_ok_def newUserRecord_def [of n] split: option.splits dest: map_of_SomeD)
    (simp add: user_inv_def)

text \<open>The record of the user a line names, with the host and the password of the line.\<close>

lemma touched_user:
  assumes "users_ok us" "n \<noteq> []" "add_password l h (addHost (lookup_user us n) h) = (u, ws)"
  shows "uname u = n" "hosts u \<noteq> []" "user_inv u"
proof -
  note L = lookup_user_inv [OF assms(1,2)]
  have h: "h \<in> set (hosts (addHost (lookup_user us n) h))" using L by simp
  note A = add_password_inv [OF assms(3) user_inv_addHost h]
  show "uname u = n" "user_inv u" using L A by auto
  show "hosts u \<noteq> []" using L A h by (metis empty_iff empty_set)
qed

lemma parse_line_ok: "users_ok us \<Longrightarrow> users_ok (fst (parse_line us l))"
  using users_ok_update touched_user add_grant_inv grant_db_trimmed
  by (auto simp: parse_line_def Let_def split: prod.split)

lemma parse_lines_ok: "users_ok us \<Longrightarrow> users_ok (fst (parse_lines us ls))"
proof (induction ls arbitrary: us)
  case (Cons l ls)
  from Cons.IH [OF parse_line_ok [OF Cons.prems, of l]] show ?case by (simp add: case_prod_beta)
qed simp

lemma users_parsed: "users_ok (fst (parseUserRecords sql))"
  unfolding parseUserRecords_def by (rule parse_lines_ok) (simp add: users_ok_def)

text \<open>
  C15. The parser builds well-formed records from every input: one record per user name, each
  with at least one host and no host twice, a password hash only for hosts of the user, the
  user's hash one of these, and as databases exactly the databases its grants name.
\<close>

theorem parseUserRecords_ok: "users_ok (fst (parseUserRecords sql))"
  by (rule users_parsed)

subsection \<open>Literals\<close>

text \<open>
  How MySQL reads a string literal after its opening quote: a backslash takes the next
  character, two quotes are one, a single quote ends it. The result is the value and the rest.
\<close>

definition unescape :: "char \<Rightarrow> string" where
  "unescape c =
     (if c = CHR ''0'' then [CHR 0x00] else if c = CHR ''b'' then [CHR 0x08] else if c = CHR ''n'' then [CHR 0x0A]
      else if c = CHR ''r'' then [CHR 0x0D] else if c = CHR ''t'' then [CHR 0x09] else if c = CHR ''Z'' then [CHR 0x1A]
      else if c = CHR ''%'' \<or> c = CHR ''_'' then [backslash, c] else [c])"

fun read_literal :: "string \<Rightarrow> (string \<times> string) option" where
  "read_literal [] = None"
| "read_literal [c] = (if c = squote then Some ([], []) else None)"
| "read_literal (c # d # s) =
     (if c = backslash then map_option (apfst ((@) (unescape d))) (read_literal s)
      else if c = squote then
        if d = squote then map_option (apfst ((#) squote)) (read_literal s) else Some ([], d # s)
      else map_option (apfst ((#) c)) (read_literal (d # s)))"

lemma escapeSQL_simps [simp]:
  "escapeSQL [] = []"
  "escapeSQL (c # s) =
     (if c = backslash then [backslash, backslash] else if c = squote then [squote, squote] else [c]) @ escapeSQL s"
  by (simp_all add: escapeSQL_def)

lemma read_literal_other:
  "c \<noteq> backslash \<Longrightarrow> c \<noteq> squote \<Longrightarrow> read_literal (c # s) = map_option (apfst ((#) c)) (read_literal s)"
  by (cases s) simp_all

lemma read_literal_end: "take 1 r \<noteq> [squote] \<Longrightarrow> read_literal (squote # r) = Some ([], r)"
  by (cases r) simp_all

lemma read_literal_escapeSQL:
  assumes "take 1 r \<noteq> [squote]"
  shows "read_literal (escapeSQL s @ squote # r) = Some (s, r)"
proof (induction s)
  case Nil
  show ?case using assms by (simp add: read_literal_end)
next
  case (Cons c s)
  have "unescape backslash = [backslash]" by (simp add: unescape_def)
  with Cons show ?case by (auto simp: read_literal_other)
qed

text \<open>A reader for the statement \<open>create_user\<close> writes: user, host and password hash.\<close>

definition read_after :: "string \<Rightarrow> string \<Rightarrow> (string \<times> string) option" where
  "read_after kw s = (if HasPrefix s (kw @ [squote]) then read_literal (drop (length kw + 1) s) else None)"

definition read_create_user :: "string \<Rightarrow> (string \<times> string \<times> string option) option" where
  "read_create_user s =
     (case read_after ''CREATE USER IF NOT EXISTS '' s of
        None \<Rightarrow> None
      | Some (user, s1) \<Rightarrow>
          (case read_after ''@'' s1 of
             None \<Rightarrow> None
           | Some (host, s2) \<Rightarrow>
               if s2 = '';'' @ [NL] then Some (user, host, None)
               else (case read_after '' IDENTIFIED BY PASSWORD '' s2 of
                       None \<Rightarrow> None
                     | Some (hash, s3) \<Rightarrow> if s3 = '';'' @ [NL] then Some (user, host, Some hash) else None)))"

lemma read_after_escapeSQL:
  "take 1 r \<noteq> [squote] \<Longrightarrow> read_after kw (kw @ squote # escapeSQL s @ squote # r) = Some (s, r)"
  using read_literal_escapeSQL [of r s] by (simp add: read_after_def HasPrefix_def)

text \<open>
  C16. The statement written for a user and a host reads back as exactly that user, that host
  and that password hash: no content of a name or hash ends a literal early.
\<close>

theorem create_user_reads_back:
  "read_create_user (create_user u h) =
     Some (uname u, h, if password u = [] then None else Some (password u))"
proof -
  define k1 k2 k3 e where "k1 = ''CREATE USER IF NOT EXISTS ''" and "k2 = ''@''"
    and "k3 = '' IDENTIFIED BY PASSWORD ''" and "e = '';'' @ [NL]"
  note defs = k1_def k2_def k3_def e_def
  define tail where "tail = (if password u = [] then e else k3 @ squote # escapeSQL (password u) @ squote # e)"
  have split: "create_user u h = k1 @ squote # escapeSQL (uname u) @ squote # (k2 @ squote # escapeSQL h @ squote # tail)"
    by (simp add: create_user_def tail_def defs)
  have tail: "take 1 tail \<noteq> [squote]" "take 1 e \<noteq> [squote]" "password u \<noteq> [] \<Longrightarrow> tail \<noteq> e"
    by (simp_all add: tail_def defs)
  have 1: "read_after k1 (create_user u h) = Some (uname u, k2 @ squote # escapeSQL h @ squote # tail)"
    unfolding split by (rule read_after_escapeSQL) (simp add: k2_def)
  have 2: "read_after k2 (k2 @ squote # escapeSQL h @ squote # tail) = Some (h, tail)"
    by (rule read_after_escapeSQL) (rule tail)
  have 3: "password u \<noteq> [] \<Longrightarrow> read_after k3 tail = Some (password u, e)"
    using read_after_escapeSQL [OF tail(2)] by (simp add: tail_def)
  have 4: "password u = [] \<Longrightarrow> tail = e" by (simp add: tail_def)
  show ?thesis
    unfolding read_create_user_def k1_def [symmetric] k2_def [symmetric] k3_def [symmetric] e_def [symmetric]
      1 option.case prod.case 2
    using tail(3) 3 4 by (cases "password u = []") simp_all
qed

subsection \<open>The blocks\<close>

text \<open>Go iterates over a map in some order of its entries.\<close>

locale map_iteration =
  fixes ord :: map_order
  assumes names_perm: "mset (names_order ord us) = mset us"
    and users_perm: "mset (users_order ord us) = mset us"
    and dbs_perm: "mset (dbs_order ord n ds) = mset ds"
    and pw_perm: "mset (pw_order ord n ps) = mset ps"

definition insertion_order :: map_order where
  "insertion_order = \<lparr>names_order = (\<lambda>us. us), users_order = (\<lambda>us. us), dbs_order = (\<lambda>_ ds. ds), pw_order = (\<lambda>_ ps. ps)\<rparr>"

definition reverse_order :: map_order where
  "reverse_order = \<lparr>names_order = rev, users_order = rev, dbs_order = (\<lambda>_. rev), pw_order = (\<lambda>_. rev)\<rparr>"

interpretation first_in: map_iteration insertion_order
  by unfold_locales (simp_all add: insertion_order_def)

interpretation last_in: map_iteration reverse_order
  by unfold_locales (simp_all add: reverse_order_def)

text \<open>What is put before a new block where the database has a block already.\<close>

definition append_block :: "string option \<Rightarrow> string \<Rightarrow> string" where
  "append_block e b = (case e of None \<Rightarrow> [] | Some e \<Rightarrow> if e \<noteq> [] then e @ [NL, NL] else e) @ b"

lemma user_block_not_Nil:
  assumes "hosts u \<noteq> []" shows "TrimRightNL (user_block u db) \<noteq> []" "user_block u db \<noteq> []"
proof -
  from assms obtain h hs where "hosts u = h # hs" by (cases "hosts u") auto
  then have "CHR ''C'' \<in> set (user_block u db)" by (simp add: user_block_def create_user_def Let_def)
  then show "TrimRightNL (user_block u db) \<noteq> []" "user_block u db \<noteq> []" by (auto simp: TrimRightNL_not_Nil)
qed

lemma db_loop_lookup:
  assumes "distinct ds" "\<forall>d \<in> set ds. d \<noteq> [] \<and> TrimSpace d = d" "hosts u \<noteq> []"
  shows "db_loop u ds m db =
    (if db \<in> set ds then Some (append_block (m db) (TrimRightNL (user_block u db))) else m db)"
  using assms
proof (induction ds arbitrary: m)
  case (Cons d ds)
  then have "TrimSpace d = d" "d \<noteq> []" "user_block u d \<noteq> []" by (auto simp: user_block_not_Nil)
  with Cons show ?case by (auto simp: Let_def append_block_def)
qed simp

lemma user_loop_lookup:
  assumes "\<forall>u \<in> set us. hosts u \<noteq> [] \<and> user_inv u" "map_iteration ord"
  shows "fst (user_loop ord us m) db =
    foldl (\<lambda>e u. Some (append_block e (TrimRightNL (user_block u db)))) (m db) (filter (\<lambda>u. db \<in> set (dbs u)) us)"
  using assms(1)
proof (induction us arbitrary: m)
  case (Cons u us)
  from assms(2) have set: "set (dbs_order ord n ds) = set ds" "distinct (dbs_order ord n ds) = distinct ds" for n ds
    by (metis map_iteration.dbs_perm mset_eq_setD, metis map_iteration.dbs_perm mset_eq_imp_distinct_iff)
  from Cons.prems have u: "hosts u \<noteq> []" "distinct (dbs u)" "\<forall>d \<in> set (dbs u). d \<noteq> [] \<and> TrimSpace d = d"
    by (auto simp: user_inv_def)
  have L: "db_loop u (dbs_order ord (uname u) (dbs u)) m db =
      (if db \<in> set (dbs u) then Some (append_block (m db) (TrimRightNL (user_block u db))) else m db)"
    using u by (simp add: db_loop_lookup set)
  from Cons have IH: "fst (user_loop ord us m') db = foldl (\<lambda>e u. Some (append_block e (TrimRightNL (user_block u db))))
      (m' db) (filter (\<lambda>u. db \<in> set (dbs u)) us)" for m' by simp
  show ?case by (cases "dbs u = []") (simp_all add: Let_def case_prod_beta IH L)
qed simp

lemma append_blocks_join:
  "list_all (\<lambda>b. b \<noteq> []) bs \<Longrightarrow>
     foldl (\<lambda>e b. Some (append_block e b)) None bs = (if bs = [] then None else Some (strings_Join bs [NL, NL]))"
proof (induction bs rule: rev_induct)
  case (snoc b bs)
  then have "bs \<noteq> [] \<Longrightarrow> strings_Join bs [NL, NL] \<noteq> []"
    by (cases bs; cases "tl bs") auto
  with snoc show ?case by (auto simp: append_block_def strings_Join_snoc)
qed simp


definition ex_sql :: string where
  "ex_sql = ''GRANT ALL ON '' @ [bquote] @ ''db'' @ [bquote] @ ''.* TO '' @ [squote] @ ''u'' @ [squote] @ ''@''
     @ [squote] @ ''h'' @ [squote] @ '' IDENTIFIED BY PASSWORD '' @ [squote] @ ''x'' @ [squote] @ [NL]"


subsection \<open>Names and passwords\<close>

lemma add_names_props:
  assumes "distinct names"
  shows "distinct (add_names u hs names) \<and> set (add_names u hs names) = set names \<union> user_key u ` set hs"
  using assms by (induction hs arbitrary: names) (auto simp: Let_def)

lemma names_fold:
  "distinct names \<Longrightarrow> distinct (foldl (\<lambda>names u. add_names u (hosts u) names) names us)
     \<and> set (foldl (\<lambda>names u. add_names u (hosts u) names) names us)
       = set names \<union> (\<Union>u \<in> set us. user_key u ` set (hosts u))"
  by (induction us arbitrary: names) (simp_all add: add_names_props Un_assoc)

text \<open>
  The list of accounts for the log names every user at every of its hosts once.
\<close>

theorem userNames_complete:
  assumes "map_iteration ord"
  shows "distinct (userNamesFromUsers ord us)
    \<and> set (userNamesFromUsers ord us) = (\<Union>(n, u) \<in> set us. user_key u ` set (hosts u))"
proof -
  have "set (names_order ord (map snd us)) = snd ` set us"
    using map_iteration.names_perm [OF assms] by (metis mset_eq_setD set_map)
  with names_fold [of "[]" "names_order ord (map snd us)"] show ?thesis
    by (auto simp: userNamesFromUsers_def)
qed

theorem userNames_complete_witness:
  "distinct (userNamesFromUsers reverse_order (fst (parseUserRecords ex_sql)))
    \<and> set (userNamesFromUsers reverse_order (fst (parseUserRecords ex_sql)))
      = (\<Union>(n, u) \<in> set (fst (parseUserRecords ex_sql)). user_key u ` set (hosts u))"
  by (rule userNames_complete [OF last_in.map_iteration_axioms])

lemma differ_loop_iff: "first \<noteq> [] \<Longrightarrow> differ_loop first ps \<longleftrightarrow> (\<exists>p \<in> set ps. p \<noteq> first)"
  by (induction ps) auto

lemma two_values: "p \<in> S \<Longrightarrow> (\<exists>q \<in> S. q \<noteq> p) \<longleftrightarrow> (\<exists>x \<in> S. \<exists>y \<in> S. x \<noteq> y)"
  by metis

text \<open>
  The warning about differing passwords does not depend on the order of the map: it is
  given exactly where two hosts of the user have different hashes.
\<close>

theorem hasDifferentPasswords_iff:
  assumes "map_iteration ord" "user_inv u"
  shows "hasDifferentPasswords (pw_order ord (uname u)) u \<longleftrightarrow>
    (\<exists>p \<in> snd ` set (pwByHost u). \<exists>q \<in> snd ` set (pwByHost u). p \<noteq> q)"
proof -
  let ?ps = "map snd (pw_order ord (uname u) (pwByHost u))"
  have s: "set ?ps = snd ` set (pwByHost u)"
    using map_iteration.pw_perm [OF assms(1)] by (metis mset_eq_setD set_map)
  show ?thesis
  proof (cases ?ps)
    case Nil
    with s have "pwByHost u = []" by simp
    then show ?thesis by (simp add: hasDifferentPasswords_def)
  next
    case (Cons p ps)
    then have p: "p \<in> snd ` set (pwByHost u)" "p \<noteq> []" using s assms(2) by (auto simp: user_inv_def)
    have "differ_loop [] ?ps \<longleftrightarrow> (\<exists>q \<in> snd ` set (pwByHost u). q \<noteq> p)"
      using Cons p(2) s [symmetric] by (simp add: differ_loop_iff)
    moreover have "length (pwByHost u) \<le> 1 \<Longrightarrow> \<not> (\<exists>q \<in> snd ` set (pwByHost u). q \<noteq> p)"
      using p(1) by (cases "pwByHost u"; cases "tl (pwByHost u)") auto
    ultimately show ?thesis
      unfolding two_values [OF p(1), symmetric] hasDifferentPasswords_def by auto
  qed
qed

theorem hasDifferentPasswords_iff_witness:
  "hasDifferentPasswords (pw_order reverse_order ''u'')
     ((newUserRecord ''u'')\<lparr>hosts := [''h'', ''k''], hostSet := (\<lambda>x. x = ''h'' \<or> x = ''k''), password := ''x'',
        pwByHost := [(''h'', ''x''), (''k'', ''y'')]\<rparr>) \<longleftrightarrow>
   (\<exists>p \<in> snd ` set [(''h'', ''x''), (''k'', ''y'')]. \<exists>q \<in> snd ` set [(''h'', ''x''), (''k'', ''y'')]. p \<noteq> q)"
  using hasDifferentPasswords_iff [OF last_in.map_iteration_axioms,
      of "(newUserRecord ''u'')\<lparr>hosts := [''h'', ''k''], hostSet := (\<lambda>x. x = ''h'' \<or> x = ''k''), password := ''x'',
        pwByHost := [(''h'', ''x''), (''k'', ''y'')]\<rparr>"]
  by (simp add: user_inv_def newUserRecord_def)

subsection \<open>Exports the parser does not understand\<close>

text \<open>
  A grant whose database name is written with an escaped wildcard, as the server prints it, is
  stored under the escaped name and not under the name of the database.
\<close>

lemma escaped_wildcard_grant:
  "map_option (\<lambda>_. ()) (dbToSQL (ParseUserSQL insertion_order
     (''GRANT ALL ON '' @ [bquote] @ ''my'' @ [backslash] @ ''_db'' @ [bquote] @ ''.* TO u@h;'')) ''my_db'') = None"
  by code_simp

text \<open>A hash given by \<open>IDENTIFIED WITH ... AS\<close> is dropped: the user is created without a password.\<close>

lemma identified_with_dropped:
  "dbToSQL (ParseUserSQL insertion_order
     (''CREATE USER u@h IDENTIFIED WITH p AS '' @ [squote] @ ''x'' @ [squote] @ '';'' @ [NL] @ ''GRANT ALL ON d.* TO u@h;'')) ''d''
   = Some (''CREATE USER IF NOT EXISTS '' @ [squote] @ ''u'' @ [squote] @ ''@'' @ [squote] @ ''h'' @ [squote] @ '';'' @ [NL]
       @ ''GRANT ALL ON d.* TO u@h;'')"
  by code_simp

text \<open>A doubled quote in a quoted name cuts the name: \<open>o''b\<close> becomes \<open>b\<close>.\<close>

lemma doubled_quote_cuts_name:
  "userNames (ParseUserSQL insertion_order
     (''GRANT ALL ON d.* TO '' @ [squote] @ ''o'' @ [squote, squote] @ ''b'' @ [squote] @ ''@h;'')) = [''b@h'']"
  by code_simp

text \<open>The user \<open>root\<close> is taken like any other.\<close>

lemma root_not_skipped: "map_option (\<lambda>_. ()) (dbToSQL (ParseUserSQL insertion_order ''GRANT ALL ON d.* TO root@h;'') ''d'') = Some ()"
  by code_simp

end
