(* ===== verification/Mysql.thy ===== *)
theory Mysql
  imports Go_Exec User_SQL
begin

text \<open>
  \<open>internal/mysql/mysql.go\<close>: the calls of the command-line tools \<open>mysql\<close>, \<open>mysqldump\<close> and
  \<open>mysqlpump\<close>, on Unix. The tools are part of the outside world (\<open>extenv\<close>).
\<close>

record Conn =
  Host :: string
  Port :: int
  User :: string
  Password :: string
  BinDir :: string

definition binPath :: "Conn \<Rightarrow> string \<Rightarrow> string" where
  "binPath c name = (if TrimSpace (BinDir c) = [] then name else Join (BinDir c) name)"

definition baseArgs :: "Conn \<Rightarrow> string list" where
  "baseArgs c =
     (let args = [''-h'', Host c, ''-P'', Itoa (Port c), ''-u'', User c]
      in if Password c \<noteq> [] then args @ [''-p'' @ Password c] else args)"

definition Reachable :: "extenv \<Rightarrow> Conn \<Rightarrow> 'a sysworld_scheme \<Rightarrow> goerr option \<times> 'a sysworld_scheme" where
  "Reachable X c w =
     (case run_cmd X (binPath c ''mysql'') (baseArgs c @ [''-e'', ''SELECT 1'']) [] w of (r, w') \<Rightarrow>
        (if status r \<noteq> ExitOK then Some (Err ''err.mysql_reachable'' [combined r] (Some (ExitErr (status r))))
         else None, w'))"

definition IsMariaDB :: "extenv \<Rightarrow> Conn \<Rightarrow> 'a sysworld_scheme \<Rightarrow> (goerr, bool) result \<times> 'a sysworld_scheme" where
  "IsMariaDB X c w =
     (case run_cmd X (binPath c ''mysql'') (baseArgs c @ [''-e'', ''SELECT @@version'']) [] w of (r, w') \<Rightarrow>
        (if status r \<noteq> ExitOK then Inl (Err ''err.mysql_version'' [combined r] (Some (ExitErr (status r))))
         else Inr (Contains (ToLower (combined r)) ''mariadb''), w'))"

definition system_schemas :: "string list" where
  "system_schemas = [''information_schema'', ''performance_schema'', ''mysql'', ''sys'']"

fun db_lines :: "string list \<Rightarrow> string list" where
  "db_lines [] = []"
| "db_lines (l # ls) =
     (let line = TrimSpace l in
      if line = [] \<or> line = ''Database'' \<or> line \<in> set system_schemas then db_lines ls
      else line # db_lines ls)"

definition ListDatabases ::
  "extenv \<Rightarrow> Conn \<Rightarrow> 'a sysworld_scheme \<Rightarrow> (goerr, string list) result \<times> 'a sysworld_scheme"
where
  "ListDatabases X c w =
     (case run_cmd X (binPath c ''mysql'') (baseArgs c @ [''-e'', ''SHOW DATABASES'']) [] w of (r, w') \<Rightarrow>
        (if status r \<noteq> ExitOK then Inl (Err ''err.show_databases'' [combined r] (Some (ExitErr (status r))))
         else (case ScanLines MaxScanTokenSize (combined r) of (ls, tooLong) \<Rightarrow>
                 if tooLong then Inl TooLong else Inr (db_lines ls)), w'))"

text \<open>The statement the fallback writes for a line of \<open>mysql.user\<close>.\<close>

definition fallback_create :: "string \<Rightarrow> string \<Rightarrow> string \<Rightarrow> string \<Rightarrow> string" where
  "fallback_create userEsc hostEsc plugin auth =
     (if plugin \<noteq> [] \<and> plugin \<noteq> ''mysql_native_password'' then
        ''CREATE USER '' @ [squote] @ userEsc @ [squote] @ ''@'' @ [squote] @ hostEsc @ [squote] @ '' IDENTIFIED WITH ''
        @ plugin @ '' AS '' @ [squote] @ escapeSQL auth @ [squote] @ '';'' @ [NL]
      else if auth \<noteq> [] then
        ''CREATE USER '' @ [squote] @ userEsc @ [squote] @ ''@'' @ [squote] @ hostEsc @ [squote]
        @ '' IDENTIFIED BY PASSWORD '' @ [squote] @ escapeSQL auth @ [squote] @ '';'' @ [NL]
      else
        ''CREATE USER '' @ [squote] @ userEsc @ [squote] @ ''@'' @ [squote] @ hostEsc @ [squote] @ '';'' @ [NL])"

fun grant_lines :: "string list \<Rightarrow> string" where
  "grant_lines [] = []"
| "grant_lines (l # ls) =
     (let g = TrimSpace l in
      (if g \<noteq> [] then g @ (if \<not> HasSuffix g '';'' then '';'' else []) @ [NL] else []) @ grant_lines ls)"

fun user_rows ::
  "extenv \<Rightarrow> Conn \<Rightarrow> string list \<Rightarrow> 'a sysworld_scheme \<Rightarrow> string \<times> 'a sysworld_scheme"
where
  "user_rows X c [] w = ([], w)"
| "user_rows X c (line # ls) w =
     (let parts = SplitN line TAB 4 in
      if length parts < 4 then user_rows X c ls w
      else
        let userEsc = escapeSQL (parts ! 0);
            hostEsc = escapeSQL (parts ! 1);
            create = fallback_create userEsc hostEsc (TrimSpace (parts ! 2)) (parts ! 3);
            showQ = ''SHOW GRANTS FOR '' @ [squote] @ userEsc @ [squote] @ ''@'' @ [squote] @ hostEsc @ [squote]
        in (case run_cmd X (binPath c ''mysql'') (baseArgs c @ [''-N'', ''-e'', showQ]) [] w of (r, w1) \<Rightarrow>
              let grants = (if status r \<noteq> ExitOK then [] else grant_lines (fst (ScanLines MaxScanTokenSize (combined r))))
              in (case user_rows X c ls w1 of (rest, w2) \<Rightarrow> (create @ grants @ rest, w2))))"

definition user_query :: string where
  "user_query =
     ''SELECT user, host, plugin, COALESCE(authentication_string,'' @ [squote, squote]
     @ '') FROM mysql.user WHERE user != '' @ [squote, squote] @ '' AND user NOT IN ('' @ [squote] @ ''root'' @ [squote]
     @ '','' @ [squote] @ ''mysql.sys'' @ [squote] @ '','' @ [squote] @ ''mysql.session'' @ [squote]
     @ '','' @ [squote] @ ''mariadb.sys'' @ [squote] @ '')''"

definition exportUsersMariaDBFallback ::
  "extenv \<Rightarrow> Conn \<Rightarrow> 'a sysworld_scheme \<Rightarrow> (goerr, bytes) result \<times> 'a sysworld_scheme"
where
  "exportUsersMariaDBFallback X c w =
     (case run_cmd X (binPath c ''mysql'') (baseArgs c @ [''-N'', ''-e'', user_query]) [] w of (r, w1) \<Rightarrow>
        if status r \<noteq> ExitOK then (Inl (Err ''err.mysql_user_list'' [combined r] (Some (ExitErr (status r)))), w1)
        else (case ScanLines (512 * 1024) (combined r) of (ls, tooLong) \<Rightarrow>
                (case user_rows X c ls w1 of (buf, w2) \<Rightarrow>
                   if tooLong then (Inl (Err ''err.scan_user_list'' [] (Some TooLong)), w2) else (Inr buf, w2))))"

definition exportUsersMariaDB ::
  "extenv \<Rightarrow> Conn \<Rightarrow> 'a sysworld_scheme \<Rightarrow> (goerr, bytes) result \<times> 'a sysworld_scheme"
where
  "exportUsersMariaDB X c w =
     (case run_cmd X (binPath c ''mysqldump'') (baseArgs c @ [''--system=users'']) [] w of (r, w1) \<Rightarrow>
        if status r = ExitOK then (Inr (combined r), w1)
        else let errStr = ToLower (combined r) in
          if Contains errStr ''unknown'' \<or> Contains errStr ''unrecognized'' \<or> Contains errStr ''unknown variable''
             \<or> Contains errStr ''invalid''
          then exportUsersMariaDBFallback X c w1
          else (Inl (Err ''err.mysqldump_system_users'' [combined r] (Some (ExitErr (status r)))), w1))"

definition ExportUsers ::
  "extenv \<Rightarrow> Conn \<Rightarrow> bool \<Rightarrow> 'a sysworld_scheme \<Rightarrow> (goerr, bytes) result \<times> 'a sysworld_scheme"
where
  "ExportUsers X c isMariaDB w =
     (if isMariaDB then exportUsersMariaDB X c w
      else (case run_cmd X (binPath c ''mysqlpump'') (baseArgs c @ [''--exclude-databases=%'', ''--users'']) [] w of
              (r, w1) \<Rightarrow>
                (if status r \<noteq> ExitOK then Inl (Err ''err.mysqlpump_users'' [combined r] (Some (ExitErr (status r))))
                 else Inr (combined r), w1)))"

definition dump_args :: "Conn \<Rightarrow> string \<Rightarrow> bool \<Rightarrow> string list" where
  "dump_args c db isMariaDB =
     (let args = baseArgs c @ [''--single-transaction'', ''--routines'', ''--triggers'', ''--events''];
          args1 = (if \<not> isMariaDB then args @ [''--set-gtid-purged=OFF''] else args)
      in args1 @ [''--databases'', db])"

text \<open>
  \<open>DumpDatabase\<close>: the standard output of \<open>mysqldump\<close> goes to the writer \<open>dest\<close>, a function
  that returns whether the write failed, the new state of the writer and the new world. \<open>cmd.Run\<close> reports a failed
  process, and a failed copy of its output.
\<close>

definition DumpDatabase ::
  "extenv \<Rightarrow> Conn \<Rightarrow> string \<Rightarrow> bool \<Rightarrow> (bytes \<Rightarrow> 'a sysworld_scheme \<Rightarrow> oserr option \<times> 'h \<times> 'a sysworld_scheme)
     \<Rightarrow> 'a sysworld_scheme \<Rightarrow> goerr option \<times> 'h \<times> 'a sysworld_scheme"
where
  "DumpDatabase X c db isMariaDB dest w =
     (case run_cmd X (binPath c ''mysqldump'') (dump_args c db isMariaDB) [] w of (r, w1) \<Rightarrow>
        (case dest (stdout r) w1 of (e, h, w2) \<Rightarrow>
           (if status r \<noteq> ExitOK then Some (Err ''err.mysqldump_db'' [db, stderr r] (Some (ExitErr (status r))))
            else (case e of Some e' \<Rightarrow> Some (Err ''err.mysqldump_db'' [db, stderr r] (Some (OSErr e'))) | None \<Rightarrow> None),
            h, w2)))"

definition ImportSQL :: "extenv \<Rightarrow> Conn \<Rightarrow> bytes \<Rightarrow> 'a sysworld_scheme \<Rightarrow> goerr option \<times> 'a sysworld_scheme" where
  "ImportSQL X c src w =
     (case run_cmd X (binPath c ''mysql'') (baseArgs c) src w of (r, w1) \<Rightarrow>
        (if status r \<noteq> ExitOK then Some (Err ''err.mysql_import'' [stderr r] (Some (ExitErr (status r)))) else None, w1))"

definition MysqldumpPath :: string where
  "MysqldumpPath = ''mysqldump''"

end
