(* ===== verification/Go_Time.thy ===== *)
theory Go_Time
  imports Go_Strings
begin

text \<open>
  What the sources use of Go's \<open>time\<close> package on calendar days: \<open>time.Date\<close>, \<open>AddDate\<close>,
  \<open>Weekday\<close>, \<open>Before\<close>, and \<open>Format\<close> and \<open>ParseInLocation\<close> with the layout \<open>20060102\<close>.
  A \<open>time.Time\<close> that the sources build from a date is midnight of that day in the local
  zone; it is the civil date here. (Zones in which a local midnight does not exist are
  outside the model.) Dates are proleptic Gregorian, with \<open>int\<close> years, as in Go.
\<close>

datatype date = YMD (year: int) (month: int) (day: int)

instantiation date :: linorder
begin

definition less_eq_date :: "date \<Rightarrow> date \<Rightarrow> bool" where
  "less_eq_date s t \<longleftrightarrow>
     year s < year t \<or> year s = year t \<and>
       (month s < month t \<or> month s = month t \<and> day s \<le> day t)"

definition less_date :: "date \<Rightarrow> date \<Rightarrow> bool" where
  "less_date s t \<longleftrightarrow>
     year s < year t \<or> year s = year t \<and>
       (month s < month t \<or> month s = month t \<and> day s < day t)"

instance
  by standard (auto simp: less_eq_date_def less_date_def intro: date.expand)

end

subsection \<open>The calendar\<close>

definition is_leap :: "int \<Rightarrow> bool" where
  "is_leap y \<longleftrightarrow> y mod 4 = 0 \<and> (y mod 100 \<noteq> 0 \<or> y mod 400 = 0)"

definition days_in_month :: "int \<Rightarrow> int \<Rightarrow> int" where
  "days_in_month y m =
     (if m = 2 then (if is_leap y then 29 else 28)
      else if m = 4 \<or> m = 6 \<or> m = 9 \<or> m = 11 then 30 else 31)"

definition valid :: "date \<Rightarrow> bool" where
  "valid t \<longleftrightarrow> 1 \<le> month t \<and> month t \<le> 12 \<and> 1 \<le> day t \<and> day t \<le> days_in_month (year t) (month t)"

definition next_day :: "date \<Rightarrow> date" where
  "next_day t =
     (if day t < days_in_month (year t) (month t) then YMD (year t) (month t) (day t + 1)
      else if month t < 12 then YMD (year t) (month t + 1) 1
      else YMD (year t + 1) 1 1)"

definition prev_day :: "date \<Rightarrow> date" where
  "prev_day t =
     (if 1 < day t then YMD (year t) (month t) (day t - 1)
      else if 1 < month t then YMD (year t) (month t - 1) (days_in_month (year t) (month t - 1))
      else YMD (year t - 1) 12 31)"

fun days_later :: "nat \<Rightarrow> date \<Rightarrow> date" where
  "days_later 0 t = t"
| "days_later (Suc n) t = days_later n (next_day t)"

fun days_earlier :: "nat \<Rightarrow> date \<Rightarrow> date" where
  "days_earlier 0 t = t"
| "days_earlier (Suc n) t = days_earlier n (prev_day t)"

definition add_days :: "int \<Rightarrow> date \<Rightarrow> date" where
  "add_days n t = (if 0 \<le> n then days_later (nat n) t else days_earlier (nat (- n)) t)"

text \<open>
  \<open>time.Date(y, m, d, 0, 0, 0, 0, loc)\<close>: a month outside 1 to 12 carries into the year, a
  day outside the month carries into the months around it.
\<close>

definition time_Date :: "int \<Rightarrow> int \<Rightarrow> int \<Rightarrow> date" where
  "time_Date y m d = add_days (d - 1) (YMD (y + (m - 1) div 12) ((m - 1) mod 12 + 1) 1)"

text \<open>\<open>t.AddDate(years, months, days)\<close>.\<close>

definition AddDate :: "int \<Rightarrow> int \<Rightarrow> int \<Rightarrow> date \<Rightarrow> date" where
  "AddDate dy dm dd t = time_Date (year t + dy) (month t + dm) (day t + dd)"

text \<open>
  The number of a day: 1 is the 1st of January of the year 1, a Monday. \<open>Weekday\<close> counts
  from Sunday, which is 0.
\<close>

definition before_year :: "int \<Rightarrow> int" where
  "before_year y = 365 * (y - 1) + (y - 1) div 4 - (y - 1) div 100 + (y - 1) div 400"

definition before_month :: "int \<Rightarrow> int \<Rightarrow> int" where
  "before_month y m =
     (if m \<le> 1 then 0 else if m = 2 then 31
      else (if is_leap y then 1 else 0)
         + (if m = 3 then 59 else if m = 4 then 90 else if m = 5 then 120 else if m = 6 then 151
            else if m = 7 then 181 else if m = 8 then 212 else if m = 9 then 243
            else if m = 10 then 273 else if m = 11 then 304 else 334))"

definition day_number :: "date \<Rightarrow> int" where
  "day_number t = before_year (year t) + before_month (year t) (month t) + day t"

definition Weekday :: "date \<Rightarrow> int" where
  "Weekday t = day_number t mod 7"

definition Sunday :: int where
  "Sunday = 0"

subsection \<open>The layout 20060102\<close>

definition Format :: "date \<Rightarrow> string" where
  "Format t =
     (if year t < 0 then CHR ''-'' # pad_int 4 (- year t) else pad_int 4 (year t))
     @ pad_int 2 (month t) @ pad_int 2 (day t)"

definition ParseDate :: "string \<Rightarrow> date option" where
  "ParseDate s =
     (if length s = 8 \<and> list_all is_digit s
      then (let y = digits_val (take 4 s); m = digits_val (take 2 (drop 4 s)); d = digits_val (drop 6 s)
            in if 1 \<le> m \<and> m \<le> 12 \<and> 1 \<le> d \<and> d \<le> days_in_month y m then Some (YMD y m d) else None)
      else None)"

subsection \<open>Days are numbered consecutively\<close>

lemma month_cases:
  fixes m :: int
  assumes "1 \<le> m" "m \<le> 12"
  obtains "m = 1" | "m = 2" | "m = 3" | "m = 4" | "m = 5" | "m = 6"
    | "m = 7" | "m = 8" | "m = 9" | "m = 10" | "m = 11" | "m = 12"
proof -
  from assms have "m \<in> {1, 2, 3, 4, 5, 6, 7, 8, 9, 10, 11, 12}"
    by simp presburger
  with that show ?thesis by blast
qed

lemma div_pred:
  fixes y k :: int
  assumes "0 < k"
  shows "(y - 1) div k = y div k - (if y mod k = 0 then 1 else 0)"
proof (cases "y mod k = 0")
  case True
  then have "y - 1 = k * (y div k - 1) + (k - 1)"
    using mult_div_mod_eq [of k y] by (simp add: algebra_simps)
  then have "(y - 1) div k = y div k - 1"
    by (rule int_div_pos_eq) (use assms in auto)
  with True show ?thesis by simp
next
  case False
  with assms have r: "0 < y mod k" "y mod k < k"
    by (simp_all add: order.not_eq_order_implies_strict)
  have "y - 1 = k * (y div k) + (y mod k - 1)"
    using mult_div_mod_eq [of k y] by (simp add: algebra_simps)
  then have "(y - 1) div k = y div k"
    by (rule int_div_pos_eq) (use r in auto)
  with False show ?thesis by simp
qed

lemma before_year_Suc: "before_year (y + 1) = before_year y + (if is_leap y then 366 else 365)"
proof -
  have "y mod 400 = 0 \<Longrightarrow> y mod 100 = 0" "y mod 100 = 0 \<Longrightarrow> y mod 4 = 0"
    by (auto simp: mod_eq_0_iff_dvd elim: dvd_trans [rotated])
  then show ?thesis by (auto simp: before_year_def is_leap_def div_pred)
qed

lemma before_month_Suc:
  assumes "1 \<le> m" "m < 12"
  shows "before_month y (m + 1) = before_month y m + days_in_month y m"
proof -
  from assms have "m \<le> 12" by simp
  with assms(1) show ?thesis
    by (rule month_cases) (use assms(2) in \<open>simp_all add: before_month_def days_in_month_def\<close>)
qed

lemma days_in_month_bounds [simp]: "28 \<le> days_in_month y m" "days_in_month y m \<le> 31"
  by (simp_all add: days_in_month_def)

lemma days_in_month_pos [simp]: "1 \<le> days_in_month y m" "0 \<le> days_in_month y m"
  by (simp_all add: days_in_month_def)

lemma valid_next_day [simp, intro]: "valid t \<Longrightarrow> valid (next_day t)"
  by (auto simp: valid_def next_day_def)

lemma valid_prev_day [simp, intro]: "valid t \<Longrightarrow> valid (prev_day t)"
  by (auto simp: valid_def prev_day_def days_in_month_def)

lemma day_number_next_day [simp]:
  assumes "valid t" shows "day_number (next_day t) = day_number t + 1"
proof (cases "day t < days_in_month (year t) (month t)")
  case True
  then show ?thesis by (simp add: next_day_def day_number_def)
next
  case last: False
  with assms have d: "day t = days_in_month (year t) (month t)" by (simp add: valid_def)
  show ?thesis
  proof (cases "month t < 12")
    case True
    with assms last d before_month_Suc [of "month t" "year t"] show ?thesis
      by (simp add: next_day_def day_number_def valid_def)
  next
    case False
    with assms have "month t = 12" by (simp add: valid_def)
    with last d before_year_Suc [of "year t"] show ?thesis
      by (simp add: next_day_def day_number_def before_month_def days_in_month_def)
  qed
qed

lemma next_prev_day [simp]: "valid t \<Longrightarrow> next_day (prev_day t) = t"
  by (cases t) (auto simp: valid_def next_day_def prev_day_def days_in_month_def)

lemma day_number_prev_day [simp]:
  assumes "valid t" shows "day_number (prev_day t) = day_number t - 1"
  using day_number_next_day [OF valid_prev_day [OF assms]] assms by simp

lemma valid_days_later [simp]: "valid t \<Longrightarrow> valid (days_later n t)"
  by (induction n arbitrary: t) auto

lemma valid_days_earlier [simp]: "valid t \<Longrightarrow> valid (days_earlier n t)"
  by (induction n arbitrary: t) auto

lemma day_number_days_later: "valid t \<Longrightarrow> day_number (days_later n t) = day_number t + int n"
  by (induction n arbitrary: t) auto

lemma day_number_days_earlier: "valid t \<Longrightarrow> day_number (days_earlier n t) = day_number t - int n"
  by (induction n arbitrary: t) auto

lemma valid_add_days [simp, intro]: "valid t \<Longrightarrow> valid (add_days n t)"
  by (simp add: add_days_def)

lemma day_number_add_days [simp]: "valid t \<Longrightarrow> day_number (add_days n t) = day_number t + n"
  by (simp add: add_days_def day_number_days_later day_number_days_earlier)

lemma valid_first [simp]: "valid (YMD y m 1) \<longleftrightarrow> 1 \<le> m \<and> m \<le> 12"
  by (simp add: valid_def)

subsection \<open>The order of dates is the order of their numbers\<close>

lemma before_year_mono: "y < z \<Longrightarrow> before_year y + (if is_leap y then 366 else 365) \<le> before_year z"
proof (induction "nat (z - y - 1)" arbitrary: z)
  case 0
  then have "z = y + 1" by simp
  then show ?case by (simp add: before_year_Suc)
next
  case (Suc n)
  then have "before_year y + (if is_leap y then 366 else 365) \<le> before_year (z - 1)" by simp
  also have "\<dots> \<le> before_year z" using before_year_Suc [of "z - 1"] by simp
  finally show ?case .
qed

lemma before_month_mono:
  assumes "1 \<le> m" "m < k" "k \<le> 12"
  shows "before_month y m + days_in_month y m \<le> before_month y k"
  using assms
proof (induction "nat (k - m - 1)" arbitrary: k)
  case 0
  then have "k = m + 1" by simp
  with 0 show ?case by (simp add: before_month_Suc)
next
  case (Suc n)
  then have "before_month y m + days_in_month y m \<le> before_month y (k - 1)" by simp
  also have "\<dots> \<le> before_month y k" using before_month_Suc [of "k - 1" y] Suc by simp
  finally show ?case .
qed

lemma before_month_year:
  assumes "1 \<le> m" "m \<le> 12"
  shows "before_month y m + days_in_month y m \<le> (if is_leap y then 366 else 365)"
  using assms by (rule month_cases) (simp_all add: before_month_def days_in_month_def)

lemma before_month_nonneg: "0 \<le> before_month y m"
  by (simp add: before_month_def)

lemma day_number_less:
  assumes s: "valid s" and t: "valid t" and less: "s < t"
  shows "day_number s < day_number t"
proof -
  from s have m: "1 \<le> month s" "month s \<le> 12" and d: "day s \<le> days_in_month (year s) (month s)"
    by (simp_all add: valid_def)
  from less consider "year s < year t" | "year s = year t" "month s < month t"
    | "year s = year t" "month s = month t" "day s < day t"
    by (auto simp: less_date_def)
  then show ?thesis
  proof cases
    case 1
    with before_year_mono [OF 1] before_month_year [OF m, of "year s"] d t
      before_month_nonneg [of "year t" "month t"] show ?thesis
      by (simp add: day_number_def valid_def)
  next
    case 2
    with before_month_mono [OF m(1) 2(2), of "year s"] d t show ?thesis
      by (simp add: day_number_def valid_def)
  next
    case 3
    then show ?thesis by (simp add: day_number_def)
  qed
qed

lemma less_day_number:
  "valid s \<Longrightarrow> valid t \<Longrightarrow> s < t \<longleftrightarrow> day_number s < day_number t"
  by (metis day_number_less less_asym less_irrefl linorder_less_linear)

lemma le_day_number:
  "valid s \<Longrightarrow> valid t \<Longrightarrow> s \<le> t \<longleftrightarrow> day_number s \<le> day_number t"
  by (meson less_day_number not_less)

lemma day_number_inj: "valid s \<Longrightarrow> valid t \<Longrightarrow> day_number s = day_number t \<Longrightarrow> s = t"
  by (metis day_number_less less_irrefl linorder_neqE)

lemma day_number_eq_iff: "valid s \<Longrightarrow> valid t \<Longrightarrow> day_number s = day_number t \<longleftrightarrow> s = t"
  by (blast intro: day_number_inj)

lemma add_days_0 [simp]: "add_days 0 t = t"
  by (simp add: add_days_def)

lemma add_days_add_days: "valid t \<Longrightarrow> add_days m (add_days n t) = add_days (n + m) t"
  by (rule day_number_inj) auto

lemma valid_time_Date [simp, intro]: "valid (time_Date y m d)"
  by (simp add: time_Date_def)

lemma valid_AddDate [simp, intro]: "valid (AddDate dy dm dd t)"
  by (simp add: AddDate_def)

lemma day_number_first: "day_number t = day_number (YMD (year t) (month t) 1) + day t - 1"
  by (simp add: day_number_def)

text \<open>Adding days only is moving along the day numbers.\<close>

lemma AddDate_days: "valid t \<Longrightarrow> AddDate 0 0 n t = add_days n t"
proof (rule day_number_inj)
  assume "valid t"
  then have "1 \<le> month t" "month t \<le> 12" by (simp_all add: valid_def)
  then have "month t - 1 < 12" "0 \<le> month t - 1" by simp_all
  then have m: "(month t - 1) div 12 = 0" "(month t - 1) mod 12 + 1 = month t" by simp_all
  from \<open>valid t\<close> have "valid (YMD (year t) (month t) 1)" by (simp add: valid_def)
  with \<open>valid t\<close> m show "day_number (AddDate 0 0 n t) = day_number (add_days n t)"
    by (simp add: AddDate_def time_Date_def day_number_first [of t])
qed auto

text \<open>A date that is valid is not changed by \<open>time.Date\<close>.\<close>

lemma time_Date_valid: "valid (YMD y m d) \<Longrightarrow> time_Date y m d = YMD y m d"
  using AddDate_days [of "YMD y m d" 0] by (simp add: AddDate_def)

lemma Weekday_range: "0 \<le> Weekday t" "Weekday t < 7"
  by (simp_all add: Weekday_def)

lemma Weekday_add_days: "valid t \<Longrightarrow> Weekday (add_days n t) = (Weekday t + n) mod 7"
  by (simp add: Weekday_def mod_add_left_eq)

subsection \<open>Formatting and parsing\<close>

lemma valid_bounds:
  assumes "valid t" shows "1 \<le> month t" "month t \<le> 12" "1 \<le> day t" "day t \<le> 31"
  using assms days_in_month_bounds(2) [of "year t" "month t"] unfolding valid_def by linarith+

lemma Format_dec_digits:
  assumes "valid t" "0 \<le> year t" "year t \<le> 9999"
  shows "Format t = dec_digits 4 (year t) @ dec_digits 2 (month t) @ dec_digits 2 (day t)"
proof -
  from valid_bounds [OF assms(1)] have "0 \<le> month t" "month t < 10 ^ 2" "0 \<le> day t" "day t < 10 ^ 2"
    by simp_all
  with assms(2,3) show ?thesis by (simp add: Format_def pad_int_dec_digits)
qed

lemma Format_digits:
  assumes "valid t" "0 \<le> year t" "year t \<le> 9999"
  shows "length (Format t) = 8" "list_all is_digit (Format t)"
  by (simp_all add: Format_dec_digits [OF assms])

lemma ParseDate_Format:
  assumes "valid t" "0 \<le> year t" "year t \<le> 9999"
  shows "ParseDate (Format t) = Some t"
proof -
  from valid_bounds [OF assms(1)] have "0 \<le> month t" "month t < 100" "0 \<le> day t" "day t < 100"
    by simp_all
  with assms show ?thesis
    by (simp add: ParseDate_def Format_dec_digits digits_val_dec_digits valid_def)
qed

lemma ParseDate_Some:
  assumes "ParseDate s = Some t"
  shows "valid t" "0 \<le> year t" "year t \<le> 9999" "Format t = s"
proof -
  from assms have s: "length s = 8" "list_all is_digit s"
    by (simp_all add: ParseDate_def split: if_splits)
  from assms have "t = YMD (digits_val (take 4 s)) (digits_val (take 2 (drop 4 s))) (digits_val (drop 6 s))
      \<and> valid t"
    unfolding ParseDate_def Let_def valid_def by (cases t) (simp split: if_splits)
  then have t: "t = YMD (digits_val (take 4 s)) (digits_val (take 2 (drop 4 s))) (digits_val (drop 6 s))"
    and v: "valid t" by blast+
  have "take 4 s @ take 2 (drop 4 s) @ drop 2 (drop 4 s) = s"
    by (simp only: append_take_drop_id)
  then have split: "take 4 s @ take 2 (drop 4 s) @ drop 6 s = s" by simp
  from s(2) have d: "list_all is_digit (take 4 s)" "list_all is_digit (take 2 (drop 4 s))"
    "list_all is_digit (drop 6 s)"
    by (auto simp: list_all_iff dest!: in_set_takeD in_set_dropD)
  show "valid t" by (fact v)
  show y: "0 \<le> year t" "year t \<le> 9999"
    using digits_val_bounds [OF d(1)] s(1) by (simp_all add: t)
  have "dec_digits 4 (year t) = take 4 s"
    using dec_digits_digits_val [OF d(1)] s(1) by (simp add: t)
  moreover have "dec_digits 2 (month t) = take 2 (drop 4 s)"
    using dec_digits_digits_val [OF d(2)] s(1) by (simp add: t)
  moreover have "dec_digits 2 (day t) = drop 6 s"
    using dec_digits_digits_val [OF d(3)] s(1) by (simp add: t)
  ultimately show "Format t = s"
    by (simp only: Format_dec_digits [OF v y] split)
qed

lemma Format_inj:
  assumes "valid s" "0 \<le> year s" "year s \<le> 9999"
    and "valid t" "0 \<le> year t" "year t \<le> 9999" and "Format s = Format t"
  shows "s = t"
proof -
  have "Some s = ParseDate (Format t)"
    using ParseDate_Format [OF assms(1-3)] by (simp only: assms(7))
  also have "\<dots> = Some t" by (rule ParseDate_Format [OF assms(4-6)])
  finally show ?thesis by simp
qed

lemma Format_eq_iff:
  assumes s: "valid s" "0 \<le> year s" and t: "valid t" "0 \<le> year t" "year t \<le> 9999"
  shows "Format s = Format t \<longleftrightarrow> s = t"
proof (cases "year s \<le> 9999")
  case True
  with s t show ?thesis by (auto intro: Format_inj)
next
  case False
  have "4 < dec_len (year s)" by (rule dec_len_gt) (use False in simp)
  moreover have "2 \<le> length (pad_int 2 n)" for n by (simp add: length_pad_int)
  ultimately have "8 < length (Format s)"
    using s(2) by (simp add: Format_def length_pad_int add_strict_increasing add_mono)
  with Format_digits(1) [OF t] False t show ?thesis by auto
qed

lemma add_days_le: "valid t \<Longrightarrow> 0 \<le> n \<Longrightarrow> t \<le> add_days n t"
  by (simp add: le_day_number)

lemma year_mono: "s \<le> t \<Longrightarrow> year s \<le> year t"
  by (auto simp: less_eq_date_def)

end
