(* ===== verification/I18n.thy ===== *)
theory I18n
  imports Go_Strings
begin

text \<open>
  \<open>internal/i18n/i18n.go\<close>: the language of the messages and the lookup of a message.
  The embedded catalogues and \<open>json.Unmarshal\<close> are parameters: \<open>embedFS\<close> gives the bytes of
  a catalogue file, \<open>Unmarshal\<close> the map it holds (\<^const>\<open>None\<close> where it leaves the map nil).
\<close>

definition LangEN :: string where
  "LangEN = ''en''"

record i18n =
  lang :: string
  messages :: "(string \<rightharpoonup> string) option"

definition lang_of_value :: "string \<Rightarrow> string option" where
  "lang_of_value v =
     (let part = ToLower (TrimSpace (takeWhile (\<lambda>c. c \<notin> set ''._@'') v)) in
      if part \<in> {''de'', ''en'', ''fr'', ''nl''} then Some part
      else if part \<in> {''en_gb'', ''en_us'', ''en_au''} then Some LangEN
      else None)"

fun first_lang :: "(string \<Rightarrow> string) \<Rightarrow> string list \<Rightarrow> string" where
  "first_lang env [] = LangEN"
| "first_lang env (e # es) =
     (let v = env e in
      if v = [] then first_lang env es
      else (case lang_of_value v of Some l \<Rightarrow> l | None \<Rightarrow> first_lang env es))"

definition detectLang :: "(string \<Rightarrow> string) \<Rightarrow> string" where
  "detectLang env = first_lang env [''LC_ALL'', ''LANG'', ''LANGUAGE'']"

definition catalogue :: "string \<Rightarrow> string" where
  "catalogue l = ''translations/'' @ l @ ''.json''"

definition loadLang ::
  "(string \<Rightarrow> bytes option) \<Rightarrow> (bytes \<Rightarrow> (string \<rightharpoonup> string) option) \<Rightarrow> string \<Rightarrow> i18n"
where
  "loadLang embedFS Unmarshal l =
     (let (data, l') =
        (case embedFS (catalogue l) of
           Some d \<Rightarrow> (Some d, l)
         | None \<Rightarrow>
             if l \<noteq> LangEN then
               (case embedFS (catalogue LangEN) of Some d \<Rightarrow> (Some d, LangEN) | None \<Rightarrow> (None, l))
             else (None, l))
      in \<lparr>lang = l', messages = Some
            (case data of None \<Rightarrow> Map.empty
             | Some d \<Rightarrow> (case Unmarshal d of None \<Rightarrow> Map.empty | Some m \<Rightarrow> m))\<rparr>)"

definition T :: "i18n \<Rightarrow> string \<Rightarrow> string" where
  "T i key =
     (case messages i of
        None \<Rightarrow> key
      | Some m \<Rightarrow> (case m key of Some s \<Rightarrow> if s \<noteq> [] then s else key | None \<Rightarrow> key))"

text \<open>\<open>init\<close>, \<open>Lang\<close>, and \<open>Tf\<close> with \<open>fmt.Sprintf\<close> as a parameter.\<close>

definition init_i18n ::
  "(string \<Rightarrow> string) \<Rightarrow> (string \<Rightarrow> bytes option) \<Rightarrow> (bytes \<Rightarrow> (string \<rightharpoonup> string) option) \<Rightarrow> i18n"
where
  "init_i18n env embedFS Unmarshal = loadLang embedFS Unmarshal (detectLang env)"

definition Lang :: "i18n \<Rightarrow> string" where
  "Lang i = lang i"

definition Tf :: "(string \<Rightarrow> 'a list \<Rightarrow> string) \<Rightarrow> i18n \<Rightarrow> string \<Rightarrow> 'a list \<Rightarrow> string" where
  "Tf Sprintf i key a = Sprintf (T i key) a"

lemma T_not_empty: "key \<noteq> [] \<Longrightarrow> T i key \<noteq> []"
  by (simp add: T_def split: option.splits)

lemma first_lang_supported: "first_lang env es \<in> {''de'', ''en'', ''fr'', ''nl''}"
  by (induction es) (auto simp: Let_def LangEN_def lang_of_value_def split: option.splits if_splits)

text \<open>Whatever the environment and the catalogues hold, the language is a supported one.\<close>

lemma Lang_supported: "Lang (init_i18n env embedFS Unmarshal) \<in> {''de'', ''en'', ''fr'', ''nl''}"
proof -
  have "lang (loadLang embedFS Unmarshal l) = l \<or> lang (loadLang embedFS Unmarshal l) = LangEN" for l
    by (simp add: loadLang_def split: option.split)
  then show ?thesis using first_lang_supported unfolding Lang_def init_i18n_def detectLang_def by (metis LangEN_def insertI1 insertI2)
qed

end
