(* ===== verification/Retention.thy ===== *)
theory Retention
  imports Go_Regexp Go_Time Go_OS I18n
begin

text \<open>
  \<open>internal/retention/retention.go\<close>: finding the backups in a directory, choosing the
  backups to restore from, and deleting the backups outside the retention windows.

  \<open>sort.Slice\<close> is not stable, so which of two backups of one day comes first is not
  determined by the source. The functions take the sorting routine as an argument; the
  locale \<open>slice_sort\<close> states what the documentation of \<open>sort.Slice\<close> promises.
\<close>

subsection \<open>Classification\<close>

definition isLastDayOfMonth :: "date \<Rightarrow> bool" where
  "isLastDayOfMonth t \<longleftrightarrow> month (AddDate 0 0 1 t) \<noteq> month t"

definition Classify :: "i18n \<Rightarrow> date \<Rightarrow> string" where
  "Classify i t =
     (if month t = 12 \<and> day t = 31 then T i ''retention.yearly''
      else if isLastDayOfMonth t then T i ''retention.monthly''
      else if Weekday t = Sunday then T i ''retention.weekly''
      else T i ''retention.daily'')"

subsection \<open>Finding backups\<close>

definition backupPrefix :: string where
  "backupPrefix = ''mysql_backup_''"

definition dateInFilename :: re where
  "dateInFilename = Cat (Lit ''mysql_backup_'') (Cat (Grp 1 (RepN 8 Digit)) (Chr (CHR ''_'')))"

definition datePrefixRe :: re where
  "datePrefixRe = Cat Bol (Cat (Lit ''mysql_backup_'') (Cat (RepN 8 Digit) (Chr (CHR ''_''))))"

record BackupFile =
  Path :: string
  Date :: date
  ModTime :: int
  Size :: int

text \<open>The zero \<open>time.Time\<close>, the 1st of January of the year 1, as Unix seconds.\<close>

definition zeroTime :: int where
  "zeroTime = -62135596800"

text \<open>The part of the loop body of \<open>ListBackups\<close> that looks at the name.\<close>

definition backup_name_date :: "string \<Rightarrow> date option" where
  "backup_name_date name =
     (if length name < length backupPrefix + 8 + 2 \<or> \<not> MatchString datePrefixRe name \<or> Ext name \<noteq> ''.zip''
      then None
      else (case FindStringSubmatch dateInFilename name of
              None \<Rightarrow> None
            | Some matches \<Rightarrow> ParseDate (sub matches 1)))"

definition backup_file :: "faults \<Rightarrow> fs \<Rightarrow> string \<Rightarrow> date \<Rightarrow> BackupFile" where
  "backup_file F f fullPath t =
     (case Stat F f fullPath of
        Inr (File c m) \<Rightarrow> \<lparr>Path = fullPath, Date = t, ModTime = m, Size = int (length c)\<rparr>
      | _ \<Rightarrow> \<lparr>Path = fullPath, Date = t, ModTime = zeroTime, Size = 0\<rparr>)"

fun list_loop :: "faults \<Rightarrow> fs \<Rightarrow> string \<Rightarrow> (string \<times> node) list \<Rightarrow> BackupFile list" where
  "list_loop F f dir [] = []"
| "list_loop F f dir ((name, n) # es) =
     (if n = Directory then list_loop F f dir es
      else (case backup_name_date name of
              None \<Rightarrow> list_loop F f dir es
            | Some t \<Rightarrow> backup_file F f (Join dir name) t # list_loop F f dir es))"

definition ListBackups ::
  "(BackupFile list \<Rightarrow> BackupFile list) \<Rightarrow> faults \<Rightarrow> fs \<Rightarrow> string \<Rightarrow> (oserr, BackupFile list) result"
where
  "ListBackups sort_Slice F f dir =
     (let d = FromSlash dir in
      case ReadDir F f d of
        Inl ErrNotExist \<Rightarrow> Inr []
      | Inl e \<Rightarrow> Inl e
      | Inr es \<Rightarrow> Inr (sort_Slice (list_loop F f d es)))"

definition dateKey :: "date \<Rightarrow> string" where
  "dateKey t = Format t"

text \<open>The backward loop of \<open>LastBackupBefore\<close>: the last file dated before \<open>b\<close>.\<close>

fun last_before :: "BackupFile list \<Rightarrow> date \<Rightarrow> date option" where
  "last_before [] b = None"
| "last_before (f # rest) b = (if Date f < b then Some (Date f) else last_before rest b)"

definition LastBackupBefore ::
  "(BackupFile list \<Rightarrow> BackupFile list) \<Rightarrow> faults \<Rightarrow> fs \<Rightarrow> string \<Rightarrow> date option
     \<Rightarrow> (oserr, BackupFile list) result"
where
  "LastBackupBefore sort_Slice F f dir beforeDate =
     (case ListBackups sort_Slice F f dir of
        Inl e \<Rightarrow> Inl e
      | Inr fls \<Rightarrow>
          if fls = [] then Inr []
          else (case (case beforeDate of
                        None \<Rightarrow> Some (Date (last fls))
                      | Some b \<Rightarrow> last_before (rev fls) b) of
                  None \<Rightarrow> Inr []
                | Some target \<Rightarrow> Inr (filter (\<lambda>g. dateKey (Date g) = dateKey target) fls)))"

subsection \<open>Retention windows\<close>

text \<open>The loop that looks for the last Sunday up to today.\<close>

function last_Sunday :: "date \<Rightarrow> date" where
  "last_Sunday t = (if Weekday t \<noteq> Sunday then last_Sunday (AddDate 0 0 (-1) t) else t)"
  by pat_completeness auto
termination
proof (relation "measure (\<lambda>t. if valid t then nat (Weekday t) else 7)")
  fix t assume w: "Weekday t \<noteq> Sunday"
  show "(AddDate 0 0 (-1) t, t) \<in> measure (\<lambda>t. if valid t then nat (Weekday t) else 7)"
  proof (cases "valid t")
    case True
    with w Weekday_range [of t] have "1 \<le> Weekday t" "Weekday t < 7" by (auto simp: Sunday_def)
    then have "(Weekday t - 1) mod 7 = Weekday t - 1" by simp
    with True \<open>1 \<le> Weekday t\<close> show ?thesis
      using Weekday_add_days [OF True, of "-1"] by (simp add: AddDate_days)
  next
    case False
    then show ?thesis using Weekday_range [of "AddDate 0 0 (-1) t"] by simp
  qed
qed simp

declare last_Sunday.simps [simp del]

text \<open>The three loops that collect the dates to keep; \<open>n\<close> counts the rounds left.\<close>

fun weekly_loop :: "date \<Rightarrow> int \<Rightarrow> nat \<Rightarrow> string list" where
  "weekly_loop lastSunday i 0 = []"
| "weekly_loop lastSunday i (Suc n) =
     (let sunday = AddDate 0 0 (7 * i) lastSunday in
      dateKey sunday # (if year sunday < 2000 then [] else weekly_loop lastSunday (i + 1) n))"

definition month_end :: "date \<Rightarrow> date" where
  "month_end m =
     (let firstOfNextMonth = AddDate 0 1 0 (time_Date (year m) (month m) 1) in
      AddDate 0 0 (-1) firstOfNextMonth)"

fun monthly_loop :: "date \<Rightarrow> nat \<Rightarrow> string list" where
  "monthly_loop m 0 = []"
| "monthly_loop m (Suc n) =
     dateKey (month_end m) #
       (if year (month_end m) < 2000 then [] else monthly_loop (AddDate 0 (-1) 0 m) n)"

fun yearly_loop :: "int \<Rightarrow> nat \<Rightarrow> string list" where
  "yearly_loop y 0 = []"
| "yearly_loop y (Suc n) =
     (if 2000 \<le> y then dateKey (time_Date y 12 31) # yearly_loop (y - 1) n else [])"

record windows =
  dailyCutoff :: date
  keepSundays :: "string list"
  keepMonthEnds :: "string list"
  keepYearEnds :: "string list"

definition retention_windows :: "date \<Rightarrow> int \<Rightarrow> int \<Rightarrow> int \<Rightarrow> int \<Rightarrow> windows" where
  "retention_windows today retainDaily retainWeekly retainMonthly retainYearly =
     \<lparr>dailyCutoff = AddDate 0 0 (- retainDaily) today,
      keepSundays = weekly_loop (last_Sunday today) 0 (nat retainWeekly),
      keepMonthEnds = monthly_loop today (nat retainMonthly),
      keepYearEnds = yearly_loop (year today) (nat retainYearly)\<rparr>"

definition keep :: "windows \<Rightarrow> date \<Rightarrow> bool" where
  "keep ws t \<longleftrightarrow>
     (let key = dateKey t in
      \<not> t < dailyCutoff ws \<or> key \<in> set (keepSundays ws) \<or> key \<in> set (keepMonthEnds ws)
      \<or> key \<in> set (keepYearEnds ws))"

fun delete_loop :: "i18n \<Rightarrow> faults \<Rightarrow> windows \<Rightarrow> BackupFile list \<Rightarrow> 'a world_scheme \<Rightarrow> 'a world_scheme" where
  "delete_loop i F ws [] w = w"
| "delete_loop i F ws (g # gs) w =
     (if keep ws (Date g) then delete_loop i F ws gs w
      else (case Remove F (files w) (Path g) of
              Inl e \<Rightarrow> delete_loop i F ws gs (log_msg WARN ''log.warn.retention_delete'' [Path g] w)
            | Inr f' \<Rightarrow>
                delete_loop i F ws gs
                  (log_msg INFO ''log.msg.deleted_old_backup'' [Classify i (Date g), Base (Path g)]
                    (w\<lparr>files := f'\<rparr>))))"

text \<open>\<open>today\<close> is the local date of \<open>time.Now()\<close>.\<close>

definition Apply ::
  "i18n \<Rightarrow> (BackupFile list \<Rightarrow> BackupFile list) \<Rightarrow> faults \<Rightarrow> date \<Rightarrow> string \<Rightarrow> int \<Rightarrow> int \<Rightarrow> int \<Rightarrow> int
     \<Rightarrow> 'a world_scheme \<Rightarrow> oserr option \<times> 'a world_scheme"
where
  "Apply i sort_Slice F today dir retainDaily retainWeekly retainMonthly retainYearly w =
     (case ListBackups sort_Slice F (files w) dir of
        Inl e \<Rightarrow> (Some e, w)
      | Inr fls \<Rightarrow>
          if fls = [] then (None, w)
          else (None, delete_loop i F
                        (retention_windows today retainDaily retainWeekly retainMonthly retainYearly) fls w))"

datatype dirs_error = RetentionLocal oserr | RetentionRemote oserr

definition ApplyToDirs ::
  "i18n \<Rightarrow> (BackupFile list \<Rightarrow> BackupFile list) \<Rightarrow> faults \<Rightarrow> date \<Rightarrow> string \<Rightarrow> string \<Rightarrow> int \<Rightarrow> int \<Rightarrow> int \<Rightarrow> int
     \<Rightarrow> 'a world_scheme \<Rightarrow> dirs_error option \<times> 'a world_scheme"
where
  "ApplyToDirs i sort_Slice F today backupDir remoteBackupDir rd rw rm ry w =
     (case Apply i sort_Slice F today backupDir rd rw rm ry w of
        (Some e, w1) \<Rightarrow> (Some (RetentionLocal e), w1)
      | (None, w1) \<Rightarrow>
          if remoteBackupDir \<noteq> [] then
            (case Apply i sort_Slice F today remoteBackupDir rd rw rm ry w1 of
               (Some e, w2) \<Rightarrow> (Some (RetentionRemote e), w2)
             | (None, w2) \<Rightarrow> (None, w2))
          else (None, w1))"

subsection \<open>The names of backups\<close>

lemma is_ascii_backupPrefix [simp]: "is_ascii ''mysql_backup_''"
  by (simp add: is_ascii_def)

lemma date_ends:
  assumes "is_ascii l"
  shows "ends (Cat (Lit l) (Cat (RepN 8 Digit) (Chr (CHR ''_'')))) (0, s, []) \<noteq> [] \<longleftrightarrow>
     (\<exists>ds r. s = l @ ds @ CHR ''_'' # r \<and> length ds = 8 \<and> list_all is_digit ds)"
  (is "?E \<noteq> [] \<longleftrightarrow> ?R")
proof
  assume E: "?E \<noteq> []"
  then obtain r where r: "s = l @ r"
    by (auto simp: ends_Lit [OF assms] HasPrefix_iff split: if_splits)
  with E have *: "8 \<le> length r" "list_all is_digit (take 8 r)"
    by (auto simp: ends_Lit [OF assms] ends_RepN_Digit split: if_splits)
  with E r obtain q where "drop 8 r = CHR ''_'' # q"
    by (auto simp: ends_Lit [OF assms] ends_RepN_Digit ends_Chr split: if_splits list.splits)
  then have "r = take 8 r @ CHR ''_'' # q" by (metis append_take_drop_id)
  with * r show ?R by (intro exI [of _ "take 8 r"] exI [of _ q]) simp
next
  assume ?R
  then show "?E \<noteq> []"
    by (auto simp: ends_Lit [OF assms] ends_RepN_Digit ends_Chr)
qed

lemma date_submatch:
  assumes "is_ascii l" "length ds = 8" "list_all is_digit ds"
  shows "\<exists>m. FindStringSubmatch (Cat (Lit l) (Cat (Grp 1 (RepN 8 Digit)) (Chr (CHR ''_''))))
               (l @ ds @ CHR ''_'' # r) = Some m \<and> sub m 1 = ds"
proof -
  have "ends (Cat (Lit l) (Cat (Grp 1 (RepN 8 Digit)) (Chr (CHR ''_''))))
          (0, l @ ds @ CHR ''_'' # r, []) = [(length l + 8 + 1, r, [(1, ds)])]"
    using assms by (simp add: ends_Lit ends_RepN_Digit ends_Chr)
  from FindStringSubmatch_start [OF this] show ?thesis by (simp add: sub_def)
qed

lemma Ext_zip_iff: "Ext p = ''.zip'' \<longleftrightarrow> HasSuffix p ''.zip''"
  using Ext_suffix [of p] by (auto simp: HasSuffix_iff)

lemma zip_suffix_rest:
  assumes "HasSuffix (u @ CHR ''_'' # r) ''.zip''" obtains mid where "r = mid @ ''.zip''"
proof -
  from assms obtain q where "u @ CHR ''_'' # r = q @ ''.zip''" by (auto simp: HasSuffix_iff)
  then have "\<exists>mid. r = mid @ ''.zip''"
    by (cases r rule: rev_cases; simp; cases "butlast r" rule: rev_cases; simp)
      (auto simp: append_eq_append_conv2 append_eq_Cons_conv Cons_eq_append_conv)
  with that show ?thesis by blast
qed

lemma datePrefixRe_iff:
  "MatchString datePrefixRe s \<longleftrightarrow>
     (\<exists>ds r. s = backupPrefix @ ds @ CHR ''_'' # r \<and> length ds = 8 \<and> list_all is_digit ds)"
  unfolding datePrefixRe_def MatchString_Bol backupPrefix_def
  by (rule date_ends [OF is_ascii_backupPrefix])

lemma backup_name_date_iff:
  "backup_name_date name = Some t \<longleftrightarrow>
     valid t \<and> 0 \<le> year t \<and> year t \<le> 9999 \<and> (\<exists>mid. name = backupPrefix @ Format t @ ''_'' @ mid @ ''.zip'')"
proof
  assume "backup_name_date name = Some t"
  then obtain m where name: "MatchString datePrefixRe name" "Ext name = ''.zip''"
    "FindStringSubmatch dateInFilename name = Some m" "ParseDate (sub m 1) = Some t"
    by (auto simp: backup_name_date_def split: if_splits option.splits)
  from name(1) obtain ds r where r: "name = backupPrefix @ ds @ CHR ''_'' # r" and ds: "length ds = 8" "list_all is_digit ds"
    by (auto simp: datePrefixRe_iff)
  with name(3,4) date_submatch [OF is_ascii_backupPrefix ds, of r] have "ParseDate ds = Some t"
    by (auto simp: dateInFilename_def backupPrefix_def)
  note t = ParseDate_Some [OF this]
  have "HasSuffix ((backupPrefix @ ds) @ CHR ''_'' # r) ''.zip''" using name(2) r by (simp add: Ext_zip_iff)
  then obtain mid where "r = mid @ ''.zip''" by (rule zip_suffix_rest)
  with r t show "valid t \<and> 0 \<le> year t \<and> year t \<le> 9999 \<and> (\<exists>mid. name = backupPrefix @ Format t @ ''_'' @ mid @ ''.zip'')"
    by auto
next
  assume *: "valid t \<and> 0 \<le> year t \<and> year t \<le> 9999 \<and> (\<exists>mid. name = backupPrefix @ Format t @ ''_'' @ mid @ ''.zip'')"
  then have t: "valid t" "0 \<le> year t" "year t \<le> 9999" by blast+
  from * obtain mid where n: "name = backupPrefix @ Format t @ CHR ''_'' # mid @ ''.zip''" by auto
  note ds = Format_digits [OF t]
  have "MatchString datePrefixRe name"
    using ds n by (auto simp: datePrefixRe_iff)
  moreover have "Ext name = ''.zip''" using Ext_zip [of "backupPrefix @ Format t @ CHR ''_'' # mid"] n by simp
  moreover have "\<not> length name < length backupPrefix + 8 + 2" using n ds(1) by simp
  moreover obtain m where "FindStringSubmatch dateInFilename name = Some m" "sub m 1 = Format t"
    using date_submatch [OF is_ascii_backupPrefix ds, of "mid @ ''.zip''"] n
    by (auto simp: dateInFilename_def backupPrefix_def)
  ultimately show "backup_name_date name = Some t"
    by (simp add: backup_name_date_def ParseDate_Format [OF t])
qed

subsection \<open>The last Sunday\<close>

lemma last_Sunday_eq: "valid t \<Longrightarrow> last_Sunday t = add_days (- Weekday t) t"
proof (induction t rule: last_Sunday.induct)
  case (1 t)
  show ?case
  proof (cases "Weekday t = Sunday")
    case True
    then show ?thesis by (subst last_Sunday.simps) (simp add: Sunday_def)
  next
    case False
    with Weekday_range [of t] have w: "1 \<le> Weekday t" "Weekday t < 7" by (auto simp: Sunday_def)
    have p: "valid (AddDate 0 0 (-1) t)" "AddDate 0 0 (-1) t = add_days (-1) t"
      using "1.prems" by (simp_all add: AddDate_days)
    have "Weekday (add_days (-1) t) = Weekday t - 1"
      using Weekday_add_days [OF "1.prems", of "-1"] w by simp
    with "1.IH" [OF _ p(1)] False p(2) show ?thesis
      by (subst last_Sunday.simps) (simp add: add_days_add_days "1.prems")
  qed
qed

lemma last_Sunday_props:
  assumes "valid t"
  shows "valid (last_Sunday t)" "Weekday (last_Sunday t) = Sunday" "last_Sunday t \<le> t"
    "day_number t - 6 \<le> day_number (last_Sunday t)"
proof -
  show v: "valid (last_Sunday t)" by (simp add: last_Sunday_eq assms)
  show "Weekday (last_Sunday t) = Sunday"
    by (simp add: last_Sunday_eq assms Weekday_add_days Sunday_def)
  have d: "day_number (last_Sunday t) = day_number t - Weekday t" by (simp add: last_Sunday_eq assms)
  with Weekday_range [of t] show "day_number t - 6 \<le> day_number (last_Sunday t)" by simp
  from d Weekday_range [of t] show "last_Sunday t \<le> t" by (simp add: le_day_number v assms)
qed

subsection \<open>The dates the loops collect\<close>

lemma weekly_loop_eq:
  assumes "valid t" "2000 \<le> year t" "0 \<le> i"
  shows "weekly_loop t i n = map (\<lambda>k. dateKey (add_days (7 * (i + int k)) t)) [0..<n]"
  using assms(3)
proof (induction n arbitrary: i)
  case (Suc n)
  have "year t \<le> year (add_days (7 * i) t)"
    by (rule year_mono, rule add_days_le) (use assms Suc.prems in auto)
  with assms(2) have y: "\<not> year (add_days (7 * i) t) < 2000" by linarith
  have "weekly_loop t (i + 1) n = map (\<lambda>k. dateKey (add_days (7 * (i + 1 + int k)) t)) [0..<n]"
    using Suc by simp
  then have "weekly_loop t i (Suc n) =
      dateKey (add_days (7 * i) t) # map (\<lambda>k. dateKey (add_days (7 * (i + int (Suc k))) t)) [0..<n]"
    using y by (simp add: AddDate_days assms(1) Let_def algebra_simps)
  then show ?case by (simp add: upt_conv_Cons map_Suc_upt [symmetric] del: upt_Suc)
qed simp

lemma month_end_eq:
  assumes "valid m" shows "month_end m = YMD (year m) (month m) (days_in_month (year m) (month m))"
    (is "_ = ?e")
proof (rule day_number_inj)
  have m: "1 \<le> month m" "month m \<le> 12" using assms by (simp_all add: valid_def)
  then have d0: "time_Date (year m) (month m) 1 = YMD (year m) (month m) 1"
    by (simp add: time_Date_valid)
  have nxt: "AddDate 0 1 0 (YMD (year m) (month m) 1) = next_day ?e"
  proof (cases "month m = 12")
    case True
    then show ?thesis by (simp add: AddDate_def time_Date_def next_day_def)
  next
    case False
    with m have "month m div 12 = 0" "month m mod 12 = month m" by simp_all
    with False m show ?thesis by (simp add: AddDate_def time_Date_def next_day_def)
  qed
  show e: "valid ?e" using m by (simp add: valid_def)
  then have "valid (next_day ?e)" by simp
  with e show "day_number (month_end m) = day_number ?e"
    by (simp add: month_end_def d0 nxt AddDate_days)
  show "valid (month_end m)" by (simp add: month_end_def)
qed

lemma yearly_loop_set:
  "k \<in> set (yearly_loop y n) \<longleftrightarrow> (\<exists>z. y - int n < z \<and> z \<le> y \<and> 2000 \<le> z \<and> k = dateKey (YMD z 12 31))"
proof (induction n arbitrary: y)
  case (Suc n)
  have v: "time_Date y 12 31 = YMD y 12 31" by (rule time_Date_valid) (simp add: valid_def days_in_month_def)
  show ?case
  proof (cases "2000 \<le> y")
    case True
    have "k \<in> set (yearly_loop y (Suc n)) \<longleftrightarrow> k = dateKey (YMD y 12 31) \<or> k \<in> set (yearly_loop (y - 1) n)"
      using True by (simp add: v)
    also have "\<dots> \<longleftrightarrow> (\<exists>z. (z = y \<or> y - 1 - int n < z \<and> z \<le> y - 1) \<and> 2000 \<le> z \<and> k = dateKey (YMD z 12 31))"
      unfolding Suc.IH using True by blast
    also have "\<dots> \<longleftrightarrow> (\<exists>z. (y - int (Suc n) < z \<and> z \<le> y) \<and> 2000 \<le> z \<and> k = dateKey (YMD z 12 31))"
    proof -
      have "(z = y \<or> y - 1 - int n < z \<and> z \<le> y - 1) \<longleftrightarrow> (y - int (Suc n) < z \<and> z \<le> y)" for z
        by auto
      then show ?thesis by simp
    qed
    finally show ?thesis by simp
  qed auto
qed auto

text \<open>The same day of the month, \<open>k\<close> months earlier.\<close>

definition months_ago :: "nat \<Rightarrow> date \<Rightarrow> date" where
  "months_ago k t =
     (let i = 12 * year t + (month t - 1) - int k in YMD (i div 12) (i mod 12 + 1) (day t))"

lemma months_ago_props:
  assumes "valid t" "day t \<le> 28"
  shows "valid (months_ago k t)" "day (months_ago k t) = day t" "months_ago 0 t = t"
    "months_ago k (months_ago j t) = months_ago (j + k) t"
    "AddDate 0 (-1) 0 t = months_ago 1 t"
proof -
  have m: "1 \<le> month t" "month t \<le> 12" "1 \<le> day t" using assms(1) by (simp_all add: valid_def)
  have "day t \<le> days_in_month y n" for y n
    using assms(2) days_in_month_bounds(1) [of y n] by linarith
  then show v: "valid (months_ago k t)" for k
    using m(3) by (simp add: months_ago_def Let_def valid_def zle_add1_eq_le add1_zle_eq)
  show "day (months_ago k t) = day t" by (simp add: months_ago_def Let_def)
  show "months_ago 0 t = t"
    using m by (simp add: months_ago_def Let_def date.expand)
  have "12 * (i div 12) + (i mod 12 + 1 - 1) - int k = i - int k" for i by simp
  then show "months_ago k (months_ago j t) = months_ago (j + k) t"
    by (simp add: months_ago_def Let_def algebra_simps)
  have i: "12 * year t + (month t - 1) - int 1 = 12 * year t + (month t - 2)" by simp
  have dm: "(12 * year t + (month t - 2)) div 12 = year t + (month t - 2) div 12"
    "(12 * year t + (month t - 2)) mod 12 = (month t - 2) mod 12" by simp_all
  have M: "months_ago 1 t = YMD (year t + (month t - 2) div 12) ((month t - 2) mod 12 + 1) (day t)"
    unfolding months_ago_def Let_def i by (simp only: dm)
  have f: "valid (YMD (year t + (month t - 2) div 12) ((month t - 2) mod 12 + 1) 1)"
    by simp
  show "AddDate 0 (-1) 0 t = months_ago 1 t"
    by (rule day_number_inj) (use v [of 1] f M in \<open>simp_all add: AddDate_def time_Date_def day_number_def [of "YMD _ _ _"]\<close>)
qed

lemma monthly_loop_set:
  assumes "valid m" "day m \<le> 28"
  shows "key \<in> set (monthly_loop m n) \<longleftrightarrow>
    (\<exists>k < n. key = dateKey (month_end (months_ago k m)) \<and> (\<forall>j < k. 2000 \<le> year (months_ago j m)))"
  using assms
proof (induction n arbitrary: m)
  case (Suc n)
  let ?P = "\<lambda>m k. key = dateKey (month_end (months_ago k m)) \<and> (\<forall>j < k. 2000 \<le> year (months_ago j m))"
  note ago = months_ago_props [OF Suc.prems]
  have sh: "months_ago k (months_ago (Suc 0) m) = months_ago (Suc k) m" for k using ago(4) [where j = 1] by simp
  have IH: "key \<in> set (monthly_loop (AddDate 0 (-1) 0 m) n) \<longleftrightarrow> (\<exists>k < n. ?P (months_ago 1 m) k)"
    using Suc.IH [of "months_ago 1 m"] ago Suc.prems(2) by (metis (no_types, lifting))
  have y: "year (month_end m) = year m" using Suc.prems(1) by (simp add: month_end_eq)
  have "key \<in> set (monthly_loop m (Suc n)) \<longleftrightarrow>
      key = dateKey (month_end m) \<or> 2000 \<le> year m \<and> (\<exists>k < n. ?P (months_ago 1 m) k)"
    using IH by (auto simp: y)
  also have "\<dots> \<longleftrightarrow> (\<exists>k < Suc n. ?P m k)"
    unfolding Ex_less_Suc2 by (auto simp: ago(3) sh All_less_Suc2)
  finally show ?case .
qed simp

lemma year_months_ago_mono: "j \<le> k \<Longrightarrow> year (months_ago k m) \<le> year (months_ago j m)"
  by (simp add: months_ago_def Let_def zdiv_mono1)

subsection \<open>The contract of sort.Slice\<close>

text \<open>
  The backups of a directory, sorted: \<open>ListBackups\<close> and its clients rely on \<open>sort.Slice\<close>
  for a permutation in date order, and on nothing else.
\<close>

locale slice_sort =
  fixes sort_Slice :: "BackupFile list \<Rightarrow> BackupFile list"
  assumes perm: "mset (sort_Slice xs) = mset xs"
    and by_date: "sorted (map Date (sort_Slice xs))"
begin

lemma set_sort [simp]: "set (sort_Slice xs) = set xs"
  by (rule mset_eq_set) (rule perm)

lemma ListBackups_sorted: "ListBackups sort_Slice F f dir = Inr fls \<Longrightarrow> sorted (map Date fls)"
  by (auto simp: ListBackups_def Let_def by_date split: sum.splits oserr.splits)

lemma ListBackups_readable:
  "ReadDir F f dir = Inr es \<Longrightarrow>
     \<exists>fls. ListBackups sort_Slice F f dir = Inr fls \<and> set fls = set (list_loop F f dir es)"
  by (simp add: ListBackups_def FromSlash_def)

lemma ListBackups_cases:
  assumes "ListBackups sort_Slice F f dir = Inr fls"
  obtains "fls = []" "ReadDir F f dir = Inl ErrNotExist"
  | es where "ReadDir F f dir = Inr es" "set fls = set (list_loop F f dir es)"
proof (cases "ReadDir F f dir")
  case (Inl e)
  with assms that show ?thesis by (cases e) (auto simp: ListBackups_def FromSlash_def)
next
  case (Inr es)
  with assms that(2) show ?thesis by (auto simp: ListBackups_def FromSlash_def)
qed

end

text \<open>
  The insertion sort \<open>sort.Slice\<close> runs on slices of up to 12 elements: each element moves
  left past the elements that are later than it. \<open>acc\<close> is the sorted prefix from its end.
\<close>

fun move_left :: "BackupFile \<Rightarrow> BackupFile list \<Rightarrow> BackupFile list" where
  "move_left x [] = [x]"
| "move_left x (y # acc) = (if Date x < Date y then y # move_left x acc else x # y # acc)"

definition insertionSort :: "BackupFile list \<Rightarrow> BackupFile list" where
  "insertionSort xs = rev (foldl (\<lambda>acc x. move_left x acc) [] xs)"

lemma mset_move_left [simp]: "mset (move_left x acc) = add_mset x (mset acc)"
  by (induction acc) auto

lemma set_move_left [simp]: "set (move_left x acc) = insert x (set acc)"
  by (induction acc) auto

lemma sorted_move_left:
  "sorted_wrt (\<lambda>y x. Date x \<le> Date y) acc \<Longrightarrow> sorted_wrt (\<lambda>y x. Date x \<le> Date y) (move_left x acc)"
  by (induction acc) (auto simp: less_imp_le not_less intro: order_trans)

lemma foldl_move_left:
  "mset (foldl (\<lambda>acc x. move_left x acc) acc xs) = mset xs + mset acc"
  "sorted_wrt (\<lambda>y x. Date x \<le> Date y) acc \<Longrightarrow>
     sorted_wrt (\<lambda>y x. Date x \<le> Date y) (foldl (\<lambda>acc x. move_left x acc) acc xs)"
  by (induction xs arbitrary: acc) (auto simp: sorted_move_left)

interpretation go_sort: slice_sort insertionSort
proof
  fix xs
  show "mset (insertionSort xs) = mset xs"
    by (simp add: insertionSort_def foldl_move_left(1))
  have "sorted_wrt (\<lambda>x y. Date x \<le> Date y) (insertionSort xs)"
    using foldl_move_left(2) [of "[]" xs] by (simp add: insertionSort_def sorted_wrt_rev)
  then show "sorted (map Date (insertionSort xs))"
    by (simp add: sorted_wrt_map)
qed

subsection \<open>The backups of a directory\<close>

lemma Path_backup_file [simp]: "Path (backup_file F f p t) = p"
  and Date_backup_file [simp]: "Date (backup_file F f p t) = t"
  by (simp_all add: backup_file_def split: sum.splits node.splits)

lemma set_list_loop:
  "g \<in> set (list_loop F f dir es) \<longleftrightarrow>
     (\<exists>name c m t. (name, File c m) \<in> set es \<and> backup_name_date name = Some t
        \<and> g = backup_file F f (Join dir name) t)"
proof (induction es)
  case (Cons e es)
  obtain name n where e: "e = (name, n)" by fastforce
  show ?case
  proof (cases n)
    case (File c m)
    with e Cons show ?thesis by (auto split: option.splits)
  next
    case Directory
    with e Cons show ?thesis by simp
  qed
qed simp

subsection \<open>The deletion loop\<close>

lemma files_log_msg [simp]: "files (log_msg l k a w) = files w"
  by (simp add: log_msg_def)

lemma delete_loop_changes:
  "map_of (files (delete_loop i F ws gs w)) p = map_of (files w) p \<or>
   map_of (files (delete_loop i F ws gs w)) p = None \<and> (\<exists>g \<in> set gs. Path g = p \<and> \<not> keep ws (Date g))"
proof (induction gs arbitrary: w)
  case (Cons g gs)
  show ?case
  proof (cases "keep ws (Date g)")
    case True
    with Cons [of w] show ?thesis by auto
  next
    case False
    show ?thesis
    proof (cases "Remove F (files w) (Path g)")
      case (Inl e)
      with False Cons [of "log_msg WARN ''log.warn.retention_delete'' [Path g] w"] show ?thesis by auto
    next
      case (Inr f')
      then have "f' = fs_delete (Path g) (files w)"
        by (auto simp: Remove_def split: if_splits option.splits node.splits)
      with Inr False Cons [of "log_msg INFO ''log.msg.deleted_old_backup''
          [Classify i (Date g), Base (Path g)] (w\<lparr>files := f'\<rparr>)"]
      show ?thesis by (auto split: if_splits)
    qed
  qed
qed simp

lemma Remove_no_fault:
  assumes "\<forall>f p. \<not> F f (OpRemove p)" and "map_of f p \<noteq> Some Directory"
  shows "Remove F f p = (case map_of f p of None \<Rightarrow> Inl ErrNotExist | Some _ \<Rightarrow> Inr (fs_delete p f))"
  using assms by (auto simp: Remove_def split: option.splits node.splits)

lemma delete_loop_deletes:
  assumes F: "\<forall>f p. \<not> F f (OpRemove p)"
    and "\<And>g. g \<in> set gs \<Longrightarrow> map_of (files w) (Path g) \<noteq> Some Directory"
    and "map_of (files w) p = None \<or> (\<exists>g \<in> set gs. Path g = p \<and> \<not> keep ws (Date g))"
  shows "map_of (files (delete_loop i F ws gs w)) p = None"
  using assms(2,3)
proof (induction gs arbitrary: w)
  case (Cons g gs)
  show ?case
  proof (cases "keep ws (Date g)")
    case True
    with Cons show ?thesis by auto
  next
    case False
    have "map_of (files w) (Path g) \<noteq> Some Directory" using Cons.prems by simp
    then have R: "Remove F (files w) (Path g) =
        (case map_of (files w) (Path g) of None \<Rightarrow> Inl ErrNotExist | Some _ \<Rightarrow> Inr (fs_delete (Path g) (files w)))"
      by (rule Remove_no_fault [OF F])
    show ?thesis
    proof (cases "map_of (files w) (Path g)")
      case None
      with R False Cons.prems show ?thesis by (auto intro!: Cons.IH)
    next
      case (Some n)
      with R False Cons.prems show ?thesis by (auto intro!: Cons.IH split: if_splits)
    qed
  qed
qed simp

subsection \<open>Choosing the backups to restore\<close>

definition eligible :: "date option \<Rightarrow> date \<Rightarrow> bool" where
  "eligible before t \<longleftrightarrow> (case before of None \<Rightarrow> True | Some b \<Rightarrow> t < b)"

lemma last_before_rev:
  "sorted (map Date fls) \<Longrightarrow>
     last_before (rev fls) b = (if \<exists>g \<in> set fls. Date g < b
       then Some (Max {Date g | g. g \<in> set fls \<and> Date g < b}) else None)"
proof (induction fls rule: rev_induct)
  case (snoc x fls)
  let ?S = "\<lambda>xs. {Date g | g. g \<in> set xs \<and> Date g < b}"
  have le: "\<forall>g \<in> set fls. Date g \<le> Date x" and s: "sorted (map Date fls)"
    using snoc.prems by (auto simp: sorted_append)
  show ?case
  proof (cases "Date x < b")
    case True
    have "Max (?S (fls @ [x])) = Date x"
    proof (rule Max_eqI)
      show "finite (?S (fls @ [x]))" by (rule finite_subset [of _ "Date ` set (fls @ [x])"]) auto
    qed (use le True in auto)
    with True show ?thesis by auto
  next
    case False
    then have "?S (fls @ [x]) = ?S fls" "(\<exists>g \<in> set (fls @ [x]). Date g < b) \<longleftrightarrow> (\<exists>g \<in> set fls. Date g < b)"
      by auto
    with False snoc.IH [OF s] show ?thesis by simp
  qed
qed simp

definition latest :: "date option \<Rightarrow> BackupFile list \<Rightarrow> BackupFile \<Rightarrow> bool" where
  "latest before fls g \<longleftrightarrow> g \<in> set fls \<and> eligible before (Date g)
     \<and> (\<forall>h \<in> set fls. eligible before (Date h) \<longrightarrow> Date h \<le> Date g)"

context slice_sort
begin

lemma ListBackups_dates:
  assumes "ListBackups sort_Slice F f dir = Inr fls" "g \<in> set fls"
  shows "valid (Date g)" "0 \<le> year (Date g)" "year (Date g) \<le> 9999"
  using assms(1)
  by (rule ListBackups_cases; use assms(2) in \<open>auto simp: set_list_loop backup_name_date_iff\<close>)+

lemma LastBackupBefore_target:
  assumes L: "ListBackups sort_Slice F f dir = Inr fls" and ne: "fls \<noteq> []"
  shows "(case before of None \<Rightarrow> Some (Date (last fls)) | Some b \<Rightarrow> last_before (rev fls) b) =
     (if \<exists>g \<in> set fls. eligible before (Date g)
      then Some (Max {Date g | g. g \<in> set fls \<and> eligible before (Date g)}) else None)"
proof (cases before)
  case None
  have srt: "sorted (map Date fls)" using L by (rule ListBackups_sorted)
  have "Max {Date g | g. g \<in> set fls} = Date (last fls)"
  proof (rule Max_eqI)
    show "finite {Date g | g. g \<in> set fls}" by (rule finite_subset [of _ "Date ` set fls"]) auto
    fix d assume "d \<in> {Date g | g. g \<in> set fls}"
    then show "d \<le> Date (last fls)"
      using srt ne by (cases fls rule: rev_cases) (auto simp: sorted_append)
  qed (use ne in auto)
  with None ne show ?thesis by (auto simp: eligible_def)
next
  case (Some b)
  with last_before_rev [OF ListBackups_sorted [OF L], of b] show ?thesis
    by (simp add: eligible_def)
qed

lemma LastBackupBefore_latest:
  assumes L: "ListBackups sort_Slice F f dir = Inr fls"
    and S: "LastBackupBefore sort_Slice F f dir before = Inr sel"
  shows "g \<in> set sel \<longleftrightarrow> latest before fls g"
proof (cases "\<exists>g \<in> set fls. eligible before (Date g)")
  case False
  with L S LastBackupBefore_target [OF L, of before] have "sel = []"
    by (auto simp: LastBackupBefore_def split: if_splits)
  with False show ?thesis by (auto simp: latest_def)
next
  case True
  let ?S = "{Date g | g. g \<in> set fls \<and> eligible before (Date g)}"
  have ne: "fls \<noteq> []" using True by auto
  have fin: "finite ?S" by (rule finite_subset [of _ "Date ` set fls"]) auto
  have "?S \<noteq> {}" using True by auto
  then have M: "Max ?S \<in> ?S" by (rule Max_in [OF fin])
  then obtain h where h: "h \<in> set fls" "eligible before (Date h)" "Max ?S = Date h" by auto
  have sel: "sel = filter (\<lambda>g. dateKey (Date g) = dateKey (Max ?S)) fls"
    using S ne True by (simp add: LastBackupBefore_def L LastBackupBefore_target [OF L ne])
  have key: "dateKey (Date g) = dateKey (Max ?S) \<longleftrightarrow> Date g = Max ?S" if "g \<in> set fls" for g
    using ListBackups_dates [OF L that] ListBackups_dates [OF L h(1)]
    by (simp add: dateKey_def h(3) Format_eq_iff)
  show ?thesis
  proof
    assume "g \<in> set sel"
    then have g: "g \<in> set fls" "Date g = Max ?S" by (auto simp: sel key)
    moreover have "Date k \<le> Max ?S" if "k \<in> set fls" "eligible before (Date k)" for k
      by (rule Max_ge [OF fin]) (use that in auto)
    ultimately show "latest before fls g" using h by (auto simp: latest_def)
  next
    assume l: "latest before fls g"
    then have "Max ?S = Date g" by (intro Max_eqI fin) (auto simp: latest_def)
    with l show "g \<in> set sel" by (simp add: sel latest_def)
  qed
qed

lemma Apply_changes:
  assumes A: "Apply i sort_Slice F today dir rd rw rm ry w = (e, w')"
    and ne: "map_of (files w') p \<noteq> map_of (files w) p"
  shows "map_of (files w') p = None \<and> (\<exists>name c m t. (name, File c m) \<in> set (entries (files w) dir) \<and> p = Join dir name
     \<and> backup_name_date name = Some t \<and> \<not> keep (retention_windows today rd rw rm ry) t)"
proof -
  from A ne obtain fls where L: "ListBackups sort_Slice F (files w) dir = Inr fls"
    and w': "w' = delete_loop i F (retention_windows today rd rw rm ry) fls w"
    by (auto simp: Apply_def split: sum.splits if_splits)
  from delete_loop_changes [of i F _ fls w p] ne w' obtain g where
    n: "map_of (files w') p = None" and g: "g \<in> set fls" "Path g = p"
      "\<not> keep (retention_windows today rd rw rm ry) (Date g)" by metis
  from L g(1) obtain es where es: "ReadDir F (files w) dir = Inr es" "g \<in> set (list_loop F (files w) dir es)"
    by (cases rule: ListBackups_cases) auto
  then obtain name c m t where "(name, File c m) \<in> set (entries (files w) dir)"
    "backup_name_date name = Some t" "g = backup_file F (files w) (Join dir name) t"
    using set_ReadDir [OF es(1)] by (auto simp: set_list_loop)
  with g n show ?thesis by (intro conjI exI [of _ name] exI [of _ c] exI [of _ m] exI [of _ t]) auto
qed

lemma Apply_expired:
  assumes F: "\<forall>f p. \<not> F f (OpRemove p)" and ok: "fs_ok (files w)"
    and R: "ReadDir F (files w) dir = Inr es" and A: "Apply i sort_Slice F today dir rd rw rm ry w = (e, w')"
    and ent: "(name, File c m) \<in> set es" "backup_name_date name = Some t"
    and x: "\<not> keep (retention_windows today rd rw rm ry) t"
  shows "e = None \<and> map_of (files w') (Join dir name) = None"
proof -
  obtain fls where L: "ListBackups sort_Slice F (files w) dir = Inr fls" "set fls = set (list_loop F (files w) dir es)"
    using ListBackups_readable [OF R] by blast
  let ?g = "backup_file F (files w) (Join dir name) t"
  have g: "?g \<in> set fls" using ent L(2) set_list_loop by blast
  have "map_of (files w) (Path h) \<noteq> Some Directory" if "h \<in> set fls" for h
    using that L(2) set_ReadDir [OF R] entries_map_of [OF ok] by (fastforce simp: set_list_loop)
  then have "map_of (files (delete_loop i F (retention_windows today rd rw rm ry) fls w)) (Join dir name) = None"
    by (rule delete_loop_deletes [OF F]) (use g x in \<open>auto intro!: bexI [of _ ?g]\<close>)
  with A L g show ?thesis by (auto simp: Apply_def split: if_splits)
qed

end

subsection \<open>What the windows keep\<close>

lemma keep_daily:
  assumes "valid today" "valid t" "day_number today - rd \<le> day_number t"
  shows "keep (retention_windows today rd rw rm ry) t"
  using assms by (simp add: keep_def retention_windows_def Let_def AddDate_days not_less le_day_number)

lemma keepSundays_iff:
  assumes today: "valid today" "2000 \<le> year (last_Sunday today)"
    and t: "valid t" "0 \<le> year t" "year t \<le> 9999" "t \<le> today"
  shows "dateKey t \<in> set (keepSundays (retention_windows today rd rw rm ry)) \<longleftrightarrow> 0 < rw \<and> t = last_Sunday today"
proof -
  let ?s = "last_Sunday today"
  note S = last_Sunday_props [OF today(1)]
  have A: "dateKey t = dateKey (add_days (7 * int k) ?s) \<longleftrightarrow> t = add_days (7 * int k) ?s" for k
  proof -
    have "year ?s \<le> year (add_days (7 * int k) ?s)" by (intro year_mono add_days_le S(1)) simp
    with today(2) have "0 \<le> year (add_days (7 * int k) ?s)" by linarith
    with t S(1) Format_eq_iff [of "add_days (7 * int k) ?s" t] show ?thesis by (auto simp: dateKey_def)
  qed
  have B: "t = add_days (7 * int k) ?s \<longleftrightarrow> k = 0 \<and> t = ?s" for k
  proof (cases "k = 0")
    case False
    have "day_number today < day_number (add_days (7 * int k) ?s)" using S(1,4) False by simp
    then have "today < add_days (7 * int k) ?s" using S(1) today(1) by (simp add: less_day_number)
    with t(4) False show ?thesis by auto
  qed simp
  have "dateKey t \<in> set (keepSundays (retention_windows today rd rw rm ry)) \<longleftrightarrow>
      (\<exists>k < nat rw. dateKey t = dateKey (add_days (7 * int k) ?s))"
    by (auto simp: retention_windows_def weekly_loop_eq [OF S(1) today(2)])
  also have "\<dots> \<longleftrightarrow> (\<exists>k < nat rw. k = 0 \<and> t = ?s)" by (simp only: A B)
  finally show ?thesis by auto
qed

lemma keepMonthEnds_iff:
  assumes today: "valid today" "day today \<le> 28"
    and t: "valid t" "2000 \<le> year t" "year t \<le> 9999" and y: "0 \<le> year (months_ago (nat rm) today)"
  shows "dateKey t \<in> set (keepMonthEnds (retention_windows today rd rw rm ry)) \<longleftrightarrow>
    (\<exists>k. int k < rm \<and> t = month_end (months_ago k today))"
proof -
  note ago = months_ago_props [OF today]
  have yr: "year (month_end (months_ago k today)) = year (months_ago k today)" for k
    by (simp add: month_end_eq ago(1))
  have ve: "valid (month_end m)" for m by (simp add: month_end_def)
  have eq: "dateKey t = dateKey (month_end (months_ago k today)) \<longleftrightarrow> t = month_end (months_ago k today)"
    if "k < nat rm" for k
    using t y year_months_ago_mono [of k "nat rm" today] that
      Format_eq_iff [OF ve [of "months_ago k today"] _ t(1)] yr [of k]
    by (auto simp: dateKey_def)
  have late: "2000 \<le> year (months_ago j today)" if "t = month_end (months_ago k today)" "j < k" for j k
    using t(2) that year_months_ago_mono [of j k today] yr [of k] by simp
  have "dateKey t \<in> set (keepMonthEnds (retention_windows today rd rw rm ry)) \<longleftrightarrow>
      (\<exists>k < nat rm. dateKey t = dateKey (month_end (months_ago k today)) \<and> (\<forall>j < k. 2000 \<le> year (months_ago j today)))"
    by (simp add: retention_windows_def monthly_loop_set [OF today])
  also have "\<dots> \<longleftrightarrow> (\<exists>k < nat rm. t = month_end (months_ago k today))"
  proof -
    have "dateKey t = dateKey (month_end (months_ago k today)) \<and> (\<forall>j < k. 2000 \<le> year (months_ago j today))
        \<longleftrightarrow> t = month_end (months_ago k today)" if "k < nat rm" for k
      using eq [OF that] late [of k] by metis
    then show ?thesis by (simp cong: conj_cong)
  qed
  finally show ?thesis by (simp add: zless_nat_eq_int_zless)
qed

lemma keepYearEnds_iff:
  assumes t: "valid t" "0 \<le> year t" "year t \<le> 9999" "year t \<le> year today"
  shows "dateKey t \<in> set (keepYearEnds (retention_windows today rd rw rm ry)) \<longleftrightarrow>
    month t = 12 \<and> day t = 31 \<and> 2000 \<le> year t \<and> year today - ry < year t"
proof -
  have v: "valid (YMD z 12 31)" for z by (simp add: valid_def days_in_month_def)
  have "dateKey t = dateKey (YMD z 12 31) \<longleftrightarrow> t = YMD z 12 31" if "2000 \<le> z" for z
    using t that Format_eq_iff [OF v, of z t] by (auto simp: dateKey_def)
  moreover have "t = YMD z 12 31 \<longleftrightarrow> month t = 12 \<and> day t = 31 \<and> year t = z" for z
    by (cases t) auto
  ultimately show ?thesis
    using t(4) by (auto simp: retention_windows_def yearly_loop_set)
qed

subsection \<open>Properties\<close>

text \<open>A directory with three files on a Sunday, used to instantiate the properties below.\<close>

definition ex_world :: world where
  "ex_world = \<lparr>files =
     [(''b'', Directory),
      (''b/mysql_backup_20250111_h_db.zip'', File ''x'' 0),
      (''b/mysql_backup_20250611_h_db.zip'', File ''y'' 1),
      (''b/notes.txt'', File ''z'' 2)], logs = []\<rparr>"

definition ex_i18n :: i18n where
  "ex_i18n = \<lparr>lang = ''en'', messages = None\<rparr>"

definition ex_apply :: "oserr option \<times> world" where
  "ex_apply = Apply ex_i18n insertionSort (\<lambda>_ _. False) (YMD 2025 6 15) ''b'' 14 3 3 3 ex_world"

text \<open>
  C8. Safety of the retention run. Whatever calls of the operating system fail and however
  \<open>sort.Slice\<close> orders the backups of one day, \<open>Apply\<close> changes a path only by deleting it,
  and only if it is a plain file of the directory with a backup name whose date lies outside
  all retention windows.
\<close>

theorem Apply_only_expired:
  assumes "slice_sort s" and "Apply i s F today dir rd rw rm ry w = (e, w')"
    and "map_of (files w') p \<noteq> map_of (files w) p"
  shows "map_of (files w') p = None \<and> (\<exists>name c m t. (name, File c m) \<in> set (entries (files w) dir)
     \<and> p = Join dir name \<and> backup_name_date name = Some t \<and> \<not> keep (retention_windows today rd rw rm ry) t)"
  using assms by (rule slice_sort.Apply_changes)

theorem Apply_only_expired_witness:
  "map_of (files (snd ex_apply)) ''b/mysql_backup_20250111_h_db.zip'' = None \<and>
   (\<exists>name c m t. (name, File c m) \<in> set (entries (files ex_world) ''b'')
     \<and> ''b/mysql_backup_20250111_h_db.zip'' = Join ''b'' name \<and> backup_name_date name = Some t
     \<and> \<not> keep (retention_windows (YMD 2025 6 15) 14 3 3 3) t)"
proof (rule Apply_only_expired [OF go_sort.slice_sort_axioms])
  show "Apply ex_i18n insertionSort (\<lambda>_ _. False) (YMD 2025 6 15) ''b'' 14 3 3 3 ex_world =
      (fst ex_apply, snd ex_apply)"
    by (simp add: ex_apply_def)
  show "map_of (files (snd ex_apply)) ''b/mysql_backup_20250111_h_db.zip'' \<noteq>
      map_of (files ex_world) ''b/mysql_backup_20250111_h_db.zip''"
    by code_simp
qed

text \<open>
  C9. Completeness of the retention run. Where the directory can be read and no deletion
  fails, \<open>Apply\<close> reports no error and deletes exactly the backups outside the windows: every
  path afterwards is as it was before, except that the expired backups are gone.
\<close>

definition expired :: "windows \<Rightarrow> fs \<Rightarrow> string \<Rightarrow> string \<Rightarrow> bool" where
  "expired ws f dir p \<longleftrightarrow>
     (\<exists>name c m t. (name, File c m) \<in> set (entries f dir) \<and> p = Join dir name
        \<and> backup_name_date name = Some t \<and> \<not> keep ws t)"

theorem Apply_exact:
  assumes "slice_sort s" and "\<forall>f p. \<not> F f (OpRemove p)" and "fs_ok (files w)"
    and "ReadDir F (files w) dir = Inr es"
  shows "fst (Apply i s F today dir rd rw rm ry w) = None \<and>
    map_of (files (snd (Apply i s F today dir rd rw rm ry w))) p =
      (if expired (retention_windows today rd rw rm ry) (files w) dir p then None else map_of (files w) p)"
proof -
  obtain e w' where A: "Apply i s F today dir rd rw rm ry w = (e, w')" by fastforce
  have "e = None" using A slice_sort.ListBackups_readable [OF assms(1,4)]
    by (auto simp: Apply_def split: if_splits)
  moreover have "map_of (files w') p = None" if "expired (retention_windows today rd rw rm ry) (files w) dir p"
    using that slice_sort.Apply_expired [OF assms A] set_ReadDir [OF assms(4)]
    by (auto simp: expired_def)
  moreover have "map_of (files w') p = map_of (files w) p"
    if "\<not> expired (retention_windows today rd rw rm ry) (files w) dir p"
    using that slice_sort.Apply_changes [OF assms(1) A, of p] unfolding expired_def by blast
  ultimately show ?thesis using A by simp
qed

theorem Apply_exact_witness:
  "fst ex_apply = None \<and> map_of (files (snd ex_apply)) ''b/mysql_backup_20250111_h_db.zip'' =
     (if expired (retention_windows (YMD 2025 6 15) 14 3 3 3) (files ex_world) ''b'' ''b/mysql_backup_20250111_h_db.zip''
      then None else map_of (files ex_world) ''b/mysql_backup_20250111_h_db.zip'')"
proof -
  have "fs_ok (files ex_world)" by (simp add: ex_world_def fs_ok_def)
  moreover have "ReadDir (\<lambda>_ _. False) (files ex_world) ''b'' =
      Inr [(''mysql_backup_20250111_h_db.zip'', File ''x'' 0),
           (''mysql_backup_20250611_h_db.zip'', File ''y'' 1), (''notes.txt'', File ''z'' 2)]"
    by code_simp
  ultimately show ?thesis
    unfolding ex_apply_def by (intro Apply_exact [OF go_sort.slice_sort_axioms]) auto
qed





text \<open>
  At the end of a month the monthly window loses months: going back one month from the
  31st of March lands on the 3rd of March, so that on that day three monthly backups are the
  end of March twice and the end of February, and the end of January is not kept.
\<close>

theorem monthly_window_march_31:
  "keepMonthEnds (retention_windows (YMD 2025 3 31) rd rw 3 ry) = [''20250331'', ''20250331'', ''20250228'']"
  unfolding retention_windows_def windows.simps by code_simp

text \<open>
  C12. Restore picks a whole backup day: \<open>LastBackupBefore\<close> returns exactly the backups of
  the latest day among the backups before the given date (among all backups, if no date is
  given), whatever the order in which \<open>sort.Slice\<close> leaves backups of one day.
\<close>

theorem LastBackupBefore_selects:
  assumes "slice_sort s" and "ListBackups s F f dir = Inr fls"
    and "LastBackupBefore s F f dir before = Inr sel"
  shows "g \<in> set sel \<longleftrightarrow> g \<in> set fls \<and> eligible before (Date g)
     \<and> (\<forall>h \<in> set fls. eligible before (Date h) \<longrightarrow> Date h \<le> Date g)"
  using slice_sort.LastBackupBefore_latest [OF assms] by (simp add: latest_def)

definition ex_backup :: BackupFile where
  "ex_backup = \<lparr>Path = ''b/mysql_backup_20250111_h_db.zip'', Date = YMD 2025 1 11, ModTime = 0, Size = 1\<rparr>"

theorem LastBackupBefore_selects_witness:
  "ex_backup \<in> set [ex_backup] \<longleftrightarrow>
     ex_backup \<in> set [ex_backup, \<lparr>Path = ''b/mysql_backup_20250611_h_db.zip'', Date = YMD 2025 6 11, ModTime = 1, Size = 1\<rparr>]
     \<and> eligible (Some (YMD 2025 6 1)) (Date ex_backup)
     \<and> (\<forall>h \<in> set [ex_backup, \<lparr>Path = ''b/mysql_backup_20250611_h_db.zip'', Date = YMD 2025 6 11, ModTime = 1, Size = 1\<rparr>].
          eligible (Some (YMD 2025 6 1)) (Date h) \<longrightarrow> Date h \<le> Date ex_backup)"
proof (rule LastBackupBefore_selects [OF go_sort.slice_sort_axioms])
  show "ListBackups insertionSort (\<lambda>_ _. False) (files ex_world) ''b'' =
      Inr [ex_backup, \<lparr>Path = ''b/mysql_backup_20250611_h_db.zip'', Date = YMD 2025 6 11, ModTime = 1, Size = 1\<rparr>]"
    by code_simp
  show "LastBackupBefore insertionSort (\<lambda>_ _. False) (files ex_world) ''b'' (Some (YMD 2025 6 1)) = Inr [ex_backup]"
    by code_simp
qed

lemma isLastDayOfMonth_iff:
  assumes "valid t" shows "isLastDayOfMonth t \<longleftrightarrow> day t = days_in_month (year t) (month t)"
proof -
  have "AddDate 0 0 1 t = next_day t" using assms by (simp add: AddDate_days add_days_def)
  with assms show ?thesis
    by (auto simp: isLastDayOfMonth_def next_day_def valid_def)
qed

text \<open>
  \<open>Classify\<close> names the 31st of December yearly, the last day of any other month monthly,
  any other Sunday weekly and every other day daily.
\<close>

theorem Classify_spec:
  assumes "valid t"
  shows "Classify i t = T i (if month t = 12 \<and> day t = 31 then ''retention.yearly''
     else if day t = days_in_month (year t) (month t) then ''retention.monthly''
     else if day_number t mod 7 = 0 then ''retention.weekly'' else ''retention.daily'')"
  using assms by (simp only: Classify_def isLastDayOfMonth_iff Weekday_def Sunday_def if_distrib [of "T i"])

theorem Classify_spec_witness:
  "Classify ex_i18n (YMD 2025 2 28) = T ex_i18n (if month (YMD 2025 2 28) = 12 \<and> day (YMD 2025 2 28) = 31 then ''retention.yearly''
     else if day (YMD 2025 2 28) = days_in_month (year (YMD 2025 2 28)) (month (YMD 2025 2 28)) then ''retention.monthly''
     else if day_number (YMD 2025 2 28) mod 7 = 0 then ''retention.weekly'' else ''retention.daily'')"
  by (rule Classify_spec) code_simp

end
