(* ===== verification/Config.thy ===== *)
theory Config
  imports Go_OS
begin

text \<open>
  \<open>internal/config/config.go\<close>: the configuration, its defaults, the clean-up of its paths and
  the search for its file. The package \<open>sconfig\<close> (JSON and secure passwords) is a parameter:
  it is given the defaults, the version, the path and its two flags, reads and may rewrite
  files, and returns an error or the filled configuration.
\<close>

record Config =
  Version :: int
  MySQLHost :: string
  MySQLHostname :: string
  MySQLPort :: int
  MySQLBin :: string
  MySQLDataDir :: string
  MySQLBackupDir :: string
  MySQLAutoStartStop :: bool
  MySQLStartCmd :: string
  MySQLStopCmd :: string
  RootPassword :: string
  RootSecurePassword :: string
  RetainDaily :: int
  RetainWeekly :: int
  RetainMonthly :: int
  RetainYearly :: int
  BackupDir :: string
  LogFilename :: string
  AdminEmail :: string
  AdminSMTPServer :: string
  AdminSMTPPort :: int
  AdminSMTPUser :: string
  AdminSMTPTLS :: string
  AdminSMTPPassword :: string
  AdminSMTPSecurePassword :: string
  RemoteBackupDir :: string
  RemoteSSHHost :: string
  RemoteSSHPort :: int
  RemoteSSHUser :: string
  RemoteSSHPassword :: string
  RemoteSSHSecurePassword :: string
  RemoteSSHKeyFile :: string
  RemoteAESPassword :: string
  RemoteAESSecurePassword :: string
  StartTime :: string

definition DefaultConfig :: Config where
  "DefaultConfig =
     \<lparr>Version = 0, MySQLHost = [], MySQLHostname = [], MySQLPort = 3306, MySQLBin = [], MySQLDataDir = [],
      MySQLBackupDir = [], MySQLAutoStartStop = False, MySQLStartCmd = [], MySQLStopCmd = [],
      RootPassword = [], RootSecurePassword = [],
      RetainDaily = 14, RetainWeekly = 3, RetainMonthly = 3, RetainYearly = 3,
      BackupDir = [], LogFilename = [],
      AdminEmail = [], AdminSMTPServer = [], AdminSMTPPort = 587, AdminSMTPUser = [], AdminSMTPTLS = [],
      AdminSMTPPassword = [], AdminSMTPSecurePassword = [],
      RemoteBackupDir = [], RemoteSSHHost = [], RemoteSSHPort = 22, RemoteSSHUser = [],
      RemoteSSHPassword = [], RemoteSSHSecurePassword = [], RemoteSSHKeyFile = [],
      RemoteAESPassword = [], RemoteAESSecurePassword = [], StartTime = ''22:00''\<rparr>"

definition clean_path :: "string \<Rightarrow> string" where
  "clean_path p = FromSlash (Clean p)"

text \<open>The assignments of \<open>normalizePaths\<close>, one after the other.\<close>

definition normalizePaths :: "Config \<Rightarrow> Config" where
  "normalizePaths c0 =
     (let c1 = c0\<lparr>BackupDir := clean_path (BackupDir c0)\<rparr>;
          c2 = c1\<lparr>LogFilename := clean_path (LogFilename c1)\<rparr>;
          c3 = c2\<lparr>RemoteBackupDir := clean_path (RemoteBackupDir c2)\<rparr>;
          c4 = (if MySQLBin c3 \<noteq> [] then c3\<lparr>MySQLBin := clean_path (MySQLBin c3)\<rparr> else c3);
          c5 = (if MySQLDataDir c4 \<noteq> [] then c4\<lparr>MySQLDataDir := clean_path (MySQLDataDir c4)\<rparr> else c4);
          c6 = (if MySQLBackupDir c5 \<noteq> [] then c5\<lparr>MySQLBackupDir := clean_path (MySQLBackupDir c5)\<rparr> else c5)
      in if RemoteSSHKeyFile c6 \<noteq> [] then c6\<lparr>RemoteSSHKeyFile := clean_path (RemoteSSHKeyFile c6)\<rparr> else c6)"

type_synonym sconfig =
  "Config \<Rightarrow> int \<Rightarrow> string \<Rightarrow> bool \<Rightarrow> bool \<Rightarrow> fs \<Rightarrow> (string, Config) result \<times> fs"

text \<open>
  \<open>Load\<close>. The branch on \<open>debugSconfig\<close> is dead: the flag is the constant false. An error is
  the translation key of its text and the text \<open>sconfig\<close> gave.
\<close>

definition Load :: "sconfig \<Rightarrow> string \<Rightarrow> bool \<Rightarrow> fs \<Rightarrow> (string \<times> string, Config) result \<times> fs" where
  "Load LoadConfig path cleanConfig f =
     (let cfg = DefaultConfig in
      case LoadConfig cfg (Version cfg) path cleanConfig False f of
        (Inl e, f') \<Rightarrow> (Inl (''err.sconfig_load'', e), f')
      | (Inr c, f') \<Rightarrow> (Inr (normalizePaths c), f'))"

definition LoadClean :: "sconfig \<Rightarrow> string \<Rightarrow> bool \<Rightarrow> fs \<Rightarrow> (string \<times> string, unit) result \<times> fs" where
  "LoadClean LoadConfig path debug f =
     (let cfg = DefaultConfig in
      case LoadConfig cfg (Version cfg) path True debug f of
        (Inl e, f') \<Rightarrow> (Inl (''err.sconfig_clean'', e), f')
      | (Inr _, f') \<Rightarrow> (Inr (), f'))"

definition HostnameForBackup :: "Config \<Rightarrow> string" where
  "HostnameForBackup c =
     (let h = TrimSpace (MySQLHost c) in
      if (h = ''localhost'' \<or> h = ''127.0.0.1'') \<and> TrimSpace (MySQLHostname c) \<noteq> [] then TrimSpace (MySQLHostname c)
      else if h = [] then ''localhost''
      else h)"

text \<open>
  \<open>ConfigPath\<close>, with the results of \<open>os.Executable\<close>, \<open>os.Getwd\<close> and \<open>os.UserHomeDir\<close>.
\<close>

definition config_home :: "procenv \<Rightarrow> string" where
  "config_home e = (case UserHomeDir e of Some home \<Rightarrow> Join home ''config.json'' | None \<Rightarrow> ''config.json'')"

definition ConfigPath :: "faults \<Rightarrow> fs \<Rightarrow> procenv \<Rightarrow> string \<Rightarrow> string \<Rightarrow> string" where
  "ConfigPath F f e flagPath invokedDir =
     (if flagPath \<noteq> [] then FromSlash (Clean flagPath)
      else let name = ''config.json'' in
        if invokedDir \<noteq> [] then
          let p = Join invokedDir name in (case Stat F f p of Inr _ \<Rightarrow> p | Inl _ \<Rightarrow> p)
        else
          (case Executable e of
             Some exe \<Rightarrow> let p = Join (Dir exe) name in (case Stat F f p of Inr _ \<Rightarrow> p | Inl _ \<Rightarrow> p)
           | None \<Rightarrow>
               (case Stat F f name of
                  Inr _ \<Rightarrow> name
                | Inl _ \<Rightarrow>
                    (case Getwd e of
                       Some dir \<Rightarrow> (case Stat F f (Join dir name) of Inr _ \<Rightarrow> Join dir name | Inl _ \<Rightarrow> config_home e)
                     | None \<Rightarrow> config_home e))))"

subsection \<open>Facts\<close>

lemma is_clean_clean_path [simp]: "is_clean (clean_path p)"
  by (simp add: clean_path_def FromSlash_def)

lemma clean_path_not_Nil [simp]: "clean_path p \<noteq> []"
  by (simp add: clean_path_def FromSlash_def)

lemma clean_path_clean: "is_clean p \<Longrightarrow> clean_path p = p"
  by (simp add: is_clean_def clean_path_def FromSlash_def)

lemma normalizePaths_fields [simp]:
  "BackupDir (normalizePaths c) = clean_path (BackupDir c)"
  "LogFilename (normalizePaths c) = clean_path (LogFilename c)"
  "RemoteBackupDir (normalizePaths c) = clean_path (RemoteBackupDir c)"
  "MySQLBin (normalizePaths c) = (if MySQLBin c = [] then [] else clean_path (MySQLBin c))"
  "MySQLDataDir (normalizePaths c) = (if MySQLDataDir c = [] then [] else clean_path (MySQLDataDir c))"
  "MySQLBackupDir (normalizePaths c) = (if MySQLBackupDir c = [] then [] else clean_path (MySQLBackupDir c))"
  "RemoteSSHKeyFile (normalizePaths c) = (if RemoteSSHKeyFile c = [] then [] else clean_path (RemoteSSHKeyFile c))"
  by (simp_all add: normalizePaths_def Let_def)

lemma normalizePaths_id:
  assumes "is_clean (BackupDir c)" "is_clean (LogFilename c)" "is_clean (RemoteBackupDir c)"
    "MySQLBin c = [] \<or> is_clean (MySQLBin c)" "MySQLDataDir c = [] \<or> is_clean (MySQLDataDir c)"
    "MySQLBackupDir c = [] \<or> is_clean (MySQLBackupDir c)" "RemoteSSHKeyFile c = [] \<or> is_clean (RemoteSSHKeyFile c)"
  shows "normalizePaths c = c"
  using assms by (auto simp: normalizePaths_def Let_def clean_path_clean)

subsection \<open>Properties\<close>



lemma HostnameForBackup_not_empty: "HostnameForBackup c \<noteq> []"
  by (simp add: HostnameForBackup_def Let_def)

lemma entry_name_config: "entry_name ''config.json''"
  by (simp add: entry_name_def)



end
