(* ===== verification/Backup.thy ===== *)
theory Backup
  imports Mysql Retention Config
begin

text \<open>
  \<open>internal/backup/backup.go\<close>: one zip file per database, written beside a \<open>.sav\<close> copy of the
  previous one, and the recovery of \<open>.sav\<close> files a crash left behind.

  Each call is shown as an update of the map from paths to files; from these the outcome of the
  backup of one database and of all follows. Crashes are in \<open>Backup_Crash\<close>.

  The format of a zip file is a parameter (\<open>zipenv\<close>): the bytes of a complete archive with one
  entry, the bytes in the file while an archive is being written, and the bytes left by a
  failed write. Which calls fail is decided by \<open>faults\<close>.
\<close>

subsection \<open>Writing a zip file\<close>

record zipenv =
  zip_final :: "string \<Rightarrow> bytes \<Rightarrow> bytes"
  zip_partial :: "string \<Rightarrow> bytes \<Rightarrow> bytes"
  zip_torn :: "string \<Rightarrow> bytes \<Rightarrow> bytes \<Rightarrow> bytes"

definition hostRe :: re where
  "hostRe = Cls True [(48, 57), (65, 90), (95, 95), (97, 122), (45, 45), (46, 46)]"

definition hostnameForFile :: "string \<Rightarrow> string" where
  "hostnameForFile host = ReplaceAllString hostRe (if host = [] then ''localhost'' else host) ''_''"

text \<open>
  An open zip writer: its file, the \<open>.sav\<close> file, the entry's name, what was written to the
  entry, whether the writer was closed, and whether a write failed (after which the buffered
  writer below it fails every further call).
\<close>

record zipw =
  zpath :: string
  zsav :: string
  zentry :: string
  zdata :: bytes
  zclosed :: bool
  zbroken :: bool

definition savPath_of :: "string \<Rightarrow> string" where
  "savPath_of zipPath = TrimSuffix zipPath ''.zip'' @ ''.sav''"

definition put_file :: "string \<Rightarrow> bytes \<Rightarrow> int \<Rightarrow> 'a world_scheme \<Rightarrow> 'a world_scheme" where
  "put_file p c now w = w\<lparr>files := fs_update p (File c now) (files w)\<rparr>"

text \<open>The end of every error path: put the \<open>.sav\<close> file back, without or with log lines.\<close>

definition restore_sav_quiet :: "faults \<Rightarrow> string \<Rightarrow> string \<Rightarrow> 'a world_scheme \<Rightarrow> 'a world_scheme" where
  "restore_sav_quiet F savPath zipPath w =
     (case Stat F (files w) savPath of
        Inl _ \<Rightarrow> w
      | Inr _ \<Rightarrow> (case Rename F (files w) savPath zipPath of Inl _ \<Rightarrow> w | Inr f \<Rightarrow> w\<lparr>files := f\<rparr>))"

definition restore_sav :: "faults \<Rightarrow> string \<Rightarrow> string \<Rightarrow> 'a world_scheme \<Rightarrow> 'a world_scheme" where
  "restore_sav F savPath zipPath w =
     (case Stat F (files w) savPath of
        Inl _ \<Rightarrow> w
      | Inr _ \<Rightarrow>
          (case Rename F (files w) savPath zipPath of
             Inl _ \<Rightarrow> log_msg WARN ''log.warn.restore_sav'' [] w
           | Inr f \<Rightarrow> log_msg WARN ''log.warn.restored_sav'' [Base zipPath] (w\<lparr>files := f\<rparr>)))"

definition remove_quiet :: "faults \<Rightarrow> string \<Rightarrow> 'a world_scheme \<Rightarrow> 'a world_scheme" where
  "remove_quiet F p w = (case Remove F (files w) p of Inl _ \<Rightarrow> w | Inr f \<Rightarrow> w\<lparr>files := f\<rparr>)"

definition safeWriteZIPStreaming ::
  "zipenv \<Rightarrow> faults \<Rightarrow> int \<Rightarrow> string \<Rightarrow> string \<Rightarrow> 'a world_scheme \<Rightarrow> (goerr, zipw) result \<times> 'a world_scheme"
where
  "safeWriteZIPStreaming Z F now zipPath entryName w =
     (let savPath = savPath_of zipPath;
          renamed = (case Stat F (files w) zipPath of
                       Inr _ \<Rightarrow> Rename F (files w) zipPath savPath
                     | Inl _ \<Rightarrow> Inr (files w))
      in case renamed of
           Inl e \<Rightarrow> (Inl (Err ''err.rename_sav'' [] (Some (OSErr e))), w)
         | Inr f1 \<Rightarrow>
             let w1 = w\<lparr>files := f1\<rparr> in
             (case Create F f1 zipPath now of
                Inl e \<Rightarrow> (Inl (OSErr e), restore_sav_quiet F savPath zipPath w1)
              | Inr f2 \<Rightarrow>
                  let w2 = w1\<lparr>files := f2\<rparr> in
                  if F f2 (OpZipCreate zipPath)
                  then (Inl (OSErr ErrOther), restore_sav_quiet F savPath zipPath (remove_quiet F zipPath w2))
                  else (Inr \<lparr>zpath = zipPath, zsav = savPath, zentry = entryName, zdata = [], zclosed = False, zbroken = False\<rparr>,
                        put_file zipPath (zip_partial Z entryName []) now w2)))"

text \<open>Writing to the entry.\<close>

definition entry_write ::
  "zipenv \<Rightarrow> faults \<Rightarrow> int \<Rightarrow> zipw \<Rightarrow> bytes \<Rightarrow> 'a world_scheme \<Rightarrow> oserr option \<times> zipw \<times> 'a world_scheme"
where
  "entry_write Z F now h data w =
     (if zbroken h \<or> F (files w) (OpWriteFile (zpath h))
      then (Some ErrOther, h\<lparr>zbroken := True\<rparr>, put_file (zpath h) (zip_torn Z (zentry h) (zdata h) data) now w)
      else let h' = h\<lparr>zdata := zdata h @ data\<rparr> in
        (None, h', put_file (zpath h) (zip_partial Z (zentry h) (zdata h')) now w))"

text \<open>\<open>zip.Writer.Close\<close>: an error where the writer is closed already or a write failed.\<close>

definition zip_close ::
  "zipenv \<Rightarrow> faults \<Rightarrow> int \<Rightarrow> zipw \<Rightarrow> 'a world_scheme \<Rightarrow> oserr option \<times> zipw \<times> 'a world_scheme"
where
  "zip_close Z F now h w =
     (if zclosed h \<or> zbroken h then (Some ErrOther, h, w)
      else let h' = h\<lparr>zclosed := True\<rparr> in
        if F (files w) (OpZipClose (zpath h))
        then (Some ErrOther, h', put_file (zpath h) (zip_torn Z (zentry h) (zdata h) []) now w)
        else (None, h', put_file (zpath h) (zip_final Z (zentry h) (zdata h)) now w))"

definition finish ::
  "zipenv \<Rightarrow> faults \<Rightarrow> int \<Rightarrow> zipw \<Rightarrow> 'a world_scheme \<Rightarrow> goerr option \<times> zipw \<times> 'a world_scheme"
where
  "finish Z F now h w =
     (case zip_close Z F now h w of
        (Some e, h1, w1) \<Rightarrow> (Some (OSErr e), h1, w1)
      | (None, h1, w1) \<Rightarrow>
          if F (files w1) (OpClose (zpath h)) then (Some (OSErr ErrOther), h1, w1)
          else (None, h1, remove_quiet F (zsav h) w1))"

definition cancel :: "zipenv \<Rightarrow> faults \<Rightarrow> int \<Rightarrow> zipw \<Rightarrow> 'a world_scheme \<Rightarrow> 'a world_scheme" where
  "cancel Z F now h w =
     (case zip_close Z F now h w of (_, _, w1) \<Rightarrow>
        restore_sav F (zsav h) (zpath h) (remove_quiet F (zpath h) w1))"

subsection \<open>Recovery\<close>

definition node_size :: "node \<Rightarrow> int" where
  "node_size n = (case n of File c _ \<Rightarrow> int (length c) | Directory \<Rightarrow> 4096)"

definition recover_entry :: "faults \<Rightarrow> string \<Rightarrow> string \<Rightarrow> 'a world_scheme \<Rightarrow> 'a world_scheme" where
  "recover_entry F backupDir name w =
     (let base = TrimSuffix name ''.sav'';
          savPath = Join backupDir name;
          zipPath = Join backupDir (base @ ''.zip'')
      in case Stat F (files w) savPath of
           Inl _ \<Rightarrow> w
         | Inr savInfo \<Rightarrow>
             (case Stat F (files w) zipPath of
                Inl ErrNotExist \<Rightarrow>
                  (case Rename F (files w) savPath zipPath of
                     Inl _ \<Rightarrow> log_msg WARN ''log.warn.recover_sav_rename'' [name, base @ ''.zip''] w
                   | Inr f \<Rightarrow> log_msg INFO ''log.msg.recovered'' [base @ ''.zip''] (w\<lparr>files := f\<rparr>))
              | Inl _ \<Rightarrow> w
              | Inr zipInfo \<Rightarrow>
                  if node_size zipInfo \<le> node_size savInfo then
                    (case Remove F (files w) zipPath of
                       Inl _ \<Rightarrow> log_msg WARN ''log.warn.recover_sav_remove'' [base @ ''.zip''] w
                     | Inr f \<Rightarrow>
                         let w1 = w\<lparr>files := f\<rparr> in
                         (case Rename F f savPath zipPath of
                            Inl _ \<Rightarrow> log_msg WARN ''log.warn.recover_sav_rename2'' [name, base @ ''.zip''] w1
                          | Inr f' \<Rightarrow> log_msg INFO ''log.msg.recovered_larger'' [base @ ''.zip''] (w1\<lparr>files := f'\<rparr>)))
                  else
                    (case Remove F (files w) savPath of
                       Inl _ \<Rightarrow> log_msg WARN ''log.warn.recover_sav_remove'' [name] w
                     | Inr f \<Rightarrow> log_msg INFO ''log.msg.removed_sav'' [name] (w\<lparr>files := f\<rparr>))))"

fun recover_loop :: "faults \<Rightarrow> string \<Rightarrow> (string \<times> node) list \<Rightarrow> 'a world_scheme \<Rightarrow> 'a world_scheme" where
  "recover_loop F dir [] w = w"
| "recover_loop F dir ((name, n) # es) w =
     (if n = Directory \<or> \<not> HasSuffix name ''.sav'' then recover_loop F dir es w
      else recover_loop F dir es (recover_entry F dir name w))"

definition recoverSavFiles :: "faults \<Rightarrow> string \<Rightarrow> 'a world_scheme \<Rightarrow> 'a world_scheme" where
  "recoverSavFiles F backupDir w =
     (case ReadDir F (files w) backupDir of
        Inl _ \<Rightarrow> log_msg WARN ''log.warn.recover_sav_read'' [] w
      | Inr es \<Rightarrow> recover_loop F backupDir es w)"

subsection \<open>The backup of all databases\<close>

definition zipName_of :: "date \<Rightarrow> string \<Rightarrow> string \<Rightarrow> string" where
  "zipName_of today hostPart db = ''mysql_backup_'' @ Format today @ ''_'' @ hostPart @ ''_'' @ db @ ''.zip''"

text \<open>The three writes that append the block of users; the first that fails ends them.\<close>

fun write_all ::
  "zipenv \<Rightarrow> faults \<Rightarrow> int \<Rightarrow> bytes list \<Rightarrow> zipw \<Rightarrow> 'a world_scheme \<Rightarrow> oserr option \<times> zipw \<times> 'a world_scheme"
where
  "write_all Z F now [] h w = (None, h, w)"
| "write_all Z F now (d # ds) h w =
     (case entry_write Z F now h d w of
        (Some e, h', w') \<Rightarrow> (Some e, h', w')
      | (None, h', w') \<Rightarrow> write_all Z F now ds h' w')"

definition user_writes :: "string \<Rightarrow> bytes list" where
  "user_writes userBlock =
     (if userBlock \<noteq> [] then [[NL, NL], userBlock, [NL, NL] @ ''FLUSH PRIVILEGES;'' @ [NL]] else [])"

text \<open>The body of the loop over the databases: an error, or the path of the new file.\<close>

definition backup_db ::
  "extenv \<Rightarrow> zipenv \<Rightarrow> faults \<Rightarrow> int \<Rightarrow> Conn \<Rightarrow> bool \<Rightarrow> string \<Rightarrow> date \<Rightarrow> string \<Rightarrow> (string \<rightharpoonup> string) \<Rightarrow> string
     \<Rightarrow> 'a sysworld_scheme \<Rightarrow> (goerr, string) result \<times> 'a sysworld_scheme"
where
  "backup_db X Z F now conn isMariaDB backupDir today hostPart dbToUserSQL db w =
     (let zipName = zipName_of today hostPart db;
          zipPath = Join backupDir zipName
      in case safeWriteZIPStreaming Z F now zipPath (db @ ''.sql'') w of
           (Inl e, w1) \<Rightarrow> (Inl (Err ''err.zip_db'' [db] (Some e)), w1)
         | (Inr h, w1) \<Rightarrow>
             (case DumpDatabase X conn db isMariaDB (entry_write Z F now h) w1 of
                (Some e, h2, w2) \<Rightarrow> (Inl (Err ''err.dump_db'' [db] (Some e)), cancel Z F now h2 w2)
              | (None, h2, w2) \<Rightarrow>
                  let w3 = log_msg INFO ''log.msg.dumped_db'' [db] w2;
                      userBlock = (case dbToUserSQL db of None \<Rightarrow> [] | Some s \<Rightarrow> s)
                  in (case write_all Z F now (user_writes userBlock) h2 w3 of
                        (Some e, h4, w4) \<Rightarrow>
                          (Inl (Err ''err.zip_user_block'' [db] (Some (OSErr e))), cancel Z F now h4 w4)
                      | (None, h4, w4) \<Rightarrow>
                          (case finish Z F now h4 w4 of
                             (Some e, h5, w5) \<Rightarrow> (Inl (Err ''err.zip_db'' [db] (Some e)), cancel Z F now h5 w5)
                           | (None, h5, w5) \<Rightarrow> (Inr zipPath, log_msg INFO ''log.msg.created_zip'' [zipName] w5)))))"

fun backup_dbs ::
  "(string \<Rightarrow> 'a sysworld_scheme \<Rightarrow> (goerr, string) result \<times> 'a sysworld_scheme) \<Rightarrow> string list \<Rightarrow> string list
     \<Rightarrow> 'a sysworld_scheme \<Rightarrow> (goerr, string list) result \<times> 'a sysworld_scheme"
where
  "backup_dbs body [] created w = (Inr created, w)"
| "backup_dbs body (db # rest) created w =
     (case body db w of
        (Inl e, w1) \<Rightarrow> (Inl e, w1)
      | (Inr p, w1) \<Rightarrow> backup_dbs body rest (created @ [p]) w1)"

definition log_warnings :: "logline list \<Rightarrow> 'a world_scheme \<Rightarrow> 'a world_scheme" where
  "log_warnings ls w = w\<lparr>logs := logs w @ ls\<rparr>"

text \<open>\<open>Run\<close>; \<open>today\<close> and \<open>now\<close> are the date and the time of the run.\<close>

definition Run ::
  "extenv \<Rightarrow> zipenv \<Rightarrow> faults \<Rightarrow> map_order \<Rightarrow> int \<Rightarrow> date \<Rightarrow> Config \<Rightarrow> Conn \<Rightarrow> bytes \<Rightarrow> string list \<Rightarrow> bool
     \<Rightarrow> 'a sysworld_scheme \<Rightarrow> (goerr, string list) result \<times> 'a sysworld_scheme"
where
  "Run X Z F ord now today cfg conn userSQL names isMariaDB w =
     (let backupDir = FromSlash (BackupDir cfg) in
      case MkdirAll F (files w) backupDir of
        Inl e \<Rightarrow> (Inl (Err ''err.create_backup_dir'' [] (Some (OSErr e))), w)
      | Inr f \<Rightarrow>
          let w1 = recoverSavFiles F backupDir (w\<lparr>files := f\<rparr>);
              hostPart = hostnameForFile (HostnameForBackup cfg);
              p = ParseUserSQL ord userSQL;
              w2 = log_warnings (warnings p) w1;
              w3 = (if userNames p \<noteq> []
                    then log_msg INFO ''log.msg.users_found''
                           [Itoa (int (length (userNames p))), strings_Join (userNames p) '', ''] w2
                    else w2)
          in backup_dbs (backup_db X Z F now conn isMariaDB backupDir today hostPart (dbToSQL p)) names [] w3)"

subsection \<open>The calls as updates\<close>

abbreviation look :: "'a world_scheme \<Rightarrow> string \<rightharpoonup> node" where
  "look w \<equiv> map_of (files w)"

lemma look_put_file [simp]: "look (put_file p c now w) = (look w)(p \<mapsto> File c now)"
  by (simp add: put_file_def)

lemma look_log_msg [simp]: "look (log_msg l k a w) = look w"
  by (simp add: log_msg_def)

lemma look_remove_quiet: "look (remove_quiet F p w) = look w \<or> look (remove_quiet F p w) = (look w)(p := None)"
  by (auto simp: remove_quiet_def Remove_def split: option.splits node.splits if_splits)

lemma look_remove_quiet_ok:
  "\<not> F (files w) (OpRemove p) \<Longrightarrow> look w p \<noteq> Some Directory \<Longrightarrow> look (remove_quiet F p w) = (look w)(p := None)"
  by (auto simp: remove_quiet_def Remove_def fun_upd_None_id split: option.splits node.splits)

text \<open>Putting the \<open>.sav\<close> file back, with a fault or without.\<close>

definition moved :: "string \<Rightarrow> string \<Rightarrow> (string \<rightharpoonup> node) \<Rightarrow> (string \<rightharpoonup> node)" where
  "moved a b m = (case m a of None \<Rightarrow> m | Some n \<Rightarrow> m(a := None, b \<mapsto> n))"

lemma look_restore:
  assumes "a \<noteq> b" "look w a \<noteq> Some Directory"
  shows "look (restore_sav F a b w) = look w \<or> look (restore_sav F a b w) = moved a b (look w)"
    "look (restore_sav_quiet F a b w) = look w \<or> look (restore_sav_quiet F a b w) = moved a b (look w)"
  using assms
  by (auto simp: restore_sav_def restore_sav_quiet_def moved_def Stat_def Rename_def split: option.splits node.splits if_splits)

lemma look_restore_ok:
  assumes "a \<noteq> b" "look w a \<noteq> Some Directory" "look w b \<noteq> Some Directory"
    and "\<not> F (files w) (OpStat a)" "\<not> F (files w) (OpRename a b)"
  shows "look (restore_sav F a b w) = moved a b (look w)" "look (restore_sav_quiet F a b w) = moved a b (look w)"
  using assms
  by (auto simp: restore_sav_def restore_sav_quiet_def moved_def Stat_def Rename_def split: option.splits node.splits)

text \<open>Only the file of the writer changes while it is written.\<close>

definition writes_to :: "string \<Rightarrow> (string \<rightharpoonup> node) \<Rightarrow> (string \<rightharpoonup> node) \<Rightarrow> bool" where
  "writes_to p m m' \<longleftrightarrow> (\<forall>q. q \<noteq> p \<longrightarrow> m' q = m q) \<and> (m' p = m p \<or> (\<exists>c t. m' p = Some (File c t)))"

lemma writes_to_refl [simp]: "writes_to p m m"
  by (simp add: writes_to_def)

lemma writes_to_upd [simp]: "writes_to p m (m(p \<mapsto> File c t))"
  by (auto simp: writes_to_def)

lemma writes_to_trans: "writes_to p m1 m2 \<Longrightarrow> writes_to p m2 m3 \<Longrightarrow> writes_to p m1 m3"
  by (auto simp: writes_to_def)

lemma writes_to_other: "writes_to p m m' \<Longrightarrow> q \<noteq> p \<Longrightarrow> m' q = m q"
  by (simp add: writes_to_def)

lemma writes_to_File: "writes_to p m m' \<Longrightarrow> m p \<noteq> Some Directory \<Longrightarrow> m' p \<noteq> Some Directory"
  by (auto simp: writes_to_def)

lemma entry_write_look:
  assumes "entry_write Z F now h d w = (e, h', w')"
  shows "writes_to (zpath h) (look w) (look w')" "zpath h' = zpath h" "zsav h' = zsav h" "zentry h' = zentry h"
    "e = None \<Longrightarrow> zdata h' = zdata h @ d \<and> zclosed h' = zclosed h \<and> \<not> zbroken h'
       \<and> look w' = (look w)(zpath h \<mapsto> File (zip_partial Z (zentry h) (zdata h @ d)) now)"
  using assms by (auto simp: entry_write_def Let_def split: if_splits)

lemma entry_write_trace: "entry_write Z F now h d w = (e, h', w') \<Longrightarrow> trace w' = trace w"
  by (auto simp: entry_write_def Let_def put_file_def split: if_splits)

lemma write_all_look:
  assumes "write_all Z F now ds h w = (e, h', w')"
  shows "writes_to (zpath h) (look w) (look w')" "zpath h' = zpath h" "zsav h' = zsav h" "zentry h' = zentry h"
    "e = None \<Longrightarrow> zdata h' = zdata h @ concat ds \<and> zclosed h' = zclosed h \<and> (\<not> zbroken h \<longrightarrow> \<not> zbroken h')"
proof -
  have "writes_to (zpath h) (look w) (look w') \<and> zpath h' = zpath h \<and> zsav h' = zsav h \<and> zentry h' = zentry h
    \<and> (e = None \<longrightarrow> zdata h' = zdata h @ concat ds \<and> zclosed h' = zclosed h \<and> (\<not> zbroken h \<longrightarrow> \<not> zbroken h'))"
    using assms
  proof (induction ds arbitrary: h w)
    case (Cons d ds)
    obtain e1 h1 w1 where 1: "entry_write Z F now h d w = (e1, h1, w1)" by (cases "entry_write Z F now h d w") auto
    note E = entry_write_look [OF 1]
    show ?case
    proof (cases e1)
      case None
      with Cons.prems 1 have "write_all Z F now ds h1 w1 = (e, h', w')" by simp
      note IH = Cons.IH [OF this]
      have "writes_to (zpath h) (look w) (look w')" using writes_to_trans [OF E(1), of "look w'"] IH E(2) by simp
      with IH E None show ?thesis by simp
    next
      case (Some x)
      with Cons.prems 1 E show ?thesis by auto
    qed
  qed auto
  then show "writes_to (zpath h) (look w) (look w')" "zpath h' = zpath h" "zsav h' = zsav h" "zentry h' = zentry h"
    "e = None \<Longrightarrow> zdata h' = zdata h @ concat ds \<and> zclosed h' = zclosed h \<and> (\<not> zbroken h \<longrightarrow> \<not> zbroken h')"
    by blast+
qed

lemma zip_close_look:
  assumes "zip_close Z F now h w = (e, h', w')"
  shows "writes_to (zpath h) (look w) (look w')" "zpath h' = zpath h" "zsav h' = zsav h"
    "e = None \<Longrightarrow> look w' = (look w)(zpath h \<mapsto> File (zip_final Z (zentry h) (zdata h)) now)"
  using assms by (auto simp: zip_close_def Let_def split: if_splits)

lemma finish_look:
  assumes "finish Z F now h w = (e, h', w')"
  shows "e \<noteq> None \<Longrightarrow> writes_to (zpath h) (look w) (look w')" "zpath h' = zpath h" "zsav h' = zsav h"
    "e = None \<Longrightarrow> \<exists>m. m = (look w)(zpath h \<mapsto> File (zip_final Z (zentry h) (zdata h)) now)
        \<and> (look w' = m \<or> look w' = m(zsav h := None))
        \<and> (zsav h \<noteq> zpath h \<longrightarrow> look w (zsav h) \<noteq> Some Directory \<longrightarrow> (\<forall>f. \<not> F f (OpRemove (zsav h))) \<longrightarrow> look w' = m(zsav h := None))"
proof -
  obtain e1 h1 w1 where 1: "zip_close Z F now h w = (e1, h1, w1)" by (cases "zip_close Z F now h w") auto
  note C = zip_close_look [OF 1]
  show "e \<noteq> None \<Longrightarrow> writes_to (zpath h) (look w) (look w')" "zpath h' = zpath h" "zsav h' = zsav h"
    using assms 1 C by (auto simp: finish_def split: option.splits if_splits)
  show "\<exists>m. m = (look w)(zpath h \<mapsto> File (zip_final Z (zentry h) (zdata h)) now)
        \<and> (look w' = m \<or> look w' = m(zsav h := None))
        \<and> (zsav h \<noteq> zpath h \<longrightarrow> look w (zsav h) \<noteq> Some Directory \<longrightarrow> (\<forall>f. \<not> F f (OpRemove (zsav h))) \<longrightarrow> look w' = m(zsav h := None))"
    if "e = None"
  proof -
    from assms 1 that have e1: "e1 = None" and w': "w' = remove_quiet F (zsav h) w1"
      by (auto simp: finish_def split: option.splits if_splits)
    note L = C(4) [OF e1]
    show ?thesis
      using look_remove_quiet [of F "zsav h" w1] look_remove_quiet_ok [of F w1 "zsav h"]
      unfolding w' L by auto
  qed
qed

subsection \<open>Opening and giving up\<close>

text \<open>The calls that check for, move and remove files work.\<close>

definition cleanup_ok :: "faults \<Rightarrow> bool" where
  "cleanup_ok F \<longleftrightarrow> (\<forall>f p. \<not> F f (OpStat p) \<and> \<not> F f (OpRemove p)) \<and> (\<forall>f a b. \<not> F f (OpRename a b))"

definition opened :: "string \<Rightarrow> string \<Rightarrow> (string \<rightharpoonup> node) \<Rightarrow> (string \<rightharpoonup> node)" where
  "opened zp sav m = (if m zp = None then m else m(zp := None, sav := m zp))"

lemma rename_to_sav:
  assumes "sav \<noteq> zp" "\<not> F f (OpStat zp)" "map_of f zp \<noteq> Some Directory"
    and "(case Stat F f zp of Inr _ \<Rightarrow> Rename F f zp sav | Inl _ \<Rightarrow> Inr f) = Inr f1"
  shows "map_of f1 = opened zp sav (map_of f)"
proof (cases "map_of f zp")
  case None
  with assms show ?thesis by (simp add: Stat_ok opened_def)
next
  case (Some n)
  with assms(3) obtain c t where n: "n = File c t" by (cases n) auto
  with Some assms show ?thesis
    by (auto simp: Stat_ok opened_def Rename_File_iff [of f zp c t] split: if_splits)
qed

lemma open_cases:
  assumes "safeWriteZIPStreaming Z F now zp en w = (r, w')" "sav = savPath_of zp" "sav \<noteq> zp"
    and "\<not> F (files w) (OpStat zp)" "look w zp \<noteq> Some Directory"
  obtains
    (rename) e where "r = Inl e" "w' = w" "F (files w) (OpRename zp sav) \<or> look w sav = Some Directory"
  | (error) e w1 where "r = Inl e" "look w1 = opened zp sav (look w)" "w' = restore_sav_quiet F sav zp w1"
  | (entry) e w1 where "r = Inl e" "look w1 = (opened zp sav (look w))(zp \<mapsto> File [] now)"
      "w' = restore_sav_quiet F sav zp (remove_quiet F zp w1)"
  | (ready) "r = Inr \<lparr>zpath = zp, zsav = sav, zentry = en, zdata = [], zclosed = False, zbroken = False\<rparr>"
      "look w' = (opened zp sav (look w))(zp \<mapsto> File (zip_partial Z en []) now)"
proof -
  let ?r = "case Stat F (files w) zp of Inr _ \<Rightarrow> Rename F (files w) zp sav | Inl _ \<Rightarrow> Inr (files w)"
  show thesis
  proof (cases ?r)
    case (Inl e)
    with assms have "look w zp \<noteq> None" by (auto simp: Stat_ok split: option.splits)
    with assms(5) obtain c t where "look w zp = Some (File c t)" by (metis node.exhaust not_Some_eq)
    with Inl assms have "F (files w) (OpRename zp sav) \<or> look w sav = Some Directory"
      by (auto simp: Stat_ok Rename_File_iff split: if_splits)
    with Inl assms show thesis by (intro rename) (auto simp: safeWriteZIPStreaming_def Let_def)
  next
    case (Inr f1)
    note m1 = rename_to_sav [OF assms(3-5) Inr]
    show thesis
    proof (cases "Create F f1 zp now")
      case (Inl e)
      with Inr assms(1,2) m1 show thesis
        by (intro error [of "OSErr e" "w\<lparr>files := f1\<rparr>"]) (auto simp: safeWriteZIPStreaming_def Let_def)
    next
      case c: (Inr f2)
      have m2: "map_of f2 = (opened zp sav (look w))(zp \<mapsto> File [] now)" using Create_Inr [OF c] m1 by simp
      show thesis
      proof (cases "F f2 (OpZipCreate zp)")
        case True
        with Inr c assms(1,2) m2 show thesis
          by (intro entry [of "OSErr ErrOther" "w\<lparr>files := f2\<rparr>"]) (auto simp: safeWriteZIPStreaming_def Let_def)
      next
        case False
        with Inr c assms(1,2) m2 show thesis
          by (intro ready) (auto simp: safeWriteZIPStreaming_def Let_def)
      qed
    qed
  qed
qed

lemma opened_simps [simp]:
  "sav \<noteq> zp \<Longrightarrow> opened zp sav m zp = None"
  "sav \<noteq> zp \<Longrightarrow> m zp \<noteq> None \<Longrightarrow> opened zp sav m sav = m zp"
  "q \<noteq> zp \<Longrightarrow> q \<noteq> sav \<Longrightarrow> opened zp sav m q = m q"
  by (auto simp: opened_def)

lemma moved_opened:
  assumes "sav \<noteq> zp" "m sav = None" shows "moved sav zp (opened zp sav m) = m"
  using assms by (cases "m zp") (auto simp: moved_def opened_def fun_eq_iff)

lemma moved_keeps: "a \<noteq> b \<Longrightarrow> m a = Some n \<Longrightarrow> moved a b m b = Some n"
  by (simp add: moved_def)

text \<open>What giving up does: all of it where the calls work, and never losing the \<open>.sav\<close> file.\<close>

lemma cancel_look:
  assumes "zsav h \<noteq> zpath h" "look w (zsav h) \<noteq> Some Directory" "look w (zpath h) \<noteq> Some Directory"
  shows "look w (zsav h) = Some n \<Longrightarrow> look (cancel Z F now h w) (zpath h) = Some n \<or> look (cancel Z F now h w) (zsav h) = Some n"
    "cleanup_ok F \<Longrightarrow> look (cancel Z F now h w) = moved (zsav h) (zpath h) ((look w)(zpath h := None))"
proof -
  obtain e h1 w1 where 1: "zip_close Z F now h w = (e, h1, w1)" by (cases "zip_close Z F now h w") auto
  note C = zip_close_look(1) [OF 1]
  define w2 where "w2 = remove_quiet F (zpath h) w1"
  have cancel: "cancel Z F now h w = restore_sav F (zsav h) (zpath h) w2" using 1 by (simp add: cancel_def w2_def)
  have s: "look w2 (zsav h) = look w (zsav h)"
    using look_remove_quiet [of F "zpath h" w1] writes_to_other [OF C assms(1)] assms(1) by (auto simp: w2_def)
  have d: "look w1 (zpath h) \<noteq> Some Directory" using writes_to_File [OF C] assms(3) by simp
  show "look (cancel Z F now h w) (zpath h) = Some n \<or> look (cancel Z F now h w) (zsav h) = Some n"
    if "look w (zsav h) = Some n"
    using look_restore(1) [of "zsav h" "zpath h" w2 F] assms s that moved_keeps [of "zsav h" "zpath h" "look w2" n]
    unfolding cancel by auto
  show "look (cancel Z F now h w) = moved (zsav h) (zpath h) ((look w)(zpath h := None))" if "cleanup_ok F"
  proof -
    have "look w2 = (look w1)(zpath h := None)"
      using that d by (simp add: w2_def look_remove_quiet_ok cleanup_ok_def)
    also have "\<dots> = (look w)(zpath h := None)"
      using writes_to_other [OF C] by (auto simp: fun_eq_iff)
    finally have L: "look w2 = (look w)(zpath h := None)" .
    have "look w2 (zsav h) \<noteq> Some Directory" "look w2 (zpath h) \<noteq> Some Directory" using assms by (simp_all add: L)
    with that assms(1) show ?thesis
      unfolding cancel L [symmetric] by (intro look_restore_ok(1)) (auto simp: cleanup_ok_def)
  qed
qed

subsection \<open>The backup of one database\<close>

lemma DumpDatabase_simp:
  "DumpDatabase X c db m dest w =
     (let r = process X (trace w @ [Exec (binPath c ''mysqldump'') (dump_args c db m) []]) in
      case dest (stdout r) (emit (Exec (binPath c ''mysqldump'') (dump_args c db m) []) w) of (e, h, w2) \<Rightarrow>
        (if status r \<noteq> ExitOK then Some (Err ''err.mysqldump_db'' [db, stderr r] (Some (ExitErr (status r))))
         else (case e of Some e' \<Rightarrow> Some (Err ''err.mysqldump_db'' [db, stderr r] (Some (OSErr e'))) | None \<Rightarrow> None), h, w2))"
  by (simp add: DumpDatabase_def run_cmd_def Let_def)

definition dump_reply :: "extenv \<Rightarrow> Conn \<Rightarrow> bool \<Rightarrow> string \<Rightarrow> event list \<Rightarrow> reply" where
  "dump_reply X conn isMariaDB db tr = process X (tr @ [Exec (binPath conn ''mysqldump'') (dump_args conn db isMariaDB) []])"

lemma open_trace: "safeWriteZIPStreaming Z F now zp en w = (r, w') \<Longrightarrow> trace w' = trace w"
  by (auto simp: safeWriteZIPStreaming_def Let_def restore_sav_quiet_def remove_quiet_def put_file_def
      split: sum.splits if_splits)

lemma write_all_trace: "write_all Z F now ds h w = (e, h', w') \<Longrightarrow> trace w' = trace w"
proof (induction ds arbitrary: h w)
  case (Cons d ds)
  obtain e1 h1 w1 where 1: "entry_write Z F now h d w = (e1, h1, w1)" by (cases "entry_write Z F now h d w")
  then show ?case using entry_write_trace [OF 1] Cons by (cases e1) auto
qed simp

lemma quiet_trace [simp]: "trace (remove_quiet F p w) = trace w" "trace (restore_sav F p q w) = trace w"
  by (simp_all add: remove_quiet_def restore_sav_def split: sum.split)

lemma zip_close_trace: "zip_close Z F now h w = (e, h', w') \<Longrightarrow> trace w' = trace w"
  by (auto simp: zip_close_def put_file_def Let_def split: if_splits)

lemma finish_trace: "finish Z F now h w = (e, h', w') \<Longrightarrow> trace w' = trace w"
  by (auto simp: finish_def dest!: zip_close_trace split: if_splits option.splits prod.splits)

lemma cancel_trace: "trace (cancel Z F now h w) = trace w"
  by (cases "zip_close Z F now h w") (auto simp: cancel_def dest: zip_close_trace)

text \<open>How the backup of a database ends: it cannot open the file, it gives up, or it succeeds.\<close>

lemma backup_db_cases:
  fixes w :: "'a sysworld_scheme"
  assumes "backup_db X Z F now conn m dir today host us db w = (r, w')"
  obtains
    (unopened) e e' where "safeWriteZIPStreaming Z F now (Join dir (zipName_of today host db)) (db @ ''.sql'') w = (Inl e, w')"
      "r = Inl e'"
  | (giveup) e h w1 h2 w2
    where "safeWriteZIPStreaming Z F now (Join dir (zipName_of today host db)) (db @ ''.sql'') w = (Inr h, w1)"
      "r = Inl e" "zpath h2 = zpath h" "zsav h2 = zsav h" "writes_to (zpath h) (look w1) (look w2)"
      "w' = cancel Z F now h2 w2"
  | (success) h w1 h4 and w4 :: "'a sysworld_scheme" and h5 w5
    where "safeWriteZIPStreaming Z F now (Join dir (zipName_of today host db)) (db @ ''.sql'') w = (Inr h, w1)"
      "r = Inr (Join dir (zipName_of today host db))" "zpath h4 = zpath h" "zsav h4 = zsav h" "zentry h4 = zentry h"
      "status (dump_reply X conn m db (trace w)) = ExitOK"
      "zdata h4 = zdata h @ stdout (dump_reply X conn m db (trace w)) @ concat (user_writes (case us db of None \<Rightarrow> [] | Some s \<Rightarrow> s))"
      "writes_to (zpath h) (look w1) (look w4)" "finish Z F now h4 w4 = (None, h5, w5)" "look w' = look w5"
      "trace w' = trace w @ [Exec (binPath conn ''mysqldump'') (dump_args conn db m) []]"
proof -
  let ?zp = "Join dir (zipName_of today host db)"
  let ?e = "Exec (binPath conn ''mysqldump'') (dump_args conn db m) []"
  let ?r = "dump_reply X conn m db (trace w)"
  obtain ro w1 where o: "safeWriteZIPStreaming Z F now ?zp (db @ ''.sql'') w = (ro, w1)"
    by (cases "safeWriteZIPStreaming Z F now ?zp (db @ ''.sql'') w") auto
  show thesis
  proof (cases ro)
    case (Inl e)
    with assms o unopened show thesis by (auto simp: backup_db_def Let_def)
  next
    case (Inr h)
    have tr: "process X (trace w1 @ [?e]) = ?r" using open_trace [OF o] by (simp add: dump_reply_def)
    obtain e2 h2 w2 where d: "entry_write Z F now h (stdout ?r) (emit ?e w1) = (e2, h2, w2)"
      by (cases "entry_write Z F now h (stdout ?r) (emit ?e w1)") auto
    note E = entry_write_look [OF d]
    have W2: "writes_to (zpath h) (look w1) (look w2)" using E(1) by simp
    obtain de where D: "DumpDatabase X conn db m (entry_write Z F now h) w1 = (de, h2, w2)"
      and de: "de = None \<longleftrightarrow> e2 = None \<and> status ?r = ExitOK"
      using d tr by (cases e2; cases "status ?r = ExitOK") (simp_all add: DumpDatabase_simp Let_def)
    show thesis
    proof (cases "e2 = None \<and> status ?r = ExitOK")
      case False
      with de obtain e where "de = Some e" by auto
      with assms o Inr D have "r = Inl (Err ''err.dump_db'' [db] (Some e))" "w' = cancel Z F now h2 w2"
        by (auto simp: backup_db_def Let_def)
      with o Inr E W2 show thesis using giveup [of h w1 _ h2 w2] by simp
    next
      case True
      define w3 where "w3 = log_msg INFO ''log.msg.dumped_db'' [db] w2"
      define ub where "ub = (case us db of None \<Rightarrow> [] | Some s \<Rightarrow> s)"
      obtain e4 h4 w4 where wa: "write_all Z F now (user_writes ub) h2 w3 = (e4, h4, w4)"
        by (cases "write_all Z F now (user_writes ub) h2 w3") auto
      note A = write_all_look [OF wa]
      have W4: "writes_to (zpath h) (look w1) (look w4)"
        using writes_to_trans [OF W2] A(1) E(2) by (simp add: w3_def)
      obtain e5 h5 w5 where f: "finish Z F now h4 w4 = (e5, h5, w5)" by (cases "finish Z F now h4 w4") auto
      note Fi = finish_look [OF f]
      have tr': "trace w5 = trace w @ [?e]"
        using finish_trace [OF f] write_all_trace [OF wa] entry_write_trace [OF d] open_trace [OF o] by (simp add: w3_def)
      have W5: "e5 \<noteq> None \<Longrightarrow> writes_to (zpath h) (look w1) (look w5)"
        using writes_to_trans [OF W4] Fi(1) A(2) E(2) by simp
      have B: "backup_db X Z F now conn m dir today host us db w =
        (case e4 of Some e \<Rightarrow> (Inl (Err ''err.zip_user_block'' [db] (Some (OSErr e))), cancel Z F now h4 w4)
         | None \<Rightarrow> (case e5 of Some e \<Rightarrow> (Inl (Err ''err.zip_db'' [db] (Some e)), cancel Z F now h5 w5)
            | None \<Rightarrow> (Inr ?zp, log_msg INFO ''log.msg.created_zip'' [zipName_of today host db] w5)))"
        using o Inr D de True wa f
        by (simp add: backup_db_def Let_def w3_def [symmetric] ub_def [symmetric] split: option.split)
      show thesis
      proof (cases e4)
        case (Some e)
        with B assms show thesis
          using giveup [of h w1 _ h4 w4] o Inr A(2,3) E(2,3) W4 by auto
      next
        case None
        show thesis
        proof (cases e5)
          case (Some e)
          with B assms None show thesis
            using giveup [of h w1 _ h5 w5] o Inr A(2,3) E(2,3) Fi(2,3) W5 by auto
        next
          case n: None
          with B assms None show thesis
            using success [of h w1 h4 w4 h5 w5] o Inr A(2-5) E(2-5) W4 f True tr' by (auto simp: ub_def)
        qed
      qed
    qed
  qed
qed

lemma savPath_neq [simp]: "savPath_of p \<noteq> p" "p \<noteq> savPath_of p"
proof -
  show "savPath_of p \<noteq> p"
  proof (cases "HasSuffix p ''.zip''")
    case True
    then obtain a where p: "p = a @ ''.zip''" by (auto simp: HasSuffix_iff)
    then show ?thesis unfolding savPath_of_def p by simp
  qed (simp add: savPath_of_def TrimSuffix_def)
  then show "p \<noteq> savPath_of p" by metis
qed

lemma backup_db_error_keeps:
  assumes "backup_db X Z F now conn m dir today host us db w = (Inl e, w')"
    and "zp = Join dir (zipName_of today host db)" "sav = savPath_of zp"
    and "\<not> F (files w) (OpStat zp)" "look w zp = Some (File c t)" "look w sav \<noteq> Some Directory"
  shows "look w' zp = Some (File c t) \<or> look w' sav = Some (File c t)"
  using assms(1)
proof (cases rule: backup_db_cases)
  case (unopened e1)
  note unopened = unopened [folded assms(2)]
  show ?thesis
  proof (rule open_cases [OF unopened(1) assms(3)])
    fix w1 e assume 1: "look w1 = opened zp sav (look w)" and w': "w' = restore_sav_quiet F sav zp w1"
    have "look w1 sav = Some (File c t)" using 1 assms by simp
    with look_restore(2) [of sav zp w1 F] moved_keeps [of sav zp "look w1"] show ?thesis
      unfolding w' using assms(3) by auto
  next
    fix w1 e assume 1: "look w1 = (opened zp sav (look w))(zp \<mapsto> File [] now)"
      and w': "w' = restore_sav_quiet F sav zp (remove_quiet F zp w1)"
    have "look (remove_quiet F zp w1) sav = Some (File c t)"
      using 1 assms look_remove_quiet [of F zp w1] by auto
    with look_restore(2) [of sav zp "remove_quiet F zp w1" F] moved_keeps [of sav zp "look (remove_quiet F zp w1)"]
    show ?thesis unfolding w' using assms(3) by auto
  qed (use assms in auto)
next
  case (giveup e1 h w1 h2 w2)
  note giveup = giveup [folded assms(2)]
  show ?thesis
  proof (rule open_cases [OF giveup(1) assms(3)])
    assume "Inr h = Inr \<lparr>zpath = zp, zsav = sav, zentry = db @ ''.sql'', zdata = [], zclosed = False, zbroken = False\<rparr>"
      and 1: "look w1 = (opened zp sav (look w))(zp \<mapsto> File (zip_partial Z (db @ ''.sql'') []) now)"
    then have h: "zpath h = zp" "zsav h = sav" by auto
    have "look w2 sav = Some (File c t)" "look w2 zp \<noteq> Some Directory"
      using writes_to_other [OF giveup(5), of sav] writes_to_File [OF giveup(5)] 1 h assms by auto
    then show ?thesis using cancel_look(1) [of h2 w2 "File c t" Z F now] giveup(3,4,6) h assms(3) by auto
  qed (use assms in auto)
qed simp

lemma backup_db_error_restores:
  assumes "backup_db X Z F now conn m dir today host us db w = (Inl e, w')"
    and "zp = Join dir (zipName_of today host db)" "sav = savPath_of zp"
    and "cleanup_ok F" "look w zp \<noteq> Some Directory" "look w sav = None"
  shows "look w' = look w"
proof -
  have F: "\<not> F (files w) (OpStat zp)" using assms(4) by (simp add: cleanup_ok_def)
  have ok: "\<not> F f (OpStat sav)" "\<not> F f (OpRename sav zp)" "\<not> F f (OpRemove zp)" for f
    using assms(4) by (simp_all add: cleanup_ok_def)
  have undo: "look (restore_sav_quiet F sav zp w1) = look w" if "look w1 = opened zp sav (look w)" for w1
  proof -
    have "look w1 sav \<noteq> Some Directory" using that assms(3,5,6) by (cases "look w zp") (auto simp: opened_def)
    moreover have "look w1 zp = None" using that assms(3) by simp
    ultimately have "look (restore_sav_quiet F sav zp w1) = moved sav zp (look w1)"
      using look_restore_ok(2) [of sav zp w1 F] ok assms(3) by simp
    then show ?thesis using moved_opened [of sav zp "look w"] that assms(3,6) by simp
  qed
  from assms(1) show ?thesis
  proof (cases rule: backup_db_cases)
    case (unopened e1)
    note unopened = unopened [folded assms(2)]
    show ?thesis
    proof (rule open_cases [OF unopened(1) assms(3)])
      fix w1 e assume 1: "look w1 = (opened zp sav (look w))(zp \<mapsto> File [] now)"
        and w': "w' = restore_sav_quiet F sav zp (remove_quiet F zp w1)"
      have "look (remove_quiet F zp w1) = opened zp sav (look w)"
        using look_remove_quiet_ok [of F w1 zp] ok 1 assms(3) by (simp add: fun_upd_None_id)
      from undo [OF this] show ?thesis by (simp add: w')
    qed (use assms F undo in auto)
  next
    case (giveup e1 h w1 h2 w2)
    note giveup = giveup [folded assms(2)]
    show ?thesis
    proof (rule open_cases [OF giveup(1) assms(3)])
      assume "Inr h = Inr \<lparr>zpath = zp, zsav = sav, zentry = db @ ''.sql'', zdata = [], zclosed = False, zbroken = False\<rparr>"
        and 1: "look w1 = (opened zp sav (look w))(zp \<mapsto> File (zip_partial Z (db @ ''.sql'') []) now)"
      then have h: "zpath h = zp" "zsav h = sav" by auto
      have s: "opened zp sav (look w) sav \<noteq> Some Directory"
        using assms(5,6) by (cases "look w zp") (auto simp: opened_def)
      have m: "(look w2)(zp := None) = opened zp sav (look w)"
        using writes_to_other [OF giveup(5)] 1 h assms(3) by (auto simp: fun_eq_iff)
      have "look w2 sav \<noteq> Some Directory" "look w2 zp \<noteq> Some Directory"
        using writes_to_other [OF giveup(5), of sav] writes_to_File [OF giveup(5)] 1 h s assms(3) by auto
      then have "look w' = moved sav zp ((look w2)(zp := None))"
        using cancel_look(2) [of h2 w2 F Z now] giveup(3,4,6) h assms(3,4) by auto
      then show ?thesis using moved_opened [of sav zp "look w"] m assms(3,6) by simp
    qed (use assms F in auto)
  qed simp
qed

lemma backup_db_success:
  assumes "backup_db X Z F now conn m dir today host us db w = (Inr p, w')"
    and "zp = Join dir (zipName_of today host db)" "sav = savPath_of zp"
    and "cleanup_ok F" "look w zp \<noteq> Some Directory" "look w sav \<noteq> Some Directory"
    and "r = dump_reply X conn m db (trace w)"
  shows "p = zp" "status r = ExitOK"
    "look w' = (look w)(zp \<mapsto> File (zip_final Z (db @ ''.sql'')
       (stdout r @ concat (user_writes (case us db of None \<Rightarrow> [] | Some s \<Rightarrow> s)))) now, sav := None)"
    "trace w' = trace w @ [Exec (binPath conn ''mysqldump'') (dump_args conn db m) []]"
proof -
  have F: "\<not> F (files w) (OpStat zp)" using assms(4) by (simp add: cleanup_ok_def)
  from assms(1) have "p = zp \<and> status r = ExitOK \<and> look w' = (look w)(zp \<mapsto> File (zip_final Z (db @ ''.sql'')
       (stdout r @ concat (user_writes (case us db of None \<Rightarrow> [] | Some s \<Rightarrow> s)))) now, sav := None)
       \<and> trace w' = trace w @ [Exec (binPath conn ''mysqldump'') (dump_args conn db m) []]"
  proof (cases rule: backup_db_cases)
    case (success h w1 h4 w4 h5 w5)
    note success = success [folded assms(2,7)]
    show ?thesis
    proof (rule open_cases [OF success(1) assms(3)])
      assume h: "Inr h = Inr \<lparr>zpath = zp, zsav = sav, zentry = db @ ''.sql'', zdata = [], zclosed = False, zbroken = False\<rparr>"
        and 1: "look w1 = (opened zp sav (look w))(zp \<mapsto> File (zip_partial Z (db @ ''.sql'') []) now)"
      have s: "opened zp sav (look w) sav \<noteq> Some Directory"
        using assms(5,6) by (cases "look w zp") (auto simp: opened_def)
      have d: "look w4 sav \<noteq> Some Directory"
        using writes_to_other [OF success(8), of sav] 1 h s assms(3) by auto
      have "look w5 = (look w4)(zp \<mapsto> File (zip_final Z (db @ ''.sql'') (zdata h4)) now, sav := None)"
        using finish_look(4) [OF success(9)] d success(3-5) h assms(3,4) by (auto simp: cleanup_ok_def)
      moreover have "(look w4)(zp \<mapsto> n, sav := None) = (look w)(zp \<mapsto> n, sav := None)" for n
        using writes_to_other [OF success(8)] 1 h assms(3) by (auto simp: fun_eq_iff opened_def split: if_splits)
      ultimately show ?thesis using success(2,6,7,10,11) h by simp
    qed (use assms F in auto)
  qed simp_all
  then show "p = zp" "status r = ExitOK"
    "look w' = (look w)(zp \<mapsto> File (zip_final Z (db @ ''.sql'')
       (stdout r @ concat (user_writes (case us db of None \<Rightarrow> [] | Some s \<Rightarrow> s)))) now, sav := None)"
    "trace w' = trace w @ [Exec (binPath conn ''mysqldump'') (dump_args conn db m) []]" by blast+
qed

subsection \<open>File names\<close>

definition host_char :: "char \<Rightarrow> bool" where
  "host_char c \<longleftrightarrow> (let x = of_char c :: int in
     in_range 48 57 x \<or> in_range 65 90 x \<or> x = 95 \<or> in_range 97 122 x \<or> x = 45 \<or> x = 46)"

lemma replace_hostRe: "list_all host_char (replace_from hostRe ''_'' p s)"
proof (induction "length s" arbitrary: p s rule: less_induct)
  case less
  show ?case
  proof (cases s)
    case Nil
    then show ?thesis by (simp add: replace_from.simps)
  next
    case (Cons c r)
    define x where "x = fst (first_rune s)"
    define v where "v = max 1 (snd (first_rune s))"
    have us: "host_char (CHR ''_'')" by (simp add: host_char_def of_char_def)
    show ?thesis
    proof (cases "in_cls True [(48, 57), (65, 90), (95, 95), (97, 122), (45, 45), (46, 46)] x")
      case True
      then have e: "ends hostRe (p, s, []) = [(p + snd (first_rune s), drop (snd (first_rune s)) s, [])]"
        using Cons by (simp add: hostRe_def step_rune_def x_def case_prod_beta)
      show ?thesis
      proof (cases "length (drop (snd (first_rune s)) s) < length s")
        case True
        with e Cons less [of "drop (snd (first_rune s)) s" "p + snd (first_rune s)"] us show ?thesis
          by (subst replace_from.simps) simp
      next
        case False
        then have "snd (first_rune s) = 0" using Cons by simp
        with first_rune_width [of c r] Cons show ?thesis by simp
      qed
    next
      case False
      then have e: "ends hostRe (p, s, []) = []"
        using Cons by (simp add: hostRe_def step_rune_def x_def case_prod_beta)
      from False have "x < 0x80" by (auto simp: in_cls_def in_range_def)
      then have c: "(of_char c :: int) < 0x80" using first_rune_not_ascii [of c r] Cons by (force simp: x_def)
      then have fr: "first_rune s = (of_char c, 1)" using Cons by (simp add: first_rune_ascii)
      with False have "host_char c" by (auto simp: x_def in_cls_def in_range_def host_char_def Let_def)
      with e fr Cons less [of r "p + 1"] show ?thesis
        by (subst replace_from.simps) simp
    qed
  qed
qed

lemma hostnameForFile_chars: "list_all host_char (hostnameForFile h)"
  by (simp add: hostnameForFile_def ReplaceAllString_def replace_hostRe)

lemma hostnameForFile_no_slash: "slash \<notin> set (hostnameForFile h)"
proof
  assume "slash \<in> set (hostnameForFile h)"
  with hostnameForFile_chars [of h] have "host_char slash" by (auto simp: list_all_iff)
  then show False by (simp add: host_char_def of_char_def in_range_def)
qed

lemma Format_no_slash:
  assumes "valid t" "0 \<le> year t" "year t \<le> 9999" shows "slash \<notin> set (Format t)"
proof
  assume "slash \<in> set (Format t)"
  with Format_digits(2) [OF assms] have "is_digit slash" by (auto simp: list_all_iff)
  then show False by (simp add: is_digit_def of_char_def)
qed

definition db_name :: "string \<Rightarrow> bool" where
  "db_name db \<longleftrightarrow> slash \<notin> set db"

definition date_ok :: "date \<Rightarrow> bool" where
  "date_ok t \<longleftrightarrow> valid t \<and> 0 \<le> year t \<and> year t \<le> 9999"

lemma zipName_entry:
  assumes "date_ok today" "db_name db"
  shows "entry_name (zipName_of today (hostnameForFile h) db)"
  using assms Format_no_slash [of today] hostnameForFile_no_slash [of h]
  by (simp add: zipName_of_def entry_name_def db_name_def date_ok_def)

lemma zipName_date:
  assumes "date_ok today" shows "backup_name_date (zipName_of today host db) = Some today"
  using assms unfolding backup_name_date_iff date_ok_def
  by (auto simp: zipName_of_def backupPrefix_def intro: exI [of _ "host @ ''_'' @ db"])

lemma zipName_inj: "zipName_of t host db = zipName_of t host db' \<longleftrightarrow> db = db'"
  by (simp add: zipName_of_def)

lemma Join_suffix:
  assumes "is_clean d" "entry_name (n @ s)" obtains a where "Join d (n @ s) = a @ s"
  using assms Join_entry [of d "n @ s"] that [of n] that [of "slash # n"] that [of "d @ slash # n"]
  by (auto split: if_splits)

text \<open>The two files of a database, by their common stem.\<close>

lemma zip_sav_paths:
  assumes "is_clean dir" "date_ok today" "db_name db"
  obtains a where "Join dir (zipName_of today (hostnameForFile h) db) = a @ ''.zip''"
    "savPath_of (Join dir (zipName_of today (hostnameForFile h) db)) = a @ ''.sav''"
proof -
  obtain n where n: "zipName_of today (hostnameForFile h) db = n @ ''.zip''" by (simp add: zipName_of_def)
  with zipName_entry [OF assms(2,3), of h] have "entry_name (n @ ''.zip'')" by simp
  from Join_suffix [OF assms(1) this] obtain a where a: "Join dir (n @ ''.zip'') = a @ ''.zip''" by blast
  then have "savPath_of (Join dir (n @ ''.zip'')) = a @ ''.sav''" by (simp only: savPath_of_def a TrimSuffix_append)
  with a n that show thesis by simp
qed

subsection \<open>All databases\<close>

text \<open>No directory is named like a backup or a saved backup.\<close>

definition backup_suffix :: "string \<Rightarrow> bool" where
  "backup_suffix p \<longleftrightarrow> HasSuffix p ''.zip'' \<or> HasSuffix p ''.sav''"

definition nodirs :: "(string \<rightharpoonup> node) \<Rightarrow> bool" where
  "nodirs m \<longleftrightarrow> (\<forall>p. backup_suffix p \<longrightarrow> m p \<noteq> Some Directory)"

lemma nodirs_delete [simp]: "nodirs m \<Longrightarrow> nodirs (m(p := None))"
  by (simp add: nodirs_def)

lemma nodirs_File [simp]: "nodirs m \<Longrightarrow> nodirs (m(p \<mapsto> File c t))"
  by (simp add: nodirs_def)

lemma Rename_nodirs:
  "Rename F f a b = Inr f' \<Longrightarrow> nodirs (map_of f) \<Longrightarrow> backup_suffix a \<Longrightarrow> nodirs (map_of f')"
  by (auto simp: Rename_def nodirs_def split: option.splits node.splits if_splits)

lemma Remove_nodirs: "Remove F f p = Inr f' \<Longrightarrow> nodirs (map_of f) \<Longrightarrow> nodirs (map_of f')"
  by (auto simp: Remove_def split: option.splits node.splits if_splits)

lemma recover_entry_nodirs:
  assumes "nodirs (look w)" "is_clean dir" "entry_name name" "HasSuffix name ''.sav''"
  shows "nodirs (look (recover_entry F dir name w))"
proof -
  obtain n where n: "name = n @ ''.sav''" using assms(4) by (auto simp: HasSuffix_iff)
  with assms(2,3) obtain a where "Join dir name = a @ ''.sav''" using Join_suffix [of dir n "''.sav''"] by blast
  then have "backup_suffix (Join dir name)" by (simp add: backup_suffix_def)
  note R = Rename_nodirs [OF _ _ this, of F] and D = Remove_nodirs [of F]
  let ?s = "Join dir name" and ?z = "Join dir (TrimSuffix name ''.sav'' @ ''.zip'')"
  show ?thesis
  proof (cases "Stat F (files w) ?s")
    case (Inl e)
    with assms(1) show ?thesis by (simp add: recover_entry_def Let_def)
  next
    case s: (Inr si)
    show ?thesis
    proof (cases "Stat F (files w) ?z")
      case (Inl e)
      with s assms(1) R show ?thesis
        by (cases e; cases "Rename F (files w) ?s ?z") (simp_all add: recover_entry_def Let_def)
    next
      case z: (Inr zi)
      show ?thesis
      proof (cases "node_size zi \<le> node_size si")
        case True
        show ?thesis
        proof (cases "Remove F (files w) ?z")
          case (Inl e)
          with s z True assms(1) show ?thesis by (simp add: recover_entry_def Let_def)
        next
          case (Inr f)
          note f = D [OF Inr assms(1)]
          with s z True Inr R show ?thesis by (cases "Rename F f ?s ?z") (simp_all add: recover_entry_def Let_def)
        qed
      next
        case False
        with s z assms(1) D show ?thesis
          by (cases "Remove F (files w) ?s") (simp_all add: recover_entry_def Let_def)
      qed
    qed
  qed
qed

lemma recover_loop_nodirs:
  "nodirs (look w) \<Longrightarrow> is_clean dir \<Longrightarrow> \<forall>(n, _) \<in> set es. entry_name n \<Longrightarrow> nodirs (look (recover_loop F dir es w))"
  by (induction F dir es w rule: recover_loop.induct) (auto simp: recover_entry_nodirs)

lemma recoverSavFiles_nodirs:
  assumes "nodirs (look w)" "is_clean dir" shows "nodirs (look (recoverSavFiles F dir w))"
proof (cases "ReadDir F (files w) dir")
  case (Inr es)
  have "\<forall>(n, _) \<in> set es. entry_name n" using set_ReadDir [OF Inr] by (auto simp: entries_iff)
  with Inr assms show ?thesis by (simp add: recoverSavFiles_def recover_loop_nodirs)
qed (use assms in \<open>simp add: recoverSavFiles_def\<close>)

text \<open>
  What a successful run leaves at the path of a database: the archive with the output of a
  \<open>mysqldump\<close> that was run between the events \<open>evs0\<close> and \<open>evs\<close>.
\<close>

definition backed_up ::
  "extenv \<Rightarrow> zipenv \<Rightarrow> event list \<Rightarrow> event list \<Rightarrow> int \<Rightarrow> Conn \<Rightarrow> bool \<Rightarrow> (string \<rightharpoonup> string) \<Rightarrow> string \<Rightarrow> node option \<Rightarrow> bool"
where
  "backed_up X Z evs0 evs now conn m us db n \<longleftrightarrow>
     (\<exists>tr. extends evs0 tr \<and> extends (tr @ [Exec (binPath conn ''mysqldump'') (dump_args conn db m) []]) evs \<and> status (dump_reply X conn m db tr) = ExitOK \<and>
        n = Some (File (zip_final Z (db @ ''.sql'')
          (stdout (dump_reply X conn m db tr) @ concat (user_writes (case us db of None \<Rightarrow> [] | Some s \<Rightarrow> s)))) now))"

lemma backed_up_later:
  "backed_up X Z evs0 evs now conn m us db n \<Longrightarrow> extends evs0' evs0 \<Longrightarrow> extends evs evs' \<Longrightarrow> backed_up X Z evs0' evs' now conn m us db n"
  unfolding backed_up_def using extends_trans by blast

lemma backup_dbs_success:
  assumes "is_clean dir" "date_ok today" "cleanup_ok F"
    and "path = (\<lambda>db. Join dir (zipName_of today (hostnameForFile h) db))"
    and "backup_dbs (backup_db X Z F now conn m dir today (hostnameForFile h) us) names acc w = (Inr created, w')"
    and "distinct names" "\<forall>db \<in> set names. db_name db" "nodirs (look w)"
  shows "created = acc @ map path names \<and> (\<forall>db \<in> set names. backed_up X Z (trace w) (trace w') now conn m us db (look w' (path db)))
    \<and> extends (trace w) (trace w')
    \<and> (\<forall>q. \<not> backup_suffix q \<longrightarrow> look w' q = look w q)
    \<and> (\<forall>db. db_name db \<longrightarrow> db \<notin> set names \<longrightarrow> look w' (path db) = look w (path db))"
  using assms(5-8)
proof (induction names arbitrary: acc w)
  case (Cons db names)
  obtain a where a: "path db = a @ ''.zip''" "savPath_of (path db) = a @ ''.sav''"
    using zip_sav_paths [OF assms(1,2), of db h] Cons.prems(3) unfolding assms(4) by auto
  have bs: "backup_suffix (path db)" "backup_suffix (savPath_of (path db))"
    unfolding a(2) by (simp_all add: a(1) backup_suffix_def)
  then have dirs: "look w (path db) \<noteq> Some Directory" "look w (savPath_of (path db)) \<noteq> Some Directory"
    using Cons.prems(4) by (simp_all add: nodirs_def)
  obtain r w1 where b: "backup_db X Z F now conn m dir today (hostnameForFile h) us db w = (r, w1)"
    by (cases "backup_db X Z F now conn m dir today (hostnameForFile h) us db w") auto
  with Cons.prems(1) obtain p where r: "r = Inr p" by (cases r) auto
  have rest: "backup_dbs (backup_db X Z F now conn m dir today (hostnameForFile h) us) names (acc @ [p]) w1 = (Inr created, w')"
    using Cons.prems(1) b r by simp
  note S = backup_db_success [OF b [unfolded r] fun_cong [OF assms(4)] refl assms(3) dirs refl]
  define n where "n = File (zip_final Z (db @ ''.sql'') (stdout (dump_reply X conn m db (trace w))
      @ concat (user_writes (case us db of None \<Rightarrow> [] | Some s \<Rightarrow> s)))) now"
  have L: "look w1 = (look w)(path db \<mapsto> n, savPath_of (path db) := None)" using S(3) by (simp add: n_def)
  have "nodirs (look w1)" using Cons.prems(4) by (simp add: L n_def)
  note IH = Cons.IH [OF rest _ _ this]
  have other: "look w1 (path d) = look w (path d)" if d: "db_name d" "d \<noteq> db" for d
  proof -
    obtain a' where "path d = a' @ ''.zip''"
      using zip_sav_paths [OF assms(1,2) d(1), of h] unfolding assms(4) by auto
    then have "path d \<noteq> savPath_of (path db)" unfolding a(2) by simp
    moreover have "path d \<noteq> path db"
      using d Cons.prems(3) Join_inj [OF assms(1) zipName_entry zipName_entry] assms(2) zipName_inj
      unfolding assms(4) by simp
    ultimately show ?thesis by (simp add: L)
  qed
  have here: "backed_up X Z (trace w) (trace w1) now conn m us db (look w1 (path db))"
    unfolding backed_up_def by (rule exI [of _ "trace w"]) (use S(2,4) in \<open>auto simp: L n_def\<close>)
  have far: "look w1 q = look w q" if "\<not> backup_suffix q" for q
    using that bs by (auto simp: L)
  have w1: "extends (trace w) (trace w1)" using S(4) by simp
  have later: "backed_up X Z (trace w) (trace w') now conn m us d x" if "extends (trace w1) (trace w')"
      "backed_up X Z (trace w1) (trace w') now conn m us d x \<or> backed_up X Z (trace w) (trace w1) now conn m us d x" for d x
    using that backed_up_later [OF _ w1 extends_refl] backed_up_later [OF _ extends_refl] by blast
  show ?case using IH S(1) w1 here other far Cons.prems(2,3) later extends_trans [of "trace w" "trace w1"] by auto
qed simp

subsection \<open>Properties\<close>

text \<open>
  C18. A backup of a database that fails leaves the files as they were, whatever failed, as
  long as checking for, moving and removing files works: a previous backup of the day is back
  in its place and no part of the new one is left.
\<close>

theorem failed_backup_restores:
  assumes "backup_db X Z F now conn m dir today host us db w = (Inl e, w')"
    and "cleanup_ok F"
    and "look w (Join dir (zipName_of today host db)) \<noteq> Some Directory"
    and "look w (savPath_of (Join dir (zipName_of today host db))) = None"
  shows "look w' = look w"
  by (rule backup_db_error_restores [OF assms(1) refl refl assms(2-4)])

definition ex_reply :: "exit \<Rightarrow> extenv" where
  "ex_reply s = \<lparr>process = (\<lambda>_. \<lparr>combined = [], stdout = ''dump'', stderr = [], status = s, eaten = True\<rparr>),
     listens = (\<lambda>_. False), smtp_ok = (\<lambda>_. False), clock = (\<lambda>_. 0)\<rparr>"

definition ex_zip :: zipenv where
  "ex_zip = \<lparr>zip_final = (\<lambda>n d. ''PK'' @ n @ d), zip_partial = (\<lambda>n d. ''P'' @ n @ d), zip_torn = (\<lambda>n d x. d)\<rparr>"

definition ex_conn :: Conn where
  "ex_conn = \<lparr>Host = ''h'', Port = 3306, User = ''root'', Password = [], BinDir = []\<rparr>"

definition ex_files :: sysworld where
  "ex_files = \<lparr>files = [(''b'', Directory), (''b/mysql_backup_20250111_h_db.zip'', File ''old'' 1)], logs = [], trace = []\<rparr>"

definition ex_failed :: "(goerr, string) result \<times> sysworld" where
  "ex_failed = backup_db (ex_reply (ExitStatus 2)) ex_zip (\<lambda>_ _. False) 7 ex_conn False ''b'' (YMD 2025 1 11) ''h''
     Map.empty ''db'' ex_files"

theorem failed_backup_restores_witness: "look (snd ex_failed) = look ex_files"
proof (rule failed_backup_restores)
  have "fst ex_failed = Inl (Err ''err.dump_db'' [''db''] (Some (Err ''err.mysqldump_db'' [''db'', []] (Some (ExitErr (ExitStatus 2))))))"
    by code_simp
  then show "backup_db (ex_reply (ExitStatus 2)) ex_zip (\<lambda>_ _. False) 7 ex_conn False ''b'' (YMD 2025 1 11) ''h''
     Map.empty ''db'' ex_files =
     (Inl (Err ''err.dump_db'' [''db''] (Some (Err ''err.mysqldump_db'' [''db'', []] (Some (ExitErr (ExitStatus 2)))))), snd ex_failed)"
    unfolding ex_failed_def by (simp add: prod_eq_iff)
  show "cleanup_ok (\<lambda>_ _. False)" by (simp add: cleanup_ok_def)
  show "look ex_files (Join ''b'' (zipName_of (YMD 2025 1 11) ''h'' ''db'')) \<noteq> Some Directory" by code_simp
  show "look ex_files (savPath_of (Join ''b'' (zipName_of (YMD 2025 1 11) ''h'' ''db''))) = None" by code_simp
qed


text \<open>A world in which no file can be created, moved back or removed.\<close>

definition ex_faults :: faults where
  "ex_faults f op = (case op of OpRename a b \<Rightarrow> HasSuffix a ''.sav'' | OpRemove _ \<Rightarrow> True | OpCreate _ \<Rightarrow> True | _ \<Rightarrow> False)"

definition ex_stuck :: "(goerr, string) result \<times> sysworld" where
  "ex_stuck = backup_db (ex_reply ExitOK) ex_zip ex_faults 7 ex_conn False ''b'' (YMD 2025 1 11) ''h''
     Map.empty ''db'' ex_files"


lemma recover_entry_trace: "trace (recover_entry F dir name w) = trace w"
  unfolding recover_entry_def Let_def by (simp split: sum.split oserr.split)

lemma recoverSavFiles_trace: "trace (recoverSavFiles F dir w) = trace w"
proof -
  have "trace (recover_loop F dir es w) = trace w" for es
    by (induction F dir es w rule: recover_loop.induct) (auto simp: recover_entry_trace)
  then show ?thesis by (simp add: recoverSavFiles_def split: sum.split)
qed

lemma Run_cases:
  assumes "Run X Z F ord now today cfg conn userSQL names m w = (Inr created, w')"
    and "is_clean (BackupDir cfg)" "nodirs (look w)" "\<not> backup_suffix (BackupDir cfg)"
  obtains w3 where "nodirs (look w3)" "trace w3 = trace w"
    "backup_dbs (backup_db X Z F now conn m (BackupDir cfg) today (hostnameForFile (HostnameForBackup cfg))
       (dbToSQL (ParseUserSQL ord userSQL))) names [] w3 = (Inr created, w')"
proof (cases "MkdirAll F (files w) (BackupDir cfg)")
  case (Inl e)
  with assms(1) show thesis by (simp add: Run_def Let_def FromSlash_def)
next
  case (Inr f)
  have "nodirs (map_of f)"
    using Inr assms(3,4) by (auto simp: MkdirAll_def nodirs_def split: option.splits node.splits if_splits)
  then have "nodirs (look (recoverSavFiles F (BackupDir cfg) (w\<lparr>files := f\<rparr>)))"
    using recoverSavFiles_nodirs [of "w\<lparr>files := f\<rparr>" "BackupDir cfg" F] assms(2) by simp
  define w2 where "w2 = log_warnings (warnings (ParseUserSQL ord userSQL)) (recoverSavFiles F (BackupDir cfg) (w\<lparr>files := f\<rparr>))"
  define w3 where "w3 = (let p = ParseUserSQL ord userSQL in if userNames p \<noteq> []
      then log_msg INFO ''log.msg.users_found'' [Itoa (int (length (userNames p))), strings_Join (userNames p) '', ''] w2 else w2)"
  have "look w3 = look (recoverSavFiles F (BackupDir cfg) (w\<lparr>files := f\<rparr>))"
    by (simp add: w3_def w2_def log_warnings_def Let_def)
  moreover have "trace w3 = trace w"
    by (simp add: w3_def w2_def log_warnings_def Let_def recoverSavFiles_trace)
  moreover have "backup_dbs (backup_db X Z F now conn m (BackupDir cfg) today (hostnameForFile (HostnameForBackup cfg))
       (dbToSQL (ParseUserSQL ord userSQL))) names [] w3 = (Inr created, w')"
    using Inr assms(1) unfolding w3_def w2_def Let_def by (simp add: Run_def Let_def FromSlash_def split del: if_split)
  ultimately show thesis
    using that [of w3] \<open>nodirs (look (recoverSavFiles F (BackupDir cfg) (w\<lparr>files := f\<rparr>)))\<close> by simp
qed

lemma Run_success:
  assumes "Run X Z F ord now today cfg conn userSQL names m w = (Inr created, w')"
    and "is_clean (BackupDir cfg)" "nodirs (look w)" "\<not> backup_suffix (BackupDir cfg)"
    and "cleanup_ok F" "date_ok today" "distinct names" "list_all db_name names"
  shows "created = map (\<lambda>db. Join (BackupDir cfg) (zipName_of today (hostnameForFile (HostnameForBackup cfg)) db)) names
    \<and> (\<forall>db \<in> set names. backed_up X Z (trace w) (trace w') now conn m (dbToSQL (ParseUserSQL ord userSQL)) db
         (look w' (Join (BackupDir cfg) (zipName_of today (hostnameForFile (HostnameForBackup cfg)) db))))"
proof -
  from Run_cases [OF assms(1-4)] obtain w3 where w3: "nodirs (look w3)" "trace w3 = trace w"
    "backup_dbs (backup_db X Z F now conn m (BackupDir cfg) today (hostnameForFile (HostnameForBackup cfg))
       (dbToSQL (ParseUserSQL ord userSQL))) names [] w3 = (Inr created, w')" by blast
  have "\<forall>db \<in> set names. db_name db" using assms(8) by (simp add: list_all_iff)
  from backup_dbs_success [OF assms(2,6,5) refl w3(3) assms(7) this w3(1)] show ?thesis by (simp add: w3(2))
qed

text \<open>
  C20. A run that reports success has made a complete zip file for every database, under its
  own name, with the output of a \<open>mysqldump\<close> that ended without error, followed by the SQL of
  the users of the database; and it reports exactly these files.
\<close>

theorem Run_complete:
  assumes "Run X Z F ord now today cfg conn userSQL names m w = (Inr created, w')"
    and "is_clean (BackupDir cfg)" "nodirs (look w)" "\<not> backup_suffix (BackupDir cfg)"
    and "cleanup_ok F" "date_ok today" "distinct names" "list_all db_name names"
  shows "created = map (\<lambda>db. Join (BackupDir cfg) (zipName_of today (hostnameForFile (HostnameForBackup cfg)) db)) names
    \<and> (\<forall>db \<in> set names. backed_up X Z (trace w) (trace w') now conn m (dbToSQL (ParseUserSQL ord userSQL)) db
         (look w' (Join (BackupDir cfg) (zipName_of today (hostnameForFile (HostnameForBackup cfg)) db))))"
  using assms by (rule Run_success)

definition ex_cfg :: Config where
  "ex_cfg = DefaultConfig\<lparr>MySQLHost := ''h'', BackupDir := ''b''\<rparr>"

definition ex_run :: "(goerr, string list) result \<times> sysworld" where
  "ex_run = Run (ex_reply ExitOK) ex_zip (\<lambda>_ _. False) insertion_order 7 (YMD 2025 1 11) ex_cfg ex_conn [] [''db''] False ex_files"

theorem Run_complete_witness:
  "backed_up (ex_reply ExitOK) ex_zip (trace ex_files) (trace (snd ex_run)) 7 ex_conn False (dbToSQL (ParseUserSQL insertion_order [])) ''db''
     (look (snd ex_run) (Join (BackupDir ex_cfg) (zipName_of (YMD 2025 1 11) (hostnameForFile (HostnameForBackup ex_cfg)) ''db'')))"
proof -
  have "fst ex_run = Inr [''b/mysql_backup_20250111_h_db.zip'']" by code_simp
  then have "Run (ex_reply ExitOK) ex_zip (\<lambda>_ _. False) insertion_order 7 (YMD 2025 1 11) ex_cfg ex_conn [] [''db''] False ex_files
     = (Inr [''b/mysql_backup_20250111_h_db.zip''], snd ex_run)"
    unfolding ex_run_def by (simp add: prod_eq_iff)
  moreover have "is_clean (BackupDir ex_cfg)" "\<not> backup_suffix (BackupDir ex_cfg)" "date_ok (YMD 2025 1 11)"
      "distinct [''db'']" "list_all db_name [''db'']"
    by code_simp+
  moreover have "nodirs (look ex_files)" by (auto simp: nodirs_def ex_files_def backup_suffix_def HasSuffix_def)
  moreover have "cleanup_ok (\<lambda>_ _. False)" by (simp add: cleanup_ok_def)
  ultimately show ?thesis using Run_complete by fastforce
qed

text \<open>
  The name of a new backup is read back by the listing of backups as the day of the run,
  for every host name and database: no backup is invisible to retention and restore.
\<close>

theorem new_backup_recognised:
  assumes "date_ok today"
  shows "backup_name_date (zipName_of today (hostnameForFile (HostnameForBackup cfg)) db) = Some today"
  by (rule zipName_date [OF assms])

theorem new_backup_recognised_witness:
  "backup_name_date (zipName_of (YMD 2025 1 11) (hostnameForFile (HostnameForBackup ex_cfg)) ''db'') = Some (YMD 2025 1 11)"
  by (rule new_backup_recognised) code_simp

end
