(* ===== verification/Backup_Crash.thy ===== *)
theory Backup_Crash
  imports Backup "HOL-Library.Transitive_Closure_Table"
begin

text \<open>
  \<open>internal/backup/backup.go\<close> when the program is stopped in the middle of the backup of a
  database: the calls on its two files as a step relation, the proof that the backup is a run
  of these steps, and what the recovery at the next start makes of every state a crash can
  leave.
\<close>

subsection \<open>Steps\<close>

text \<open>
  The states of the two files of a database during its backup, one call after the other. A
  crash stops the program in any state that can be reached. \<open>new\<close> is the content of the
  complete new archive; while it is written the file may hold anything.
\<close>

datatype phase = Begin | Saved | Writing | Complete | Cancelled | Restored | Finished

type_synonym zstate = "phase \<times> (string \<rightharpoonup> node)"

inductive zstep :: "string \<Rightarrow> string \<Rightarrow> bytes \<Rightarrow> zstate \<Rightarrow> zstate \<Rightarrow> bool" for zp sav new where
  save: "m zp \<noteq> Some Directory \<Longrightarrow> zstep zp sav new (Begin, m) (Saved, opened zp sav m)"
| failed: "zstep zp sav new (Begin, m) (Restored, m)"
| create: "zstep zp sav new (Saved, m) (Writing, m(zp \<mapsto> File c t))"
| rewrite: "zstep zp sav new (Writing, m) (Writing, m(zp \<mapsto> File c t))"
| complete: "zstep zp sav new (Writing, m) (Complete, m(zp \<mapsto> File new t))"
| remove: "zstep zp sav new (Complete, m) (Finished, m(sav := None))"
| leave: "zstep zp sav new (Complete, m) (Finished, m)"
| cancel: "ph \<in> {Writing, Complete} \<Longrightarrow> zstep zp sav new (ph, m) (Cancelled, m(zp := None))"
| cancel_failed: "ph \<in> {Saved, Writing, Complete} \<Longrightarrow> zstep zp sav new (ph, m) (Cancelled, m)"
| restore: "m sav \<noteq> Some Directory \<Longrightarrow> zstep zp sav new (Cancelled, m) (Restored, moved sav zp m)"

inductive_cases zstep_FinishedE: "zstep zp sav new (Finished, m) s"
inductive_cases zstep_RestoredE: "zstep zp sav new (Restored, m) s"

abbreviation zsteps :: "string \<Rightarrow> string \<Rightarrow> bytes \<Rightarrow> zstate \<Rightarrow> zstate \<Rightarrow> bool" where
  "zsteps zp sav new \<equiv> (zstep zp sav new)\<^sup>*\<^sup>*"

text \<open>Where the old backup is in each phase.\<close>

fun zinv :: "string \<Rightarrow> string \<Rightarrow> bytes \<Rightarrow> node \<Rightarrow> zstate \<Rightarrow> bool" where
  "zinv zp sav new old (Begin, m) = (m zp = Some old)"
| "zinv zp sav new old (Saved, m) = (m sav = Some old \<and> m zp = None)"
| "zinv zp sav new old (Writing, m) = (m sav = Some old)"
| "zinv zp sav new old (Complete, m) = (m sav = Some old \<and> (\<exists>t. m zp = Some (File new t)))"
| "zinv zp sav new old (Cancelled, m) = (m sav = Some old)"
| "zinv zp sav new old (Restored, m) = (m zp = Some old)"
| "zinv zp sav new old (Finished, m) = ((m sav = None \<or> m sav = Some old) \<and> (\<exists>t. m zp = Some (File new t)))"

lemma zstep_inv:
  assumes "zstep zp sav new s s'" "sav \<noteq> zp" "zinv zp sav new old s" shows "zinv zp sav new old s'"
  using assms by (induction rule: zstep.induct) (auto simp: moved_keeps)

lemma zsteps_inv: "zsteps zp sav new s s' \<Longrightarrow> sav \<noteq> zp \<Longrightarrow> zinv zp sav new old s \<Longrightarrow> zinv zp sav new old s'"
  by (induction rule: rtranclp_induct) (auto intro: zstep_inv)

text \<open>No \<open>.sav\<close> file is left where none was and the backup was not begun or undone.\<close>

lemma zstep_no_sav:
  assumes "zstep zp sav new s s'" "sav \<noteq> zp" "fst s \<in> {Begin, Restored} \<longrightarrow> snd s sav = None"
  shows "fst s' \<in> {Begin, Restored} \<longrightarrow> snd s' sav = None"
  using assms by (induction rule: zstep.induct) (auto simp: moved_def split: option.split)

lemma zsteps_no_sav:
  "zsteps zp sav new s s' \<Longrightarrow> sav \<noteq> zp \<Longrightarrow> fst s \<in> {Begin, Restored} \<longrightarrow> snd s sav = None
     \<Longrightarrow> fst s' \<in> {Begin, Restored} \<longrightarrow> snd s' sav = None"
  by (induction rule: rtranclp_induct) (simp_all add: zstep_no_sav)

text \<open>The backup of a database is a run of these steps.\<close>

lemma writes_to_steps: "writes_to zp m m' \<Longrightarrow> m' zp \<noteq> None \<Longrightarrow> m' zp \<noteq> Some Directory \<Longrightarrow> zstep zp sav new (Writing, m) (Writing, m')"
proof -
  assume w: "writes_to zp m m'" and n: "m' zp \<noteq> None" "m' zp \<noteq> Some Directory"
  then obtain c t where "m' zp = Some (File c t)" by (metis node.exhaust not_Some_eq)
  with w have "m' = m(zp \<mapsto> File c t)" by (auto simp: fun_eq_iff writes_to_def)
  then show ?thesis by (simp add: zstep.rewrite)
qed

lemma restore_steps:
  assumes "sav \<noteq> zp" "look w sav \<noteq> Some Directory"
  shows "\<exists>ph. zsteps zp sav new (Cancelled, look w) (ph, look (restore_sav F sav zp w))"
    "\<exists>ph. zsteps zp sav new (Cancelled, look w) (ph, look (restore_sav_quiet F sav zp w))"
  using look_restore [OF assms, of F] zstep.restore [of "look w" sav zp new] assms(2)
  by (metis rtranclp.rtrancl_refl r_into_rtranclp)+

lemma remove_steps:
  "ph \<in> {Writing, Complete} \<Longrightarrow> zstep zp sav new (ph, look w) (Cancelled, look (remove_quiet F zp w))"
  using look_remove_quiet [of F zp w] zstep.cancel [of ph zp sav new "look w"] zstep.cancel_failed [of ph zp sav new "look w"]
  by auto

lemma cancel_steps:
  assumes "zsav h \<noteq> zpath h" "look w (zsav h) \<noteq> Some Directory" "look w (zpath h) \<noteq> Some Directory" "look w (zpath h) \<noteq> None"
  shows "\<exists>ph. zsteps (zpath h) (zsav h) new (Writing, look w) (ph, look (cancel Z F now h w))"
proof -
  obtain e h1 w1 where 1: "zip_close Z F now h w = (e, h1, w1)" by (cases "zip_close Z F now h w") auto
  note C = zip_close_look(1) [OF 1]
  have "zstep (zpath h) (zsav h) new (Writing, look w) (Writing, look w1)"
    using writes_to_steps [OF C] writes_to_File [OF C] assms(3,4) C by (auto simp: writes_to_def)
  moreover have "zstep (zpath h) (zsav h) new (Writing, look w1) (Cancelled, look (remove_quiet F (zpath h) w1))"
    by (rule remove_steps) simp
  moreover have "look (remove_quiet F (zpath h) w1) (zsav h) \<noteq> Some Directory"
    using look_remove_quiet [of F "zpath h" w1] writes_to_other [OF C assms(1)] assms(1,2) by auto
  from restore_steps(1) [OF assms(1) this, of new F]
  obtain ph where "zsteps (zpath h) (zsav h) new (Cancelled, look (remove_quiet F (zpath h) w1)) (ph, look (cancel Z F now h w))"
    using 1 by (auto simp: cancel_def)
  ultimately show ?thesis by (meson converse_rtranclp_into_rtranclp)
qed
lemma open_steps:
  assumes "safeWriteZIPStreaming Z F now zp en w = (r, w')" "sav = savPath_of zp"
    and "\<not> F (files w) (OpStat zp)" "look w zp \<noteq> Some Directory" "look w sav \<noteq> Some Directory"
  shows "\<exists>ph. zsteps zp sav new (Begin, look w) (ph, look w') \<and> (\<forall>h. r = Inr h \<longrightarrow> ph = Writing)"
proof -
  have n: "sav \<noteq> zp" using assms(2) by simp
  have save: "zstep zp sav new (Begin, look w) (Saved, opened zp sav (look w))" using assms(4) by (rule zstep.save)
  have s: "opened zp sav (look w) sav \<noteq> Some Directory"
    using assms(4,5) by (auto simp: opened_def)
  show ?thesis
  proof (rule open_cases [OF assms(1,2) n assms(3,4)])
    fix e w1 assume 1: "r = Inl e" "look w1 = opened zp sav (look w)" "w' = restore_sav_quiet F sav zp w1"
    have "zstep zp sav new (Saved, look w1) (Cancelled, look w1)" by (rule zstep.cancel_failed) simp
    moreover obtain ph where "zsteps zp sav new (Cancelled, look w1) (ph, look w')"
      using restore_steps(2) [OF n, of w1 new F] 1 s by auto
    ultimately have "zsteps zp sav new (Begin, look w) (ph, look w')"
      using save 1(2) by (simp add: converse_rtranclp_into_rtranclp)
    with 1(1) show ?thesis by auto
  next
    fix e w1 assume 1: "r = Inl e" "look w1 = (opened zp sav (look w))(zp \<mapsto> File [] now)"
      "w' = restore_sav_quiet F sav zp (remove_quiet F zp w1)"
    have "zstep zp sav new (Saved, opened zp sav (look w)) (Writing, look w1)"
      unfolding 1(2) by (rule zstep.create)
    moreover have "zstep zp sav new (Writing, look w1) (Cancelled, look (remove_quiet F zp w1))"
      by (rule remove_steps) simp
    moreover have "look (remove_quiet F zp w1) sav \<noteq> Some Directory"
      using look_remove_quiet [of F zp w1] 1(2) s n by auto
    then obtain ph where "zsteps zp sav new (Cancelled, look (remove_quiet F zp w1)) (ph, look w')"
      using restore_steps(2) [OF n, of "remove_quiet F zp w1" new F] 1(3) by auto
    ultimately have "zsteps zp sav new (Begin, look w) (ph, look w')"
      using save by (meson converse_rtranclp_into_rtranclp)
    with 1(1) show ?thesis by auto
  next
    assume 1: "r = Inr \<lparr>zpath = zp, zsav = sav, zentry = en, zdata = [], zclosed = False, zbroken = False\<rparr>"
      "look w' = (opened zp sav (look w))(zp \<mapsto> File (zip_partial Z en []) now)"
    have "zstep zp sav new (Saved, opened zp sav (look w)) (Writing, look w')" unfolding 1(2) by (rule zstep.create)
    with save have "zsteps zp sav new (Begin, look w) (Writing, look w')"
      by (meson converse_rtranclp_into_rtranclp r_into_rtranclp)
    then show ?thesis by blast
  next
    fix e assume "r = Inl e" "w' = w"
    then show ?thesis by blast
  qed
qed

lemma backup_db_steps:
  assumes "backup_db X Z F now conn m dir today host us db w = (r, w')"
    and "zp = Join dir (zipName_of today host db)" "sav = savPath_of zp"
    and "\<not> F (files w) (OpStat zp)" "look w zp \<noteq> Some Directory" "look w sav \<noteq> Some Directory"
    and "new = zip_final Z (db @ ''.sql'') (stdout (dump_reply X conn m db (trace w))
        @ concat (user_writes (case us db of None \<Rightarrow> [] | Some s \<Rightarrow> s)))"
  shows "\<exists>ph. zsteps zp sav new (Begin, look w) (ph, look w') \<and> (\<forall>p. r = Inr p \<longrightarrow> ph = Finished)"
  using assms(1)
proof (cases rule: backup_db_cases)
  case (unopened e)
  show ?thesis using open_steps [OF unopened(1) [folded assms(2)] assms(3-6)] unopened(2) by auto
next
  case (giveup e h w1 h2 w2)
  note giveup = giveup [folded assms(2)]
  have 1: "zsteps zp sav new (Begin, look w) (Writing, look w1)"
    using open_steps [OF giveup(1) assms(3-6), of new] by auto
  from giveup(1) assms(3-5) have h: "zpath h = zp" "zsav h = sav"
    and m: "look w1 = (opened zp sav (look w))(zp \<mapsto> File (zip_partial Z (db @ ''.sql'') []) now)"
    by (auto elim!: open_cases)
  have s: "opened zp sav (look w) sav \<noteq> Some Directory" using assms(5,6) by (auto simp: opened_def)
  have d: "look w2 sav \<noteq> Some Directory" "look w2 zp \<noteq> Some Directory" "look w2 zp \<noteq> None"
    using writes_to_other [OF giveup(5), of sav] giveup(5) m s h assms(3) by (auto simp: writes_to_def)
  have "zstep zp sav new (Writing, look w1) (Writing, look w2)"
    using writes_to_steps [OF giveup(5)] h d by simp
  moreover obtain ph where "zsteps zp sav new (Writing, look w2) (ph, look w')"
    using cancel_steps [of h2 w2 new Z F now] giveup(3,4,6) h d assms(3) by auto
  ultimately have "zsteps zp sav new (Begin, look w) (ph, look w')"
    using 1 by (meson converse_rtranclp_into_rtranclp rtranclp_trans)
  with giveup(2) show ?thesis by auto
next
  case (success h w1 h4 w4 h5 w5)
  note success = success [folded assms(2)]
  have 1: "zsteps zp sav new (Begin, look w) (Writing, look w1)"
    using open_steps [OF success(1) assms(3-6), of new] by auto
  from success(1) assms(3-5) have h: "zpath h = zp" "zsav h = sav" "zentry h = db @ ''.sql''" "zdata h = []"
    and m: "look w1 = (opened zp sav (look w))(zp \<mapsto> File (zip_partial Z (db @ ''.sql'') []) now)"
    by (auto elim!: open_cases)
  have "zstep zp sav new (Writing, look w1) (Writing, look w4)"
    using writes_to_steps [OF success(8)] h success(8) m by (auto simp: writes_to_def)
  moreover have c: "zstep zp sav new (Writing, look w4) (Complete, (look w4)(zp \<mapsto> File new now))"
    by (rule zstep.complete)
  moreover have "zip_final Z (zentry h4) (zdata h4) = new" using success(5,7) h assms(7) by simp
  then have "look w' = (look w4)(zp \<mapsto> File new now) \<or> look w' = ((look w4)(zp \<mapsto> File new now))(sav := None)"
    using finish_look(4) [OF success(9)] success(3,4,10) h by auto
  then have "zstep zp sav new (Complete, (look w4)(zp \<mapsto> File new now)) (Finished, look w')"
    using zstep.remove [of zp sav new "(look w4)(zp \<mapsto> File new now)"] zstep.leave [of zp sav new "(look w4)(zp \<mapsto> File new now)"]
    by auto
  ultimately have "zsteps zp sav new (Writing, look w1) (Finished, look w')"
    by (meson converse_rtranclp_into_rtranclp rtranclp.rtrancl_refl)
  with 1 have "zsteps zp sav new (Begin, look w) (Finished, look w')" by (rule rtranclp_trans)
  then show ?thesis by blast
qed

text \<open>What the recovery at the next start does with the two files.\<close>

lemma recover_entry_look:
  assumes "cleanup_ok F" "sav = Join dir (b @ ''.sav'')" "zp = Join dir (b @ ''.zip'')" "sav \<noteq> zp"
    and "look w sav \<noteq> Some Directory" "look w zp \<noteq> Some Directory"
  shows "look (recover_entry F dir (b @ ''.sav'') w) =
    (case look w sav of None \<Rightarrow> look w
     | Some s \<Rightarrow> (case look w zp of None \<Rightarrow> moved sav zp (look w)
        | Some z \<Rightarrow> if node_size z \<le> node_size s then moved sav zp ((look w)(zp := None)) else (look w)(sav := None)))"
proof (cases "look w sav")
  case None
  with assms show ?thesis by (simp add: recover_entry_def Let_def Stat_ok cleanup_ok_def)
next
  case (Some s)
  with assms(5) obtain c t where s: "look w sav = Some (File c t)" by (cases s) auto
  show ?thesis
  proof (cases "look w zp")
    case None
    with s assms show ?thesis
      by (simp add: recover_entry_def Let_def Stat_ok cleanup_ok_def Rename_File_iff moved_def)
  next
    case (Some z)
    with assms(6) obtain c' t' where z: "look w zp = Some (File c' t')" by (cases z) auto
    have s': "map_of (fs_delete zp (files w)) sav = Some (File c t)" using s assms(4) by simp
    have R: "Rename F (fs_delete zp (files w)) sav zp = Inr (fs_update zp (File c t) (fs_delete sav (fs_delete zp (files w))))"
      using assms(1) by (simp add: Rename_File_iff [OF s' assms(4)] cleanup_ok_def)
    show ?thesis
    proof (cases "length c' \<le> length c")
      case True
      with s z assms(1,4) show ?thesis
        unfolding recover_entry_def Let_def TrimSuffix_append assms(2) [symmetric] assms(3) [symmetric]
        by (simp add: R Stat_ok cleanup_ok_def Remove_File moved_def node_size_def)
    next
      case False
      with s z assms show ?thesis
        by (simp add: recover_entry_def Let_def Stat_ok cleanup_ok_def Remove_File node_size_def)
    qed
  qed
qed

text \<open>The two paths, as \<open>recoverSavFiles\<close> and as \<open>safeWriteZIPStreaming\<close> build them.\<close>

lemma savPath_Join:
  assumes "is_clean dir" "entry_name (b @ ''.zip'')"
  shows "savPath_of (Join dir (b @ ''.zip'')) = Join dir (b @ ''.sav'')"
proof -
  have e: "entry_name (b @ ''.sav'')" using assms(2) by (auto simp: entry_name_def)
  consider "dir = ''.''" | "dir = [slash]" | "dir \<noteq> ''.''" "dir \<noteq> [slash]" by blast
  then show ?thesis
  proof cases
    case 1
    then show ?thesis using Join_entry [OF assms] Join_entry [OF assms(1) e] TrimSuffix_append [of b "''.zip''"]
      by (simp add: savPath_of_def)
  next
    case 2
    then show ?thesis using Join_entry [OF assms] Join_entry [OF assms(1) e] TrimSuffix_append [of "slash # b" "''.zip''"]
      by (simp add: savPath_of_def)
  next
    case 3
    then show ?thesis using Join_entry [OF assms] Join_entry [OF assms(1) e] TrimSuffix_append [of "dir @ slash # b" "''.zip''"]
      by (simp add: savPath_of_def)
  qed
qed

subsection \<open>Properties\<close>

text \<open>
  C21. The backup of a database, with whatever calls fail, is a run of the steps; a successful
  one ends in the final state. So every state the two files can be in is one of the step
  relation.
\<close>

theorem backup_db_refines_steps:
  assumes "backup_db X Z F now conn m dir today host us db w = (r, w')"
    and "zp = Join dir (zipName_of today host db)" "sav = savPath_of zp"
    and "\<not> F (files w) (OpStat zp)" "look w zp \<noteq> Some Directory" "look w sav \<noteq> Some Directory"
    and "new = zip_final Z (db @ ''.sql'') (stdout (dump_reply X conn m db (trace w))
        @ concat (user_writes (case us db of None \<Rightarrow> [] | Some s \<Rightarrow> s)))"
  shows "\<exists>ph. zsteps zp sav new (Begin, look w) (ph, look w') \<and> (\<forall>p. r = Inr p \<longrightarrow> ph = Finished)"
  by (rule backup_db_steps [OF assms])

theorem backup_db_refines_steps_witness:
  "\<exists>ph. zsteps ''b/mysql_backup_20250111_h_db.zip'' ''b/mysql_backup_20250111_h_db.sav'' ''PKdb.sqldump''
      (Begin, look ex_files) (ph, look (snd ex_stuck)) \<and> (\<forall>p. fst ex_stuck = Inr p \<longrightarrow> ph = Finished)"
proof (rule backup_db_refines_steps)
  show "backup_db (ex_reply ExitOK) ex_zip ex_faults 7 ex_conn False ''b'' (YMD 2025 1 11) ''h'' Map.empty ''db'' ex_files
      = (fst ex_stuck, snd ex_stuck)" by (simp add: ex_stuck_def)
qed code_simp+


lemma ex_crash: "zsteps ''z'' ''s'' ''new'' (Begin, [''z'' \<mapsto> File ''old'' 1])
    (Writing, (Map.empty(''s'' \<mapsto> File ''old'' 1))(''z'' \<mapsto> File ''partial'' 2))"
proof -
  have "zstep ''z'' ''s'' ''new'' (Begin, [''z'' \<mapsto> File ''old'' 1]) (Saved, opened ''z'' ''s'' [''z'' \<mapsto> File ''old'' 1])"
    by (rule zstep.save) simp
  moreover have "opened ''z'' ''s'' [''z'' \<mapsto> File ''old'' 1] = Map.empty(''s'' \<mapsto> File ''old'' 1)"
    by (simp add: opened_def fun_eq_iff)
  ultimately show ?thesis
    using zstep.create [of "''z''" "''s''" "''new''" "Map.empty(''s'' \<mapsto> File ''old'' 1)" "''partial''" 2]
    by (simp add: converse_rtranclp_into_rtranclp r_into_rtranclp)
qed



definition ex_crashed :: "bytes \<Rightarrow> world" where
  "ex_crashed c = \<lparr>files = [(''z.zip'', File c 2), (''z.sav'', File ''good'' 1)], logs = []\<rparr>"

lemma ex_crash_zip: "zsteps ''z.zip'' ''z.sav'' ''new'' (Begin, [''z.zip'' \<mapsto> File ''good'' 1]) (Writing, look (ex_crashed c))"
proof -
  have "zstep ''z.zip'' ''z.sav'' ''new'' (Begin, [''z.zip'' \<mapsto> File ''good'' 1])
      (Saved, opened ''z.zip'' ''z.sav'' [''z.zip'' \<mapsto> File ''good'' 1])"
    by (rule zstep.save) simp
  moreover have "(opened ''z.zip'' ''z.sav'' [''z.zip'' \<mapsto> File ''good'' 1])(''z.zip'' \<mapsto> File c 2) = look (ex_crashed c)"
    by (simp add: opened_def fun_eq_iff ex_crashed_def)
  then have "zstep ''z.zip'' ''z.sav'' ''new'' (Saved, opened ''z.zip'' ''z.sav'' [''z.zip'' \<mapsto> File ''good'' 1])
      (Writing, look (ex_crashed c))"
    by (metis zstep.create)
  ultimately show ?thesis by (meson converse_rtranclp_into_rtranclp r_into_rtranclp)
qed


text \<open>
  The exception is real: a crash that leaves more bytes than the old backup had makes the
  recovery remove the old backup and keep the unfinished file.
\<close>

lemma larger_unfinished_file_wins:
  "look (recover_entry (\<lambda>_ _. False) ''.'' ''z.sav'' (ex_crashed ''unfinished'')) ''z.zip'' = Some (File ''unfinished'' 2)
   \<and> look (recover_entry (\<lambda>_ _. False) ''.'' ''z.sav'' (ex_crashed ''unfinished'')) ''z.sav'' = None"
  by code_simp

end
