(* ===== verification/Main_Flags.thy ===== *)
theory Main_Flags
  imports Go_Exec
begin

text \<open>
  The command line of \<open>main.go\<close>: Go's package \<open>flag\<close> with the flags the program declares, the
  directory the program was started from, and the form of a size.
\<close>

subsection \<open>Flags\<close>

record flags =
  fl_config :: string
  fl_v :: bool
  fl_verbose :: bool
  fl_init :: bool
  fl_cleanconfig :: bool
  fl_remove :: bool
  fl_status :: bool
  fl_backup :: bool
  fl_restore :: bool
  fl_restorefull :: bool
  fl_getfile :: string

definition no_flags :: flags where
  "no_flags = \<lparr>fl_config = [], fl_v = False, fl_verbose = False, fl_init = False, fl_cleanconfig = False, fl_remove = False,
     fl_status = False, fl_backup = False, fl_restore = False, fl_restorefull = False, fl_getfile = []\<rparr>"

datatype flag_kind = BoolFlag "bool \<Rightarrow> flags \<Rightarrow> flags" | StringFlag "string \<Rightarrow> flags \<Rightarrow> flags"

definition declared :: "string \<Rightarrow> flag_kind option" where
  "declared name = map_of
     [(''config'', StringFlag (\<lambda>s. fl_config_update (\<lambda>_. s))),
      (''v'', BoolFlag (\<lambda>b. fl_v_update (\<lambda>_. b))),
      (''verbose'', BoolFlag (\<lambda>b. fl_verbose_update (\<lambda>_. b))),
      (''init'', BoolFlag (\<lambda>b. fl_init_update (\<lambda>_. b))),
      (''cleanconfig'', BoolFlag (\<lambda>b. fl_cleanconfig_update (\<lambda>_. b))),
      (''remove'', BoolFlag (\<lambda>b. fl_remove_update (\<lambda>_. b))),
      (''status'', BoolFlag (\<lambda>b. fl_status_update (\<lambda>_. b))),
      (''backup'', BoolFlag (\<lambda>b. fl_backup_update (\<lambda>_. b))),
      (''restore'', BoolFlag (\<lambda>b. fl_restore_update (\<lambda>_. b))),
      (''restorefull'', BoolFlag (\<lambda>b. fl_restorefull_update (\<lambda>_. b))),
      (''getfile'', StringFlag (\<lambda>s. fl_getfile_update (\<lambda>_. s)))] name"

text \<open>\<open>strconv.ParseBool\<close>.\<close>

definition ParseBool :: "string \<Rightarrow> bool option" where
  "ParseBool s =
     (if s \<in> {''1'', ''t'', ''T'', ''TRUE'', ''true'', ''True''} then Some True
      else if s \<in> {''0'', ''f'', ''F'', ''FALSE'', ''false'', ''False''} then Some False
      else None)"

text \<open>
  \<open>flag.Parse\<close>: the exit status of a command line that is not accepted (0 for a call for help,
  2 for an error), or the flags and the remaining arguments.
\<close>

function flag_Parse :: "flags \<Rightarrow> string list \<Rightarrow> int + (flags \<times> string list)" where
  "flag_Parse fl args =
     (case args of
        [] \<Rightarrow> Inr (fl, [])
      | s # rest \<Rightarrow>
          if length s < 2 \<or> hd s \<noteq> CHR ''-'' then Inr (fl, args)
          else if s = ''--'' then Inr (fl, rest)
          else
            let name0 = (if s ! 1 = CHR ''-'' then drop 2 s else drop 1 s) in
            if name0 = [] \<or> hd name0 = CHR ''-'' \<or> hd name0 = CHR ''='' then Inl 2
            else
              let name = hd name0 # takeWhile (\<lambda>c. c \<noteq> CHR ''='') (tl name0);
                  hasValue = CHR ''='' \<in> set (tl name0);
                  val = tl (dropWhile (\<lambda>c. c \<noteq> CHR ''='') (tl name0))
              in (case declared name of
                    None \<Rightarrow> Inl (if name = ''help'' \<or> name = ''h'' then 0 else 2)
                  | Some (BoolFlag put) \<Rightarrow>
                      if hasValue then
                        (case ParseBool val of None \<Rightarrow> Inl 2 | Some b \<Rightarrow> flag_Parse (put b fl) rest)
                      else flag_Parse (put True fl) rest
                  | Some (StringFlag put) \<Rightarrow>
                      if hasValue then flag_Parse (put val fl) rest
                      else (case rest of [] \<Rightarrow> Inl 2 | v # rest' \<Rightarrow> flag_Parse (put v fl) rest')))"
  by pat_completeness auto
termination
  by (relation "measure (\<lambda>(fl, args). length args)") auto

declare flag_Parse.simps [simp del]

text \<open>The number of actions on the command line.\<close>

definition action_count :: "flags \<Rightarrow> nat" where
  "action_count fl = length (filter id
     [fl_init fl, fl_cleanconfig fl, fl_remove fl, fl_status fl, fl_backup fl, fl_restore fl, fl_restorefull fl, fl_getfile fl \<noteq> []])"

subsection \<open>Paths and sizes\<close>

text \<open>\<open>os.Args\<close> is the command line with the program's own name first.\<close>

definition invokedDirectory :: "procenv \<Rightarrow> string list \<Rightarrow> string" where
  "invokedDirectory P args =
     (case args of
        [] \<Rightarrow> []
      | arg0 # _ \<Rightarrow>
          if arg0 = [] \<or> \<not> Contains arg0 [slash] then []
          else (case Abs P arg0 of None \<Rightarrow> [] | Some a \<Rightarrow> Dir a))"

definition containsPath :: "string \<Rightarrow> bool" where
  "containsPath s \<longleftrightarrow> (2 \<le> length s \<and> s ! 0 = CHR ''.'' \<and> s ! 1 = CHR ''.'') \<or> slash \<in> set s \<or> backslash \<in> set s"

definition valid_getfile_arg :: "string \<Rightarrow> bool" where
  "valid_getfile_arg s \<longleftrightarrow> \<not> (s = [] \<or> Base s \<noteq> s) \<and> \<not> containsPath s"

text \<open>
  A quotient rounded to the nearest integer, to even in the middle; the value of an integer as
  a \<open>float64\<close>, which has 53 bits.
\<close>

definition round_even :: "int \<Rightarrow> int \<Rightarrow> int" where
  "round_even a b =
     (let q = a div b; r = 2 * (a mod b) in if r < b \<or> (r = b \<and> even q) then q else q + 1)"

function extra_bits :: "int \<Rightarrow> nat" where
  "extra_bits n = (if n < 2 ^ 53 then 0 else Suc (extra_bits (n div 2)))"
  by pat_completeness auto
termination
  by (relation "measure nat") auto

declare extra_bits.simps [simp del]

definition float64 :: "int \<Rightarrow> int" where
  "float64 n = (let u = 2 ^ extra_bits n in round_even n u * u)"

text \<open>The size in a unit, \<open>%.1f\<close> below 10 and an integer from there on.\<close>

definition in_unit :: "int \<Rightarrow> int \<Rightarrow> string \<Rightarrow> string" where
  "in_unit n u suffix =
     (let f = float64 n in
      if f < 10 * u then (let t = round_even (10 * f) u in Itoa (t div 10) @ ''.'' @ Itoa (t mod 10) @ suffix)
      else Itoa (f div u) @ suffix)"

definition formatSize :: "int \<Rightarrow> string" where
  "formatSize n =
     (let k = 1024 in
      if n < k then Itoa n
      else if n < k * k then in_unit n k ''K''
      else if n < k * k * k then in_unit n (k * k) ''M''
      else in_unit n (k * k * k) ''T'')"

end
