(* ===== verification/Lifecycle.thy ===== *)
theory Lifecycle
  imports Mysql
begin

text \<open>
  Starting, stopping and waiting for the database server: the functions \<open>splitCommandLine\<close>,
  \<open>portReachable\<close> and \<open>runMySQLLifecycleCmd\<close>, which \<open>internal/run/run.go\<close> and
  \<open>internal/restore/restore.go\<close> both have, and their polling loops \<open>waitForMySQL\<close> and
  \<open>waitForPortState\<close>. The choice of the program to run is given for Windows too; the rest is that of a
  Unix build.
\<close>

subsection \<open>Command lines\<close>

text \<open>The bytes \<open>WriteRune\<close> writes for the first rune: its encoding, U+FFFD for an invalid byte.\<close>

definition rune_bytes :: "string \<Rightarrow> string" where
  "rune_bytes s = (case first_rune s of (x, n) \<Rightarrow>
     if x = 0xFFFD \<and> n = 1 then [CHR 0xEF, CHR 0xBF, CHR 0xBD] else take n s)"

text \<open>The loop of \<open>splitCommandLine\<close>: the quote flag, the word so far, the words so far.\<close>

function split_loop :: "bool \<Rightarrow> string \<Rightarrow> string list \<Rightarrow> string \<Rightarrow> string list" where
  "split_loop inQuote b parts s =
     (if s = [] then (if b \<noteq> [] then parts @ [b] else parts)
      else let x = fst (first_rune s); rest = drop (max 1 (snd (first_rune s))) s in
        if x = 34 \<or> x = 39 then split_loop (\<not> inQuote) b parts rest
        else if x = 32 \<or> x = 9 then
          (if \<not> inQuote \<and> b \<noteq> [] then split_loop inQuote [] (parts @ [b]) rest
           else if inQuote then split_loop inQuote (b @ rune_bytes s) parts rest
           else split_loop inQuote b parts rest)
        else split_loop inQuote (b @ rune_bytes s) parts rest)"
  by pat_completeness auto
termination
  by (relation "measure (\<lambda>(q, b, ps, s). length s)") auto

declare split_loop.simps [simp del]

definition splitCommandLine :: "string \<Rightarrow> string list" where
  "splitCommandLine s = split_loop False [] [] s"

subsection \<open>The server\<close>

definition portReachable :: "extenv \<Rightarrow> string \<Rightarrow> int \<Rightarrow> 'a sysworld_scheme \<Rightarrow> bool \<times> 'a sysworld_scheme" where
  "portReachable X host port w = dial_tcp X (JoinHostPort host (Itoa port)) w"

text \<open>
  The program and the arguments of a command. On Windows a batch file is given to \<open>cmd\<close> as a
  whole; the callers below are those of a Unix build.
\<close>

definition lifecycle_words :: "bool \<Rightarrow> string \<Rightarrow> (string \<times> string list) option" where
  "lifecycle_words windows cmd =
     (let lower = ToLower cmd in
      if windows \<and> (HasSuffix lower ''.bat'' \<or> HasSuffix lower ''.cmd'') then Some (''cmd'', [''/c'', cmd])
      else (case splitCommandLine cmd of [] \<Rightarrow> None | name # args \<Rightarrow> Some (name, args)))"

text \<open>
  The start command runs in the background. \<open>runMySQLLifecycleCmd\<close> of \<open>restore.go\<close>, and of
  \<open>run.go\<close>, where the stop command has a deadline and a hint is added to some messages.
\<close>

definition start_background ::
  "extenv \<Rightarrow> string \<Rightarrow> string list \<Rightarrow> 'a sysworld_scheme \<Rightarrow> goerr option \<times> 'a sysworld_scheme"
where
  "start_background X name args w =
     (case start_cmd X name args w of (s, w1) \<Rightarrow>
        if s \<noteq> ExitOK then (Some (Err ''err.start_cmd'' [] (Some (ExitErr s))), w1)
        else (None, log_msg INFO ''log.msg.mysql_start_background'' [] w1))"

definition restore_lifecycle_cmd ::
  "extenv \<Rightarrow> string \<Rightarrow> bool \<Rightarrow> 'a sysworld_scheme \<Rightarrow> goerr option \<times> 'a sysworld_scheme"
where
  "restore_lifecycle_cmd X command0 waitForExit w =
     (let command = TrimSpace command0 in
      if command = [] then (None, w)
      else (case lifecycle_words False command of
              None \<Rightarrow> (None, w)
            | Some (name, args) \<Rightarrow>
                if \<not> waitForExit then start_background X name args w
                else (case run_cmd X name args [] w of (r, w1) \<Rightarrow>
                        if status r \<noteq> ExitOK
                        then (Some (Err ''%w (output: %s)'' [combined r] (Some (ExitErr (status r)))), w1)
                        else if combined r \<noteq> [] then (None, log_msg INFO ''log.msg.mysql_lifecycle'' [combined r] w1)
                        else (None, w1))))"

definition start_hint :: string where
  "start_hint = [NL] @ ''Hinweis: XAMPP/MySQL-Logs pr'' @ [CHR 0xC3, CHR 0xBC] @ ''fen (z. B. mysql'' @ [backslash] @ ''data''
     @ [backslash] @ ''*.err), Port 3306, my.ini.''"

definition runMySQLLifecycleCmd ::
  "extenv \<Rightarrow> string \<Rightarrow> bool \<Rightarrow> 'a sysworld_scheme \<Rightarrow> goerr option \<times> 'a sysworld_scheme"
where
  "runMySQLLifecycleCmd X cmd0 waitForExit w =
     (let cmd = TrimSpace cmd0 in
      if cmd = [] then (None, w)
      else (case lifecycle_words False cmd of
              None \<Rightarrow> (None, w)
            | Some (name, args) \<Rightarrow>
                if \<not> waitForExit then start_background X name args w
                else (case run_cmd X name args [] w of (r, w1) \<Rightarrow>
                        if status r \<noteq> ExitOK then
                          (if status r = ErrDeadline
                           then (Some (Err ''err.timeout_batch'' [combined r] (Some (ExitErr (status r)))), w1)
                           else let msg = combined r;
                                    msg1 = (if Contains (ToLower msg) ''could not be started'' \<or> Contains msg ''konnte nicht gestartet''
                                            then msg @ start_hint else msg)
                                in (Some (Err ''%w (output: %s)'' [msg1] (Some (ExitErr (status r)))), w1))
                        else if combined r \<noteq> [] then (None, log_msg INFO ''log.msg.mysql_lifecycle'' [combined r] w1)
                        else (None, w1))))"

text \<open>
  The polling loops. They end only if the clock moves on; \<^const>\<open>None\<close> is a loop that does not
  end.
\<close>

partial_function (option) poll_mysql ::
  "extenv \<Rightarrow> Conn \<Rightarrow> int \<Rightarrow> int \<Rightarrow> 'a sysworld_scheme \<Rightarrow> (bool \<times> 'a sysworld_scheme) option"
where
  "poll_mysql X conn deadline interval w =
     (if time_Now X w < deadline then
        (let r = Reachable X conn w in
         if fst r = None then Some (True, snd r)
         else poll_mysql X conn deadline interval (time_Sleep interval (snd r)))
      else Some (False, w))"

definition waitForMySQL ::
  "extenv \<Rightarrow> Conn \<Rightarrow> int \<Rightarrow> int \<Rightarrow> 'a sysworld_scheme \<Rightarrow> (bool \<times> 'a sysworld_scheme) option"
where
  "waitForMySQL X conn timeout interval w = poll_mysql X conn (time_Now X w + timeout) interval w"

partial_function (option) poll_port ::
  "extenv \<Rightarrow> string \<Rightarrow> int \<Rightarrow> bool \<Rightarrow> int \<Rightarrow> int \<Rightarrow> 'a sysworld_scheme \<Rightarrow> (bool \<times> 'a sysworld_scheme) option"
where
  "poll_port X host port wantOpen deadline interval w =
     (if time_Now X w < deadline then
        (let r = portReachable X host port w in
         if fst r = wantOpen then Some (True, snd r)
         else poll_port X host port wantOpen deadline interval (time_Sleep interval (snd r)))
      else Some (False, w))"

definition waitForPortState ::
  "extenv \<Rightarrow> string \<Rightarrow> int \<Rightarrow> bool \<Rightarrow> int \<Rightarrow> int \<Rightarrow> 'a sysworld_scheme \<Rightarrow> (bool \<times> 'a sysworld_scheme) option"
where
  "waitForPortState X host port wantOpen timeout interval w =
     poll_port X host port wantOpen (time_Now X w + timeout) interval w"

declare poll_mysql.simps [code] poll_port.simps [code]

subsection \<open>The polling loops end\<close>

text \<open>A clock that never goes back and that a sleep moves on by at least its length.\<close>

locale moving_clock =
  fixes X :: extenv
  assumes clock_mono: "clock X tr \<le> clock X (tr @ [e])"
    and clock_sleep: "0 \<le> d \<Longrightarrow> clock X tr + d \<le> clock X (tr @ [Sleep d])"
begin

text \<open>
  A loop that sleeps a positive time in every round ends. It ends well only on a successful
  probe, and badly only at the deadline.
\<close>

lemma poll_mysql_ends:
  assumes "0 < interval"
  shows "\<exists>b w'. poll_mysql X conn deadline interval w = Some (b, w')
    \<and> (if b then \<exists>v. Reachable X conn v = (None, w') else deadline \<le> time_Now X w')"
proof (induction "nat (deadline - time_Now X w)" arbitrary: w rule: less_induct)
  case less
  define w1 where "w1 = time_Sleep interval (snd (Reachable X conn w))"
  show ?case
  proof (cases "time_Now X w < deadline \<and> fst (Reachable X conn w) \<noteq> None")
    case True
    have "time_Now X w \<le> time_Now X (snd (Reachable X conn w))"
      by (simp add: time_Now_def Reachable_def run_cmd_def Let_def clock_mono)
    moreover have "time_Now X (snd (Reachable X conn w)) + interval \<le> time_Now X w1"
      using clock_sleep [of interval] assms by (simp add: w1_def time_Now_def time_Sleep_def)
    ultimately have "nat (deadline - time_Now X w1) < nat (deadline - time_Now X w)" using True assms by linarith
    note IH = less [OF this]
    have "poll_mysql X conn deadline interval w = poll_mysql X conn deadline interval w1"
      using True by (subst poll_mysql.simps) (auto simp: Let_def w1_def)
    with IH show ?thesis by simp
  next
    case False
    then consider "\<not> time_Now X w < deadline" | "time_Now X w < deadline" "fst (Reachable X conn w) = None"
      by blast
    then show ?thesis
    proof cases
      case 1
      then show ?thesis by (subst poll_mysql.simps) auto
    next
      case 2
      then have "poll_mysql X conn deadline interval w = Some (True, snd (Reachable X conn w))"
        by (subst poll_mysql.simps) (simp add: Let_def)
      moreover have "Reachable X conn w = (None, snd (Reachable X conn w))" using 2(2) by (simp add: prod_eq_iff)
      ultimately show ?thesis by auto
    qed
  qed
qed

lemma poll_port_ends:
  assumes "0 < interval"
  shows "\<exists>b w'. poll_port X host port want deadline interval w = Some (b, w')
    \<and> (if b then \<exists>v. portReachable X host port v = (want, w') else deadline \<le> time_Now X w')"
proof (induction "nat (deadline - time_Now X w)" arbitrary: w rule: less_induct)
  case less
  define w1 where "w1 = time_Sleep interval (snd (portReachable X host port w))"
  show ?case
  proof (cases "time_Now X w < deadline \<and> fst (portReachable X host port w) \<noteq> want")
    case True
    have "time_Now X w \<le> time_Now X (snd (portReachable X host port w))"
      by (simp add: time_Now_def portReachable_def clock_mono)
    moreover have "time_Now X (snd (portReachable X host port w)) + interval \<le> time_Now X w1"
      using clock_sleep [of interval] assms by (simp add: w1_def time_Now_def time_Sleep_def)
    ultimately have "nat (deadline - time_Now X w1) < nat (deadline - time_Now X w)" using True assms by linarith
    note IH = less [OF this]
    have "poll_port X host port want deadline interval w = poll_port X host port want deadline interval w1"
      using True by (subst poll_port.simps) (auto simp: Let_def w1_def)
    with IH show ?thesis by simp
  next
    case False
    then consider "\<not> time_Now X w < deadline" | "time_Now X w < deadline" "fst (portReachable X host port w) = want"
      by blast
    then show ?thesis
    proof cases
      case 1
      then show ?thesis by (subst poll_port.simps) auto
    next
      case 2
      then have "poll_port X host port want deadline interval w = Some (True, snd (portReachable X host port w))"
        by (subst poll_port.simps) (simp add: Let_def)
      moreover have "portReachable X host port w = (want, snd (portReachable X host port w))" using 2(2) by (simp add: prod_eq_iff)
      ultimately show ?thesis by auto
    qed
  qed
qed

end

text \<open>The clock that shows the time slept so far.\<close>

definition slept :: "event list \<Rightarrow> int" where
  "slept tr = sum_list (map (\<lambda>e. case e of Sleep d \<Rightarrow> max 0 d | _ \<Rightarrow> 0) tr)"

definition with_sleep_clock :: "extenv \<Rightarrow> extenv" where
  "with_sleep_clock X = X\<lparr>clock := slept\<rparr>"

interpretation sleeping: moving_clock "with_sleep_clock X" for X
  by unfold_locales (auto simp: with_sleep_clock_def slept_def split: event.split)

text \<open>
  Waiting for the server always ends if the clock moves on: with a successful probe as its
  last act, or not before the timeout.
\<close>

theorem waitForMySQL_ends:
  assumes "moving_clock X" "0 < interval"
  shows "\<exists>b w'. waitForMySQL X conn timeout interval w = Some (b, w')
    \<and> (if b then \<exists>v. Reachable X conn v = (None, w') else time_Now X w + timeout \<le> time_Now X w')"
  unfolding waitForMySQL_def by (rule moving_clock.poll_mysql_ends [OF assms])

definition ex_down :: extenv where
  "ex_down = \<lparr>process = (\<lambda>_. \<lparr>combined = [], stdout = [], stderr = [], status = ExitStatus 1, eaten = True\<rparr>), listens = (\<lambda>_. False),
     smtp_ok = (\<lambda>_. False), clock = (\<lambda>_. 0)\<rparr>"

definition ex_local :: Conn where
  "ex_local = \<lparr>Host = ''localhost'', Port = 3306, User = ''root'', Password = [], BinDir = []\<rparr>"

definition ex_quiet :: sysworld where
  "ex_quiet = \<lparr>files = [], logs = [], trace = []\<rparr>"

theorem waitForMySQL_ends_witness:
  "\<exists>b w'. waitForMySQL (with_sleep_clock ex_down) ex_local (60 * Second) (2 * Second) ex_quiet = Some (b, w')
    \<and> (if b then \<exists>v. Reachable (with_sleep_clock ex_down) ex_local v = (None, w')
       else time_Now (with_sleep_clock ex_down) ex_quiet + 60 * Second \<le> time_Now (with_sleep_clock ex_down) w')"
  by (rule waitForMySQL_ends [OF sleeping.moving_clock_axioms]) (simp add: Second_def)

text \<open>
  Waiting for a port to open or close always ends if the clock moves on, in the wanted
  state at the last probe or not before the timeout.
\<close>

theorem waitForPortState_ends:
  assumes "moving_clock X" "0 < interval"
  shows "\<exists>b w'. waitForPortState X host port want timeout interval w = Some (b, w')
    \<and> (if b then \<exists>v. portReachable X host port v = (want, w') else time_Now X w + timeout \<le> time_Now X w')"
  unfolding waitForPortState_def by (rule moving_clock.poll_port_ends [OF assms])

theorem waitForPortState_ends_witness:
  "\<exists>b w'. waitForPortState (with_sleep_clock ex_down) ''localhost'' 3306 True (60 * Second) (2 * Second) ex_quiet = Some (b, w')
    \<and> (if b then \<exists>v. portReachable (with_sleep_clock ex_down) ''localhost'' 3306 v = (True, w')
       else time_Now (with_sleep_clock ex_down) ex_quiet + 60 * Second \<le> time_Now (with_sleep_clock ex_down) w')"
  by (rule waitForPortState_ends [OF sleeping.moving_clock_axioms]) (simp add: Second_def)

subsection \<open>Splitting what was quoted\<close>

lemma split_loop_ascii:
  assumes "(of_char c :: int) < 0x80"
  shows "split_loop q b ps (c # s) =
    (if c = dquote \<or> c = squote then split_loop (\<not> q) b ps s
     else if c = CHR '' '' \<or> c = TAB then
       (if \<not> q \<and> b \<noteq> [] then split_loop q [] (ps @ [b]) s else if q then split_loop q (b @ [c]) ps s else split_loop q b ps s)
     else split_loop q (b @ [c]) ps s)"
proof -
  have r: "first_rune (c # s) = (of_char c, 1)" using assms by (simp add: first_rune_ascii)
  have x: "(of_char c :: int) = 34 \<longleftrightarrow> c = dquote" "(of_char c :: int) = 39 \<longleftrightarrow> c = squote"
    "(of_char c :: int) = 32 \<longleftrightarrow> c = CHR '' ''" "(of_char c :: int) = 9 \<longleftrightarrow> c = TAB"
    using of_char_inj [of c dquote] of_char_inj [of c squote] of_char_inj [of c "CHR '' ''"] of_char_inj [of c TAB]
    by (simp_all add: of_char_def del: of_char_inj)
  have w: "rune_bytes (c # s) = [c]" using assms by (simp add: rune_bytes_def r)
  show ?thesis
    unfolding split_loop.simps [of q b ps "c # s"] r w Let_def fst_conv snd_conv x by simp
qed

definition word_chars :: "bool \<Rightarrow> string \<Rightarrow> bool" where
  "word_chars q w \<longleftrightarrow> is_ascii w \<and> dquote \<notin> set w \<and> squote \<notin> set w \<and> (q \<or> CHR '' '' \<notin> set w \<and> TAB \<notin> set w)"

lemma split_loop_word: "word_chars q w \<Longrightarrow> split_loop q b ps (w @ s) = split_loop q (b @ w) ps s"
proof (induction w arbitrary: b)
  case (Cons c w)
  then have "(of_char c :: int) < 0x80" "word_chars q w" by (auto simp: word_chars_def is_ascii_def)
  with Cons show ?case by (auto simp: split_loop_ascii word_chars_def)
qed simp

text \<open>A word as one writes it in the configuration: in quotes where it has a space.\<close>

definition print_word :: "string \<Rightarrow> string" where
  "print_word w = (if CHR '' '' \<in> set w \<or> TAB \<in> set w then [dquote] @ w @ [dquote] else w)"

lemma split_loop_print:
  assumes "word_chars True w" shows "split_loop False [] ps (print_word w @ s) = split_loop False w ps s"
proof (cases "CHR '' '' \<in> set w \<or> TAB \<in> set w")
  case True
  have d: "(of_char dquote :: int) < 0x80" by (simp add: of_char_def)
  from True show ?thesis
    using split_loop_word [OF assms, of "[]" ps "dquote # s"]
    by (simp add: print_word_def split_loop_ascii [OF d])
next
  case False
  with assms have "word_chars False w" by (auto simp: word_chars_def)
  with False show ?thesis using split_loop_word [of False w "[]" ps s] by (simp add: print_word_def)
qed

lemma split_loop_words:
  "list_all (\<lambda>w. w \<noteq> [] \<and> word_chars True w) ws \<Longrightarrow>
     split_loop False [] ps (strings_Join (map print_word ws) '' '') = ps @ ws"
proof (induction ws arbitrary: ps)
  case Nil
  show ?case by (simp add: split_loop.simps)
next
  case (Cons w ws)
  have sp: "(of_char (CHR '' '') :: int) < 0x80" by (simp add: of_char_def)
  show ?case
  proof (cases ws)
    case Nil
    with Cons show ?thesis using split_loop_print [of w ps "[]"] by (simp add: split_loop.simps [of _ _ _ "[]"])
  next
    case (Cons v vs)
    let ?s = "strings_Join (map print_word ws) '' ''"
    have "strings_Join (map print_word (w # ws)) '' '' = print_word w @ CHR '' '' # ?s" using Cons by simp
    moreover have "split_loop False [] ps (print_word w @ CHR '' '' # ?s) = split_loop False w ps (CHR '' '' # ?s)"
      using Cons.prems by (simp add: split_loop_print)
    moreover have "\<dots> = split_loop False [] (ps @ [w]) ?s"
      using Cons.prems by (simp add: split_loop_ascii [OF sp])
    ultimately show ?thesis using Cons.IH [of "ps @ [w]"] Cons.prems by simp
  qed
qed

text \<open>
  C27. A command line of non-empty words, put in double quotes where they have spaces, splits
  into exactly these words, if no word has a quote of its own.
\<close>

theorem splitCommandLine_words:
  assumes "list_all (\<lambda>w. w \<noteq> [] \<and> word_chars True w) ws"
  shows "splitCommandLine (strings_Join (map print_word ws) '' '') = ws"
  using split_loop_words [OF assms, of "[]"] by (simp add: splitCommandLine_def)

theorem splitCommandLine_words_witness:
  "splitCommandLine (strings_Join (map print_word [''C:/my sql/mysqld'', ''--standalone'']) '' '')
     = [''C:/my sql/mysqld'', ''--standalone'']"
  by (rule splitCommandLine_words) code_simp

text \<open>The two exceptions are real: an empty word is dropped, and either quote ends the other.\<close>

lemma empty_word_dropped: "splitCommandLine (''x '' @ [dquote, dquote]) = [''x'']"
  by code_simp

lemma quotes_mixed: "splitCommandLine ([dquote] @ ''it'' @ [squote] @ ''s x'' @ [dquote]) = [''its'', ''x'']"
  by code_simp

end
