(* ===== verification/Email.thy ===== *)
theory Email
  imports Go_Exec Config
begin

text \<open>
  \<open>internal/email/email.go\<close>: the mail that reports an error. The calls of \<open>net/smtp\<close> and
  \<open>crypto/tls\<close> are events; the outside world says which succeed. What \<open>net/smtp\<close> itself
  checks before it sends anything is modelled: an address may hold no line end
  (\<open>validateLine\<close>), and \<open>PlainAuth\<close> refuses to send the password over a connection without
  TLS to a server that is not this machine.
\<close>

definition CRLF :: string where
  "CRLF = [CR, CHR 0x0A]"

definition smtp_call :: "extenv \<Rightarrow> smtp_op \<Rightarrow> 'a sysworld_scheme \<Rightarrow> goerr option \<times> 'a sysworld_scheme" where
  "smtp_call X op w =
     (let w' = emit (SMTP op) w in (if smtp_ok X (trace w') then None else Some (Text ''smtp''), w'))"

definition validateLine :: "string \<Rightarrow> bool" where
  "validateLine s \<longleftrightarrow> CR \<notin> set s \<and> CHR 0x0A \<notin> set s"

definition isLocalhost :: "string \<Rightarrow> bool" where
  "isLocalhost n \<longleftrightarrow> n = ''localhost'' \<or> n = ''127.0.0.1'' \<or> n = ''::1''"

text \<open>
  \<open>smtp.Auth\<close> made by \<open>PlainAuth(identity, username, password, host)\<close>, and \<open>client.Auth\<close> on a
  client of the server \<open>name\<close>: a refusal ends the session.
\<close>

record plainAuth =
  identity :: string
  username :: string
  secret :: string
  authHost :: string

definition client_Auth ::
  "extenv \<Rightarrow> bool \<Rightarrow> string \<Rightarrow> plainAuth \<Rightarrow> 'a sysworld_scheme \<Rightarrow> goerr option \<times> 'a sysworld_scheme"
where
  "client_Auth X tls name a w =
     (if (\<not> tls \<and> \<not> isLocalhost name) \<or> name \<noteq> authHost a
      then (Some (Text ''auth''), snd (smtp_call X Quit w))
      else smtp_call X (Auth (identity a) (username a) (secret a) (authHost a)) w)"

text \<open>A call and, where it succeeds, what follows it.\<close>

definition then_do ::
  "goerr option \<times> 'a sysworld_scheme \<Rightarrow> ('a sysworld_scheme \<Rightarrow> goerr option \<times> 'a sysworld_scheme)
     \<Rightarrow> goerr option \<times> 'a sysworld_scheme"
where
  "then_do r k = (case r of (Some e, w) \<Rightarrow> (Some e, w) | (None, w) \<Rightarrow> k w)"

text \<open>The message: \<open>Mail\<close>, \<open>Rcpt\<close>, \<open>Data\<close>, the text and \<open>Quit\<close>.\<close>

definition transmit :: "extenv \<Rightarrow> Config \<Rightarrow> bytes \<Rightarrow> 'a sysworld_scheme \<Rightarrow> goerr option \<times> 'a sysworld_scheme" where
  "transmit X cfg msg w =
     then_do (if validateLine (AdminEmail cfg) then smtp_call X (Mail (AdminEmail cfg)) w else (Some (Text ''line''), w)) (\<lambda>w.
     then_do (if validateLine (AdminEmail cfg) then smtp_call X (Rcpt (AdminEmail cfg)) w else (Some (Text ''line''), w)) (\<lambda>w.
     then_do (smtp_call X Data w) (\<lambda>w.
     then_do (smtp_call X (WriteData msg) w) (\<lambda>w.
     then_do (smtp_call X CloseData w) (\<lambda>w.
     smtp_call X Quit w)))))"

text \<open>The part \<open>sendTLS\<close> and \<open>sendSTARTTLS\<close> have in common, from \<open>client.Auth\<close> on.\<close>

definition deliver ::
  "extenv \<Rightarrow> Config \<Rightarrow> bool \<Rightarrow> plainAuth \<Rightarrow> bytes \<Rightarrow> 'a sysworld_scheme \<Rightarrow> goerr option \<times> 'a sysworld_scheme"
where
  "deliver X cfg tls a msg w = then_do (client_Auth X tls (AdminSMTPServer cfg) a w) (transmit X cfg msg)"

definition sendTLS ::
  "extenv \<Rightarrow> Config \<Rightarrow> string \<Rightarrow> plainAuth \<Rightarrow> bytes \<Rightarrow> 'a sysworld_scheme \<Rightarrow> goerr option \<times> 'a sysworld_scheme"
where
  "sendTLS X cfg addr a msg w =
     (case smtp_call X (TLSDial addr (AdminSMTPServer cfg)) w of
        (Some e, w1) \<Rightarrow> (Some (Err ''err.tls_dial'' [] (Some e)), w1)
      | (None, w1) \<Rightarrow>
          then_do (smtp_call X (NewClient (AdminSMTPServer cfg)) w1) (deliver X cfg True a msg))"

definition sendSTARTTLS ::
  "extenv \<Rightarrow> Config \<Rightarrow> string \<Rightarrow> plainAuth \<Rightarrow> bytes \<Rightarrow> 'a sysworld_scheme \<Rightarrow> goerr option \<times> 'a sysworld_scheme"
where
  "sendSTARTTLS X cfg addr a msg w =
     (case smtp_call X (SMTPDial addr) w of
        (Some e, w1) \<Rightarrow> (Some (Err ''err.dial'' [] (Some e)), w1)
      | (None, w1) \<Rightarrow>
          then_do (smtp_call X (NewClient (AdminSMTPServer cfg)) w1) (\<lambda>w2.
            (case smtp_call X (Extension ''STARTTLS'') w2 of
               (Some _, w3) \<Rightarrow> deliver X cfg False a msg w3
             | (None, w3) \<Rightarrow>
                 (case smtp_call X (StartTLS (AdminSMTPServer cfg)) w3 of
                    (Some e, w4) \<Rightarrow> (Some (Err ''err.starttls'' [] (Some e)), w4)
                  | (None, w4) \<Rightarrow> deliver X cfg True a msg w4))))"

text \<open>
  \<open>smtp.SendMail\<close>: it uses TLS where the server offers it, and \<open>Auth\<close> unless the server knows no
  extensions at all (\<open>Ehlo\<close>). The name of the client is the host part of the address, as
  \<open>net.SplitHostPort\<close> finds it.
\<close>

definition addr_host :: "string \<Rightarrow> string" where
  "addr_host addr =
     (let h = rev (drop 1 (dropWhile (\<lambda>c. c \<noteq> CHR '':'') (rev addr))) in
      if HasPrefix h ''['' \<and> HasSuffix h '']'' \<and> 2 \<le> length h then
        (let i = take (length h - 2) (drop 1 h) in
         if CHR ''['' \<in> set i \<or> CHR '']'' \<in> set i then [] else i)
      else if CHR '':'' \<in> set h \<or> CHR ''['' \<in> set h \<or> CHR '']'' \<in> set h then [] else h)"

definition smtp_SendMail ::
  "extenv \<Rightarrow> Config \<Rightarrow> string \<Rightarrow> plainAuth \<Rightarrow> bytes \<Rightarrow> 'a sysworld_scheme \<Rightarrow> goerr option \<times> 'a sysworld_scheme"
where
  "smtp_SendMail X cfg addr a msg w =
     (let send = (\<lambda>tls w.
            (case smtp_call X Ehlo w of
               (Some _, w1) \<Rightarrow> transmit X cfg msg w1
             | (None, w1) \<Rightarrow>
                 then_do (smtp_call X (Extension ''AUTH'') w1) (\<lambda>w.
                 then_do (client_Auth X tls (addr_host addr) a w) (transmit X cfg msg))))
      in if \<not> validateLine (AdminEmail cfg) then (Some (Text ''line''), w)
         else
           then_do (smtp_call X (SMTPDial addr) w) (\<lambda>w.
           then_do (smtp_call X (NewClient (addr_host addr)) w) (\<lambda>w.
           then_do (smtp_call X Hello w) (\<lambda>w.
             (case smtp_call X (Extension ''STARTTLS'') w of
                (Some _, w1) \<Rightarrow> send False w1
              | (None, w1) \<Rightarrow> then_do (smtp_call X (StartTLS (addr_host addr)) w1) (send True))))))"

definition mail_text :: "Config \<Rightarrow> string \<Rightarrow> string \<Rightarrow> bytes" where
  "mail_text cfg subject body =
     ''To: '' @ AdminEmail cfg @ CRLF @ ''Subject: '' @ subject @ CRLF
     @ ''Content-Type: text/plain; charset=UTF-8'' @ CRLF @ CRLF @ body @ CRLF"

definition tls_mode :: "string \<Rightarrow> int \<Rightarrow> string" where
  "tls_mode conf port =
     (let tlsMode = ToLower (TrimSpace conf) in
      if tlsMode = [] then (if port = 465 then ''tls'' else if port = 587 then ''starttls'' else tlsMode)
      else tlsMode)"

definition Send ::
  "extenv \<Rightarrow> Config \<Rightarrow> string \<Rightarrow> string \<Rightarrow> 'a sysworld_scheme \<Rightarrow> goerr option \<times> 'a sysworld_scheme"
where
  "Send X cfg subject body w =
     (if AdminEmail cfg = [] \<or> AdminSMTPServer cfg = [] then (None, w)
      else
        let port = (if AdminSMTPPort cfg \<le> 0 then 587 else AdminSMTPPort cfg);
            addr = AdminSMTPServer cfg @ '':'' @ Itoa port;
            authUser = (let u = TrimSpace (AdminSMTPUser cfg) in if u = [] then AdminEmail cfg else u);
            auth = \<lparr>identity = authUser, username = authUser, secret = AdminSMTPPassword cfg, authHost = AdminSMTPServer cfg\<rparr>;
            msg = mail_text cfg subject body;
            mode = tls_mode (AdminSMTPTLS cfg) port
        in if mode = ''tls'' then sendTLS X cfg addr auth msg w
           else if mode = ''starttls'' then sendSTARTTLS X cfg addr auth msg w
           else smtp_SendMail X cfg addr auth msg w)"

definition FormatErrorBody :: "string \<Rightarrow> string \<Rightarrow> string \<Rightarrow> string" where
  "FormatErrorBody subject errDetail logExcerpt =
     subject @ [CHR 0x0A, CHR 0x0A] @ ''Fehlerdetails / Error details:'' @ [CHR 0x0A] @ errDetail @ [CHR 0x0A, CHR 0x0A]
     @ (if logExcerpt \<noteq> [] then ''Log-Auszug / Log excerpt:'' @ [CHR 0x0A] @ logExcerpt else [])"

subsection \<open>Facts\<close>

text \<open>Events that carry the password, and events that make a connection secret.\<close>

definition auth_event :: "event \<Rightarrow> bool" where
  "auth_event e \<longleftrightarrow> (\<exists>i u p h. e = SMTP (Auth i u p h))"

definition tls_event :: "event \<Rightarrow> bool" where
  "tls_event e \<longleftrightarrow> (\<exists>a n. e = SMTP (TLSDial a n)) \<or> (\<exists>n. e = SMTP (StartTLS n))"

fun auth_after_tls :: "bool \<Rightarrow> event list \<Rightarrow> bool" where
  "auth_after_tls tls [] = True"
| "auth_after_tls tls (e # es) = ((auth_event e \<longrightarrow> tls) \<and> auth_after_tls (tls \<or> tls_event e) es)"

lemma event_kinds [simp]:
  "\<not> auth_event (SMTP (TLSDial a n))" "\<not> auth_event (SMTP (SMTPDial a))" "\<not> auth_event (SMTP (NewClient n))"
  "\<not> auth_event (SMTP (Extension n))" "\<not> auth_event (SMTP (StartTLS n))" "\<not> auth_event (SMTP (Mail n))"
  "\<not> auth_event (SMTP (Rcpt n))" "\<not> auth_event (SMTP Data)" "\<not> auth_event (SMTP (WriteData d))"
  "\<not> auth_event (SMTP CloseData)" "\<not> auth_event (SMTP Quit)" "\<not> auth_event (SMTP Hello)" "\<not> auth_event (SMTP Ehlo)"
  "\<not> tls_event (SMTP (SMTPDial a))" "\<not> tls_event (SMTP (NewClient n))" "\<not> tls_event (SMTP (Extension n))"
  "\<not> tls_event (SMTP Hello)" "\<not> tls_event (SMTP Ehlo)"
  "tls_event (SMTP (TLSDial a n))" "tls_event (SMTP (StartTLS n))"
  by (simp_all add: auth_event_def tls_event_def)

lemma auth_after_tls_True [simp]: "auth_after_tls True es"
  by (induction es) auto

lemma smtp_call_simps:
  "snd (smtp_call X op w) = emit (SMTP op) w"
  "smtp_call X op w = (r, w') \<Longrightarrow> w' = emit (SMTP op) w"
  by (auto simp: smtp_call_def Let_def)

text \<open>The trace grows by a list of events with a property, kept by sequencing.\<close>

definition grows :: "(event list \<Rightarrow> bool) \<Rightarrow> 'a sysworld_scheme \<Rightarrow> 'b \<times> 'a sysworld_scheme \<Rightarrow> bool" where
  "grows P w r \<longleftrightarrow> (\<exists>es. trace (snd r) = trace w @ es \<and> P es)"

lemma grows_then_do:
  assumes "grows (\<lambda>_. True) w r" "\<And>w'. grows (\<lambda>_. True) w' (k w')"
  shows "grows (\<lambda>_. True) w (then_do r k)"
  using assms(1) assms(2) [of "snd r"] by (cases r; cases "fst r") (auto simp: grows_def then_do_def)

lemma grows_call: "P [SMTP op] \<Longrightarrow> grows P w (smtp_call X op w)"
  by (simp add: grows_def smtp_call_simps)

lemma grows_none: "P [] \<Longrightarrow> grows P w (e, w)"
  by (simp add: grows_def)

lemma grows_emit: "P [x] \<Longrightarrow> grows P w (e, emit x w)"
  by (simp add: grows_def)

lemma transmit_grows: "grows (\<lambda>_. True) w (transmit X cfg msg w)"
  by (auto simp: transmit_def intro!: grows_then_do grows_call grows_none)

lemma deliver_grows: "grows (\<lambda>_. True) w (deliver X cfg tls a msg w)"
  by (auto simp: deliver_def client_Auth_def smtp_call_simps intro!: grows_then_do grows_call grows_emit transmit_grows)

text \<open>A message that goes on a connection without \<open>Auth\<close> holds no password.\<close>

lemma transmit_no_auth: "\<exists>es. trace (snd (transmit X cfg msg w)) = trace w @ es \<and> auth_after_tls tls es"
  by (auto simp: transmit_def then_do_def smtp_call_def Let_def)

lemma deliver_refused:
  "\<not> isLocalhost (AdminSMTPServer cfg) \<Longrightarrow> trace (snd (deliver X cfg False a msg w)) = trace w @ [SMTP Quit]"
  by (simp add: deliver_def client_Auth_def then_do_def smtp_call_simps)

lemma deliver_trace: obtains es where "trace (snd (deliver X cfg tls a msg w)) = trace w @ es"
  using deliver_grows [of w X cfg tls a msg] by (auto simp: grows_def)

lemma sendTLS_auth: "\<exists>es. trace (snd (sendTLS X cfg addr a msg w)) = trace w @ es \<and> auth_after_tls False es"
proof -
  obtain r w1 where 1: "smtp_call X (TLSDial addr (AdminSMTPServer cfg)) w = (r, w1)" by fastforce
  obtain r2 w2 where 2: "smtp_call X (NewClient (AdminSMTPServer cfg)) w1 = (r2, w2)" by fastforce
  note t = smtp_call_simps(2) [OF 1] smtp_call_simps(2) [OF 2]
  obtain es where "trace (snd (deliver X cfg True a msg w2)) = trace w2 @ es" by (rule deliver_trace)
  with 1 2 show ?thesis
    by (cases r; cases r2) (auto simp: sendTLS_def then_do_def t)
qed

lemma sendSTARTTLS_auth:
  assumes "\<not> isLocalhost (AdminSMTPServer cfg)"
  shows "\<exists>es. trace (snd (sendSTARTTLS X cfg addr a msg w)) = trace w @ es \<and> auth_after_tls False es"
proof -
  obtain r1 w1 where 1: "smtp_call X (SMTPDial addr) w = (r1, w1)" by fastforce
  obtain r2 w2 where 2: "smtp_call X (NewClient (AdminSMTPServer cfg)) w1 = (r2, w2)" by fastforce
  obtain r3 w3 where 3: "smtp_call X (Extension ''STARTTLS'') w2 = (r3, w3)" by fastforce
  obtain r4 w4 where 4: "smtp_call X (StartTLS (AdminSMTPServer cfg)) w3 = (r4, w4)" by fastforce
  note t = smtp_call_simps(2) [OF 1] smtp_call_simps(2) [OF 2] smtp_call_simps(2) [OF 3] smtp_call_simps(2) [OF 4]
  obtain es where es: "trace (snd (deliver X cfg True a msg w4)) = trace w4 @ es" by (rule deliver_trace)
  have "trace (snd (deliver X cfg False a msg w3)) = trace w3 @ [SMTP Quit]" by (rule deliver_refused [OF assms])
  with 1 2 3 4 es show ?thesis
    by (cases r1; cases r2; cases r3; cases r4) (auto simp: sendSTARTTLS_def then_do_def t)
qed

lemma SendMail_auth:
  fixes w :: "'a sysworld_scheme"
  assumes "\<not> isLocalhost (authHost a)"
  shows "\<exists>es. trace (snd (smtp_SendMail X cfg addr a msg w)) = trace w @ es \<and> auth_after_tls False es"
proof -
  define send where "send = (\<lambda>tls (w :: 'a sysworld_scheme).
            (case smtp_call X Ehlo w of
               (Some _, w1) \<Rightarrow> transmit X cfg msg w1
             | (None, w1) \<Rightarrow>
                 then_do (smtp_call X (Extension ''AUTH'') w1) (\<lambda>w.
                 then_do (client_Auth X tls (addr_host addr) a w) (transmit X cfg msg))))"
  have plain: "\<exists>es. trace (snd (send False w)) = trace w @ es \<and> auth_after_tls False es" for w
    using assms transmit_no_auth [of X cfg msg "emit (SMTP Ehlo) w" "tls_event (SMTP Ehlo)"]
    by (auto simp: send_def then_do_def client_Auth_def smtp_call_def Let_def)
  have auth: "grows (\<lambda>_. True) v (client_Auth X True (addr_host addr) a v)" for v :: "'a sysworld_scheme"
    by (auto simp: client_Auth_def smtp_call_simps intro!: grows_call grows_emit)
  have tls: "\<exists>es. trace (snd (send True w)) = trace w @ es" for w
  proof (cases "smtp_ok X (trace w @ [SMTP Ehlo])")
    case True
    have "grows (\<lambda>_. True) (emit (SMTP Ehlo) w) (send True w)"
      unfolding send_def using True
      by (auto simp: smtp_call_def [of X Ehlo] Let_def intro!: grows_then_do grows_call auth transmit_grows)
    then show ?thesis by (auto simp: grows_def)
  next
    case False
    have "grows (\<lambda>_. True) (emit (SMTP Ehlo) w) (send True w)"
      unfolding send_def using False by (auto simp: smtp_call_def [of X Ehlo] Let_def intro!: transmit_grows)
    then show ?thesis by (auto simp: grows_def)
  qed
  obtain r1 w1 where 1: "smtp_call X (SMTPDial addr) w = (r1, w1)" by fastforce
  obtain r2 w2 where 2: "smtp_call X (NewClient (addr_host addr)) w1 = (r2, w2)" by fastforce
  obtain r3 w3 where 3: "smtp_call X Hello w2 = (r3, w3)" by fastforce
  obtain r4 w4 where 4: "smtp_call X (Extension ''STARTTLS'') w3 = (r4, w4)" by fastforce
  obtain r5 w5 where 5: "smtp_call X (StartTLS (addr_host addr)) w4 = (r5, w5)" by fastforce
  note t = smtp_call_simps(2) [OF 1] smtp_call_simps(2) [OF 2] smtp_call_simps(2) [OF 3] smtp_call_simps(2) [OF 4]
    smtp_call_simps(2) [OF 5]
  obtain es es' where "trace (snd (send False w4)) = trace w4 @ es" "auth_after_tls False es"
      "trace (snd (send True w5)) = trace w5 @ es'"
    using plain tls by blast
  with 1 2 3 4 5 show ?thesis
    unfolding smtp_SendMail_def send_def [symmetric] Let_def
    by (cases r1; cases r2; cases r3; cases r4; cases r5) (auto simp: then_do_def t)
qed

subsection \<open>Properties\<close>


definition ex_server :: extenv where
  "ex_server = \<lparr>process = (\<lambda>_. \<lparr>combined = [], stdout = [], stderr = [], status = ExitOK, eaten = True\<rparr>), listens = (\<lambda>_. True),
     smtp_ok = (\<lambda>_. True), clock = (\<lambda>_. 0)\<rparr>"

definition ex_idle :: sysworld where
  "ex_idle = \<lparr>files = [], logs = [], trace = []\<rparr>"

definition ex_mail :: Config where
  "ex_mail = DefaultConfig\<lparr>AdminEmail := ''a@b'', AdminSMTPServer := ''mail'', AdminSMTPPassword := ''pw''\<rparr>"


lemma then_do_None: "then_do r k = (None, w') \<longleftrightarrow> (\<exists>w1. r = (None, w1) \<and> k w1 = (None, w'))"
  by (cases r; cases "fst r") (auto simp: then_do_def)

lemma smtp_call_None: "smtp_call X op w = (None, w') \<longleftrightarrow> w' = emit (SMTP op) w \<and> smtp_ok X (trace w @ [SMTP op])"
  by (auto simp: smtp_call_def Let_def)

definition handed_over :: "Config \<Rightarrow> bytes \<Rightarrow> event list \<Rightarrow> bool" where
  "handed_over cfg msg es \<longleftrightarrow>
     (\<exists>pre. es = pre @ map SMTP [Mail (AdminEmail cfg), Rcpt (AdminEmail cfg), Data, WriteData msg, CloseData, Quit])"

lemma transmit_ok:
  "transmit X cfg msg w = (None, w') \<Longrightarrow>
     trace w' = trace w @ map SMTP [Mail (AdminEmail cfg), Rcpt (AdminEmail cfg), Data, WriteData msg, CloseData, Quit]"
  by (auto simp: transmit_def then_do_None smtp_call_None split: if_splits)

lemma handed_over_transmit:
  "transmit X cfg msg w1 = (None, w') \<Longrightarrow> trace w1 = trace w @ pre \<Longrightarrow> \<exists>es. trace w' = trace w @ es \<and> handed_over cfg msg es"
  by (auto simp: handed_over_def dest!: transmit_ok)

lemma client_Auth_ok: "client_Auth X tls n a w = (None, w1) \<Longrightarrow> \<exists>pre. trace w1 = trace w @ pre"
  by (auto simp: client_Auth_def smtp_call_None split: if_splits)

lemma deliver_ok:
  assumes "deliver X cfg tls a msg w1 = (None, w')" "trace w1 = trace w @ pre"
  shows "\<exists>es. trace w' = trace w @ es \<and> handed_over cfg msg es"
proof -
  obtain w2 where 2: "client_Auth X tls (AdminSMTPServer cfg) a w1 = (None, w2)" "transmit X cfg msg w2 = (None, w')"
    using assms(1) by (auto simp: deliver_def then_do_None)
  then obtain pre2 where "trace w2 = trace w1 @ pre2" using client_Auth_ok by blast
  then show ?thesis using handed_over_transmit [OF 2(2), of w "pre @ pre2"] assms(2) by simp
qed

lemma sendTLS_ok: "sendTLS X cfg addr a msg w = (None, w') \<Longrightarrow> \<exists>es. trace w' = trace w @ es \<and> handed_over cfg msg es"
  by (auto simp: sendTLS_def then_do_None smtp_call_None split: option.splits prod.splits
      dest!: smtp_call_simps(2) elim!: deliver_ok)

lemma sendSTARTTLS_ok: "sendSTARTTLS X cfg addr a msg w = (None, w') \<Longrightarrow> \<exists>es. trace w' = trace w @ es \<and> handed_over cfg msg es"
  by (auto simp: sendSTARTTLS_def then_do_None smtp_call_None split: option.splits prod.splits
      dest!: smtp_call_simps(2) elim!: deliver_ok)

lemma SendMail_ok:
  fixes w :: "'a sysworld_scheme"
  assumes "smtp_SendMail X cfg addr a msg w = (None, w')"
  shows "\<exists>es. trace w' = trace w @ es \<and> handed_over cfg msg es"
proof -
  define send where "send = (\<lambda>tls (w :: 'a sysworld_scheme).
            (case smtp_call X Ehlo w of
               (Some _, w1) \<Rightarrow> transmit X cfg msg w1
             | (None, w1) \<Rightarrow>
                 then_do (smtp_call X (Extension ''AUTH'') w1) (\<lambda>w.
                 then_do (client_Auth X tls (addr_host addr) a w) (transmit X cfg msg))))"
  have send: "\<exists>w1 pre. transmit X cfg msg w1 = (None, w') \<and> trace w1 = trace v @ pre"
    if sent: "send tls v = (None, w')" for tls v
  proof (cases "smtp_ok X (trace v @ [SMTP Ehlo])")
    case True
    then obtain w1 where 1: "client_Auth X tls (addr_host addr) a (emit (SMTP (Extension ''AUTH'')) (emit (SMTP Ehlo) v)) = (None, w1)"
        "transmit X cfg msg w1 = (None, w')"
      using sent by (auto simp: send_def smtp_call_def Let_def then_do_None split: if_splits)
    with client_Auth_ok [OF 1(1)] show ?thesis by auto
  next
    case False
    then have "transmit X cfg msg (emit (SMTP Ehlo) v) = (None, w')"
      using sent by (simp add: send_def smtp_call_def)
    then show ?thesis by (intro exI conjI) auto
  qed
  obtain tls v pre where v: "send tls v = (None, w')" "trace v = trace w @ pre"
    using assms unfolding smtp_SendMail_def send_def [symmetric] Let_def
    by (auto simp: then_do_None smtp_call_def Let_def split: if_splits)
  obtain w1 pre1 where "transmit X cfg msg w1 = (None, w')" "trace w1 = trace v @ pre1" using send [OF v(1)] by blast
  then show ?thesis using v(2) handed_over_transmit [of X cfg msg w1 w' w "pre @ pre1"] by simp
qed

lemma Send_handed_over:
  assumes "Send X cfg subject body w = (None, w')" "AdminEmail cfg \<noteq> []" "AdminSMTPServer cfg \<noteq> []"
  shows "\<exists>es. trace w' = trace w @ es \<and> handed_over cfg (mail_text cfg subject body) es"
  using assms
  by (auto simp: Send_def Let_def split: if_splits dest: sendTLS_ok sendSTARTTLS_ok SendMail_ok)

text \<open>
  C25. Where \<open>Send\<close> reports no error and mail is configured, the whole message was handed to the
  server for the configured address and the server took it.
\<close>

theorem Send_ok_delivered:
  assumes "Send X cfg subject body w = (None, w')" "AdminEmail cfg \<noteq> []" "AdminSMTPServer cfg \<noteq> []"
  shows "\<exists>es. trace w' = trace w @ es \<and> handed_over cfg (mail_text cfg subject body) es"
  by (rule Send_handed_over [OF assms])

theorem Send_ok_delivered_witness:
  "\<exists>es. trace (snd (Send ex_server ex_mail ''s'' ''b'' ex_idle)) = trace ex_idle @ es
    \<and> handed_over ex_mail (mail_text ex_mail ''s'' ''b'') es"
proof (rule Send_ok_delivered)
  have "fst (Send ex_server ex_mail ''s'' ''b'' ex_idle) = None" by code_simp
  then show "Send ex_server ex_mail ''s'' ''b'' ex_idle = (None, snd (Send ex_server ex_mail ''s'' ''b'' ex_idle))"
    by (simp add: prod_eq_iff)
qed code_simp+

end
