(* ===== verification/Disk.thy ===== *)
theory Disk
  imports Go_OS "HOL-Library.Word"
begin

text \<open>
  \<open>internal/disk/disk.go\<close>, \<open>disk_unix.go\<close> and \<open>disk_windows.go\<close>: the free space of the volume of a path. The
  system call \<open>statfs\<close> is a parameter that gives the number of free blocks and the block size
  (\<^const>\<open>None\<close> for an error). Both are 64-bit numbers and so is their product.
\<close>

definition MinFreeBytes :: "64 word" where
  "MinFreeBytes = 100 * 1024 * 1024"

type_synonym statfs = "string \<Rightarrow> (64 word \<times> 64 word) option"

definition available :: "statfs \<Rightarrow> string \<Rightarrow> (64 word) option" where
  "available Statfs path = (case Statfs path of None \<Rightarrow> None | Some (Bavail, Bsize) \<Rightarrow> Some (Bavail * Bsize))"

text \<open>
  On Windows: a path with a NUL byte has no form for the system, and \<open>GetDiskFreeSpaceExW\<close> is a
  parameter (\<^const>\<open>None\<close> for a return value of 0).
\<close>

definition windows_available :: "(string \<Rightarrow> (64 word) option) \<Rightarrow> string \<Rightarrow> (64 word) option" where
  "windows_available GetDiskFreeSpaceExW path = (if CHR 0x00 \<in> set path then None else GetDiskFreeSpaceExW path)"

definition Available :: "statfs \<Rightarrow> procenv \<Rightarrow> faults \<Rightarrow> fs \<Rightarrow> string \<Rightarrow> (64 word) option" where
  "Available Statfs e F f path0 =
     (let path = FromSlash path0;
          abs0 = (case Abs e path of None \<Rightarrow> path | Some a \<Rightarrow> a);
          abs = (case Stat F f abs0 of Inr (File _ _) \<Rightarrow> Dir abs0 | _ \<Rightarrow> abs0)
      in available Statfs abs)"



text \<open>A directory that does not exist is passed on as it is, and \<open>statfs\<close> decides.\<close>

lemma Available_dir:
  "rooted d \<Longrightarrow> \<forall>c t. Stat F f (Clean d) \<noteq> Inr (File c t) \<Longrightarrow>
     Available Statfs e F f d = available Statfs (Clean d)"
  by (auto simp: Available_def Abs_def FromSlash_def Let_def split: sum.split node.split)

end
