(* ===== verification/Go_Match.thy ===== *)
theory Go_Match
  imports Go_Regexp Go_Filepath
begin

text \<open>
  Go's \<open>filepath.Match\<close> as it is on Unix: shell patterns with \<open>*\<close>, \<open>?\<close>, classes in brackets
  and backslash escapes. \<^const>\<open>None\<close> stands for \<open>ErrBadPattern\<close>.
\<close>

abbreviation star_char :: char where "star_char \<equiv> CHR ''*''"

text \<open>
  \<open>scanChunk\<close>: leading stars, then the part up to the next star outside brackets. \<open>scan\<close> is
  its loop, with the flag for being inside brackets.
\<close>

fun scan :: "bool \<Rightarrow> string \<Rightarrow> string \<times> string" where
  "scan inrange [] = ([], [])"
| "scan inrange (c # s) =
     (if c = backslash then
        (case s of
           [] \<Rightarrow> ([c], [])
         | d # t \<Rightarrow> (case scan inrange t of (a, b) \<Rightarrow> (c # d # a, b)))
      else if c = CHR ''['' then (case scan True s of (a, b) \<Rightarrow> (c # a, b))
      else if c = CHR '']'' then (case scan False s of (a, b) \<Rightarrow> (c # a, b))
      else if c = star_char \<and> \<not> inrange then ([], c # s)
      else (case scan inrange s of (a, b) \<Rightarrow> (c # a, b)))"

definition scanChunk :: "string \<Rightarrow> bool \<times> string \<times> string" where
  "scanChunk pattern = (HasPrefix pattern [star_char], scan False (dropWhile (\<lambda>c. c = star_char) pattern))"

text \<open>\<open>getEsc\<close>: one end of a range in a class.\<close>

definition getEsc :: "string \<Rightarrow> (rune \<times> string) option" where
  "getEsc chunk =
     (if chunk = [] \<or> hd chunk = CHR ''-'' \<or> hd chunk = CHR '']'' then None
      else
        let c1 = (if hd chunk = backslash then tl chunk else chunk) in
        if c1 = [] then None
        else (case first_rune c1 of (r, n) \<Rightarrow>
                let rest = drop (max 1 n) c1 in
                if (r = 0xFFFD \<and> n = 1) \<or> rest = [] then None else Some (r, rest)))"

lemma getEsc_shorter: "getEsc chunk = Some (r, rest) \<Longrightarrow> length rest < length chunk"
  by (cases chunk) (auto simp: getEsc_def Let_def split: if_splits prod.splits)

text \<open>The ranges of a class up to its bracket; \<open>some\<close> says that there was one already.\<close>

function match_class :: "rune \<Rightarrow> bool \<Rightarrow> bool \<Rightarrow> string \<Rightarrow> (bool \<times> string) option" where
  "match_class r some m chunk =
     (if chunk \<noteq> [] \<and> hd chunk = CHR '']'' \<and> some then Some (m, tl chunk)
      else (case getEsc chunk of
              None \<Rightarrow> None
            | Some (lo, c1) \<Rightarrow>
                if hd c1 = CHR ''-'' then
                  (case getEsc (tl c1) of
                     None \<Rightarrow> None
                   | Some (hi, c2) \<Rightarrow> match_class r True (m \<or> (lo \<le> r \<and> r \<le> hi)) c2)
                else match_class r True (m \<or> lo = r) c1))"
  by pat_completeness auto
termination
proof (relation "measure (\<lambda>(r, s, m, chunk). length chunk)")
  fix r :: rune and some m chunk x x2 lo c1 y hi c2
  assume "getEsc chunk = Some x2" "(lo, c1) = x2" "getEsc (tl c1) = Some y" "(hi, c2) = y"
  then have "length c1 < length chunk" "length c2 < length (tl c1)" by (auto dest!: getEsc_shorter)
  then show "((r, True, m \<or> (lo \<le> r \<and> r \<le> hi), c2), r, some, m, chunk) \<in> measure (\<lambda>(r, s, m, chunk). length chunk)"
    by simp
qed (auto dest!: getEsc_shorter)

declare match_class.simps [simp del]

lemma match_class_shorter: "match_class r some m chunk = Some (b, rest) \<Longrightarrow> length rest < length chunk"
proof (induction r some m chunk rule: match_class.induct)
  case (1 r some m chunk)
  show ?case
    using "1.prems" "1.IH"
    by (subst (asm) match_class.simps)
      (fastforce split: if_splits option.splits prod.splits dest!: getEsc_shorter)
qed

text \<open>
  \<open>matchChunk\<close>: \<^term>\<open>Some None\<close> is a well-formed chunk that does not match, \<^term>\<open>Some (Some t)\<close>
  one that matches and leaves \<open>t\<close>. After a mismatch the rest of the chunk is only checked.
\<close>

function matchChunk :: "bool \<Rightarrow> string \<Rightarrow> string \<Rightarrow> string option option" where
  "matchChunk failed chunk s =
     (if chunk = [] then Some (if failed then None else Some s)
      else
        let failed = (failed \<or> s = []); c = hd chunk in
        if c = CHR ''['' then
          (let (r, s1) = (if failed then (0, s) else (fst (first_rune s), drop (snd (first_rune s)) s));
               chunk1 = tl chunk;
               negated = HasPrefix chunk1 ''^''
           in case match_class r False False (if negated then tl chunk1 else chunk1) of
                None \<Rightarrow> None
              | Some (m, rest) \<Rightarrow> matchChunk (failed \<or> m = negated) rest s1)
        else if c = CHR ''?'' then
          (if failed then matchChunk True (tl chunk) s
           else matchChunk (hd s = slash) (tl chunk) (drop (snd (first_rune s)) s))
        else
          let chunk1 = (if c = backslash then tl chunk else chunk) in
          if chunk1 = [] then None
          else if failed then matchChunk True (tl chunk1) s
          else matchChunk (hd chunk1 \<noteq> hd s) (tl chunk1) (tl s))"
  by pat_completeness auto
termination
proof (relation "measure (\<lambda>(f, chunk, s). length chunk)")
qed (auto dest!: match_class_shorter split: if_splits simp: HasPrefix_iff neq_Nil_conv)

declare matchChunk.simps [simp del]

lemma scan_append: "scan i s = (a, b) \<Longrightarrow> s = a @ b"
  by (induction i s arbitrary: a b rule: scan.induct) (auto split: if_splits list.splits prod.splits)

lemma scan_not_Nil: "s \<noteq> [] \<Longrightarrow> hd s \<noteq> star_char \<Longrightarrow> scan False s = (a, b) \<Longrightarrow> a \<noteq> []"
  by (cases s) (auto split: if_splits list.splits prod.splits)

lemma scanChunk_shorter:
  assumes "scanChunk p = (star, chunk, rest)" "p \<noteq> []" shows "length rest < length p"
proof -
  define q where "q = dropWhile (\<lambda>c. c = star_char) p"
  have s: "scan False q = (chunk, rest)" using assms(1) by (simp add: scanChunk_def q_def)
  have q: "length q = length chunk + length rest" using arg_cong [OF scan_append [OF s], of length] by simp
  show ?thesis
  proof (cases "hd p = star_char")
    case True
    then have "length q < length p" using assms(2) length_dropWhile_le [of _ "tl p"] by (cases p) (auto simp: q_def less_Suc_eq_le)
    then show ?thesis using q by simp
  next
    case False
    then have "q = p" using assms(2) by (cases p) (auto simp: q_def)
    then show ?thesis using q s scan_not_Nil [of p chunk rest] assms(2) False by (cases chunk) auto
  qed
qed

text \<open>The loop of \<open>Match\<close> that skips bytes after a star, and the check of the rest of a pattern.\<close>

fun skip :: "string \<Rightarrow> bool \<Rightarrow> string \<Rightarrow> string option option" where
  "skip chunk lastc [] = Some None"
| "skip chunk lastc (c # name) =
     (if c = slash then Some None
      else (case matchChunk False chunk name of
              None \<Rightarrow> None
            | Some (Some t) \<Rightarrow> if lastc \<and> t \<noteq> [] then skip chunk lastc name else Some (Some t)
            | Some None \<Rightarrow> skip chunk lastc name))"

function check_rest :: "string \<Rightarrow> bool option" where
  "check_rest p =
     (if p = [] then Some False
      else (case scanChunk p of (star, chunk, rest) \<Rightarrow>
              if matchChunk False chunk [] = None then None else check_rest rest))"
  by pat_completeness auto
termination
  by (relation "measure length") (auto dest: scanChunk_shorter [OF sym])

function filepath_Match :: "string \<Rightarrow> string \<Rightarrow> bool option" where
  "filepath_Match p name =
     (if p = [] then Some (name = [])
      else (case scanChunk p of (star, chunk, rest) \<Rightarrow>
              if star \<and> chunk = [] then Some (slash \<notin> set name)
              else (case matchChunk False chunk name of
                      None \<Rightarrow> None
                    | Some m \<Rightarrow>
                        (case (if m \<noteq> None \<and> (m = Some [] \<or> rest \<noteq> []) then Some m
                               else if star then skip chunk (rest = []) name else Some None) of
                           None \<Rightarrow> None
                         | Some None \<Rightarrow> check_rest rest
                         | Some (Some t) \<Rightarrow> filepath_Match rest t))))"
  by pat_completeness auto
termination
  by (relation "measure (\<lambda>(p, name). length p)") (auto dest: scanChunk_shorter [OF sym])

declare check_rest.simps [simp del] filepath_Match.simps [simp del]

end
