(* ===== verification/Remote.thy ===== *)
theory Remote
  imports Go_Match Go_Exec Config Retention "HOL-Library.Word"
begin

text \<open>
  \<open>internal/remote/remote.go\<close>: the copy of the backups on another host, and the way back.

  The packages \<open>pkg/sftp\<close>, \<open>x/crypto/ssh\<close> and \<open>x/crypto/pbkdf2\<close> and the AES block cipher are
  parameters (\<open>sshenv\<close>). Each SFTP call is a function on the files of the other host; the locale
  \<open>sftp_server\<close> states what the documentation of \<open>pkg/sftp\<close> promises. The counter mode on top
  of the block cipher is modelled.
\<close>

unbundle bit_operations_syntax

subsection \<open>Parameters\<close>

type_synonym rfs = fs

datatype sshauth = PublicKeys bytes | SSHPassword string

text \<open>
  A random source gives its bytes as a function of the files of the other host, so that it may
  differ from file to file. Opening a remote file gives its content up to a read error, and
  whether there is one.
\<close>

record sshenv =
  ParsePrivateKey :: "bytes \<Rightarrow> bool"
  ssh_Dial :: "string \<Rightarrow> string \<Rightarrow> sshauth list \<Rightarrow> bool"
  sftp_NewClient :: bool
  sftp_MkdirAll :: "rfs \<Rightarrow> string \<Rightarrow> bool \<times> rfs"
  sftp_ReadDir :: "rfs \<Rightarrow> string \<Rightarrow> (oserr, (string \<times> node) list) result"
  sftp_Create :: "rfs \<Rightarrow> string \<Rightarrow> bool \<times> rfs"
  sftp_Write :: "rfs \<Rightarrow> string \<Rightarrow> bytes \<Rightarrow> bool \<times> rfs"
  sftp_Remove :: "rfs \<Rightarrow> string \<Rightarrow> bool \<times> rfs"
  sftp_Open :: "rfs \<Rightarrow> string \<Rightarrow> (bytes \<times> bool) option"
  rand_salt :: "rfs \<Rightarrow> bytes option"
  rand_nonce :: "rfs \<Rightarrow> bytes option"
  pbkdf2_Key :: "string \<Rightarrow> bytes \<Rightarrow> int \<Rightarrow> nat \<Rightarrow> bytes"
  aes_Encrypt :: "bytes \<Rightarrow> bytes \<Rightarrow> bytes"

record rworld = sysworld +
  rfiles :: rfs

subsection \<open>Counter mode\<close>

definition saltLen :: nat where "saltLen = 16"
definition nonceLen :: nat where "nonceLen = 16"
definition aesKeyLen :: nat where "aesKeyLen = 32"
definition pbkdf2Iter :: int where "pbkdf2Iter = 100000"
definition encryptionOverhead :: nat where "encryptionOverhead = saltLen + nonceLen"

definition byte_xor :: "char \<Rightarrow> char \<Rightarrow> char" where
  "byte_xor a b = char_of ((of_char a :: int) XOR of_char b)"

text \<open>
  \<open>cipher.NewCTR\<close>: the counter is incremented as one big-endian number; every block of the
  data is combined with the encrypted counter.
\<close>

fun inc_rev :: "bytes \<Rightarrow> bytes" where
  "inc_rev [] = []"
| "inc_rev (b # bs) = (if b = CHR 0xFF then CHR 0x00 # inc_rev bs else char_of (of_char b + 1 :: int) # bs)"

definition inc_counter :: "bytes \<Rightarrow> bytes" where
  "inc_counter ctr = rev (inc_rev (rev ctr))"

function ctr_stream :: "(bytes \<Rightarrow> bytes) \<Rightarrow> bytes \<Rightarrow> bytes \<Rightarrow> bytes" where
  "ctr_stream E ctr data =
     (if data = [] then []
      else map2 byte_xor (take 16 data) (E ctr) @ ctr_stream E (inc_counter ctr) (drop 16 data))"
  by pat_completeness auto
termination
  by (relation "measure (\<lambda>(E, ctr, data). length data)") auto

declare ctr_stream.simps [simp del]

text \<open>\<open>aes.NewCipher\<close> refuses a key of the wrong length.\<close>

definition new_cipher :: "sshenv \<Rightarrow> string \<Rightarrow> bytes \<Rightarrow> (bytes \<Rightarrow> bytes) option" where
  "new_cipher E password salt =
     (let key = pbkdf2_Key E password salt pbkdf2Iter aesKeyLen in
      if length key \<in> {16, 24, 32} then Some (aes_Encrypt E key) else None)"

subsection \<open>Listing\<close>

definition backupZipRe :: re where
  "backupZipRe = Cat Bol (Cat (Lit ''mysql_backup_'') (Cat (RepN 8 Digit) (Cat (Chr (CHR ''_''))
     (Cat (Star AnyRune) (Cat (Lit ''.zip'') Eol)))))"

definition is_backup_zip :: "string \<Rightarrow> bool" where
  "is_backup_zip name \<longleftrightarrow> Ext name = ''.zip'' \<and> MatchString backupZipRe name"

record localEntry =
  Name :: string
  lModTime :: int
  lSize :: int
  lPath :: string

record remoteEntry =
  rName :: string
  rModTime :: int
  rSize :: int

fun local_loop :: "faults \<Rightarrow> fs \<Rightarrow> string \<Rightarrow> (string \<times> node) list \<Rightarrow> localEntry list" where
  "local_loop F f dir [] = []"
| "local_loop F f dir ((name, n) # es) =
     (if n = Directory \<or> \<not> is_backup_zip name then local_loop F f dir es
      else (case Stat F f (Join dir name) of
              Inr (File c m) \<Rightarrow>
                \<lparr>Name = name, lModTime = m, lSize = int (length c), lPath = Join dir name\<rparr> # local_loop F f dir es
            | _ \<Rightarrow> local_loop F f dir es))"

definition listLocalBackups :: "faults \<Rightarrow> fs \<Rightarrow> string \<Rightarrow> (oserr, localEntry list) result" where
  "listLocalBackups F f dir0 =
     (let dir = FromSlash dir0 in
      case ReadDir F f dir of
        Inl ErrNotExist \<Rightarrow> Inr []
      | Inl e \<Rightarrow> Inl e
      | Inr es \<Rightarrow> Inr (local_loop F f dir es))"

fun localListByName :: "localEntry list \<Rightarrow> string \<Rightarrow> localEntry option" where
  "localListByName [] name = None"
| "localListByName (e # es) name = (if Name e = name then Some e else localListByName es name)"

fun remote_loop :: "(string \<times> node) list \<Rightarrow> remoteEntry list" where
  "remote_loop [] = []"
| "remote_loop ((name, n) # es) =
     (case n of
        File c m \<Rightarrow>
          if is_backup_zip name then \<lparr>rName = name, rModTime = m, rSize = int (length c)\<rparr> # remote_loop es else remote_loop es
      | Directory \<Rightarrow> remote_loop es)"

definition listRemote :: "sshenv \<Rightarrow> rfs \<Rightarrow> string \<Rightarrow> (oserr, remoteEntry list) result" where
  "listRemote E r remoteDir =
     (case sftp_ReadDir E r remoteDir of
        Inl ErrNotExist \<Rightarrow> Inr []
      | Inl e \<Rightarrow> Inl e
      | Inr es \<Rightarrow> Inr (remote_loop es))"

subsection \<open>Uploading\<close>

text \<open>The writes of an upload, one after the other; an error ends them.\<close>

fun remote_writes :: "sshenv \<Rightarrow> string \<Rightarrow> bytes list \<Rightarrow> rfs \<Rightarrow> goerr option \<times> rfs" where
  "remote_writes E p [] r = (None, r)"
| "remote_writes E p (d # ds) r =
     (case sftp_Write E r p d of
        (False, r1) \<Rightarrow> (Some (Text ''sftp''), r1)
      | (True, r1) \<Rightarrow> remote_writes E p ds r1)"

definition streamEncryptUpload ::
  "sshenv \<Rightarrow> (oserr option \<times> bytes) \<Rightarrow> string \<Rightarrow> string \<Rightarrow> rfs \<Rightarrow> goerr option \<times> rfs"
where
  "streamEncryptUpload E src dst password r =
     (case rand_salt E r of
        None \<Rightarrow> (Some (Err ''err.rand_salt'' [] (Some (Text ''rand''))), r)
      | Some salt \<Rightarrow>
          (case rand_nonce E r of
             None \<Rightarrow> (Some (Err ''err.rand_nonce'' [] (Some (Text ''rand''))), r)
           | Some nonce \<Rightarrow>
               (case new_cipher E password salt of
                  None \<Rightarrow> (Some (Text ''cipher''), r)
                | Some block \<Rightarrow>
                    (case remote_writes E dst [salt, nonce, ctr_stream block nonce (snd src)] r of
                       (Some e, r1) \<Rightarrow> (Some e, r1)
                     | (None, r1) \<Rightarrow> (map_option OSErr (fst src), r1)))))"

text \<open>
  \<open>uploadFile\<close>. A local file that cannot be read to its end gives an error after what could
  be read, here nothing.
\<close>

definition uploadFile ::
  "sshenv \<Rightarrow> faults \<Rightarrow> fs \<Rightarrow> string \<Rightarrow> string \<Rightarrow> bool \<Rightarrow> string \<Rightarrow> rfs \<Rightarrow> goerr option \<times> rfs"
where
  "uploadFile E F f localPath remotePath enc aesPassword r =
     (case ReadFile F f (FromSlash localPath) of
        Inl e \<Rightarrow> (Some (OSErr e), r)
      | Inr c \<Rightarrow>
          (case sftp_Create E r remotePath of
             (False, r1) \<Rightarrow> (Some (Text ''sftp''), r1)
           | (True, r1) \<Rightarrow>
               let src = (if F f (OpRead (FromSlash localPath)) then (Some ErrOther, []) else (None, c)) in
               if \<not> enc then
                 (case remote_writes E remotePath [snd src] r1 of
                    (Some e, r2) \<Rightarrow> (Some e, r2)
                  | (None, r2) \<Rightarrow> (map_option OSErr (fst src), r2))
               else streamEncryptUpload E src remotePath aesPassword r1))"

text \<open>\<open>dial\<close>: the ways to log in, in order; without any there is no connection.\<close>

definition dial :: "sshenv \<Rightarrow> faults \<Rightarrow> fs \<Rightarrow> Config \<Rightarrow> goerr option" where
  "dial E F f cfg =
     (let key = (if RemoteSSHKeyFile cfg = [] then Inr []
                 else (case ReadFile F f (FromSlash (RemoteSSHKeyFile cfg)) of
                         Inl e \<Rightarrow> Inl (Err ''err.read_key_file'' [] (Some (OSErr e)))
                       | Inr k \<Rightarrow> if ParsePrivateKey E k then Inr [PublicKeys k]
                                 else Inl (Err ''err.parse_private_key'' [] (Some (Text ''key'')))))
      in case key of
           Inl e \<Rightarrow> Some e
         | Inr auth0 \<Rightarrow>
             let auth = (if RemoteSSHPassword cfg \<noteq> [] then auth0 @ [SSHPassword (RemoteSSHPassword cfg)] else auth0);
                 port = (if RemoteSSHPort cfg \<le> 0 then 22 else RemoteSSHPort cfg)
             in if auth = [] then Some (Err ''err.no_ssh_auth'' [] None)
                else if ssh_Dial E (RemoteSSHHost cfg @ '':'' @ Itoa port) (RemoteSSHUser cfg) auth then None
                else Some (Text ''ssh''))"

subsection \<open>Sync\<close>

definition need_upload :: "bool \<Rightarrow> remoteEntry option \<Rightarrow> localEntry \<Rightarrow> bool" where
  "need_upload enc rem loc =
     (case rem of
        None \<Rightarrow> True
      | Some e \<Rightarrow>
          rModTime e < lModTime loc \<or> (enc \<and> rSize e \<noteq> lSize loc + int encryptionOverhead))"

text \<open>The entry of a name in the map the listing is turned into: the last one.\<close>

definition remoteMap :: "remoteEntry list \<Rightarrow> string \<Rightarrow> remoteEntry option" where
  "remoteMap es name = find (\<lambda>e. rName e = name) (rev es)"

fun upload_loop ::
  "sshenv \<Rightarrow> faults \<Rightarrow> string \<Rightarrow> bool \<Rightarrow> string \<Rightarrow> remoteEntry list \<Rightarrow> localEntry list \<Rightarrow> 'a rworld_scheme
     \<Rightarrow> goerr option \<times> 'a rworld_scheme"
where
  "upload_loop E F remoteDir enc aesPassword remoteList [] w = (None, w)"
| "upload_loop E F remoteDir enc aesPassword remoteList (loc # locs) w =
     (if need_upload enc (remoteMap remoteList (Name loc)) loc then
        (case uploadFile E F (files w) (lPath loc) (remoteDir @ [slash] @ Name loc) enc aesPassword (rfiles w) of
           (Some e, r) \<Rightarrow> (Some (Err ''err.upload'' [Name loc] (Some e)), w\<lparr>rfiles := r\<rparr>)
         | (None, r) \<Rightarrow>
             upload_loop E F remoteDir enc aesPassword remoteList locs
               (log_msg INFO ''log.msg.uploaded'' [Name loc] (w\<lparr>rfiles := r\<rparr>)))
      else upload_loop E F remoteDir enc aesPassword remoteList locs w)"

fun remove_loop :: "sshenv \<Rightarrow> string \<Rightarrow> localEntry list \<Rightarrow> remoteEntry list \<Rightarrow> 'a rworld_scheme \<Rightarrow> 'a rworld_scheme" where
  "remove_loop E remoteDir localList [] w = w"
| "remove_loop E remoteDir localList (rem # rems) w =
     (if localListByName localList (rName rem) = None then
        (case sftp_Remove E (rfiles w) (remoteDir @ [slash] @ rName rem) of
           (False, r) \<Rightarrow>
             remove_loop E remoteDir localList rems (log_msg WARN ''log.warn.remote_remove'' [rName rem] (w\<lparr>rfiles := r\<rparr>))
         | (True, r) \<Rightarrow>
             remove_loop E remoteDir localList rems (log_msg INFO ''log.msg.removed_remote'' [rName rem] (w\<lparr>rfiles := r\<rparr>)))
      else remove_loop E remoteDir localList rems w)"

definition Sync :: "sshenv \<Rightarrow> faults \<Rightarrow> Config \<Rightarrow> string \<Rightarrow> 'a rworld_scheme \<Rightarrow> goerr option \<times> 'a rworld_scheme" where
  "Sync E F cfg backupDir w =
     (if RemoteBackupDir cfg = [] \<or> RemoteSSHHost cfg = [] then (None, w)
      else
        (case listLocalBackups F (files w) backupDir of
           Inl e \<Rightarrow> (Some (Err ''err.list_local'' [] (Some (OSErr e))), w)
         | Inr localList \<Rightarrow>
             (case dial E F (files w) cfg of
                Some e \<Rightarrow> (Some (Err ''err.ssh_dial'' [] (Some e)), w)
              | None \<Rightarrow>
                  if \<not> sftp_NewClient E then (Some (Err ''err.sftp'' [] (Some (Text ''sftp''))), w)
                  else
                    let remoteDir = ToSlash (RemoteBackupDir cfg);
                        w1 = (case sftp_MkdirAll E (rfiles w) remoteDir of
                                (ok, r) \<Rightarrow> if ok then w\<lparr>rfiles := r\<rparr>
                                          else log_msg WARN ''log.warn.sftp_mkdir'' [remoteDir] (w\<lparr>rfiles := r\<rparr>))
                    in (case listRemote E (rfiles w1) remoteDir of
                          Inl e \<Rightarrow> (Some (Err ''err.list_remote'' [] (Some (OSErr e))), w1)
                        | Inr remoteList \<Rightarrow>
                            let aesPassword = TrimSpace (RemoteAESPassword cfg);
                                enc = (aesPassword \<noteq> []);
                                w2 = log_msg INFO (if enc then ''log.msg.remote_aes_on'' else ''log.msg.remote_aes_off'') [] w1
                            in (case upload_loop E F remoteDir enc aesPassword remoteList localList w2 of
                                  (Some e, w3) \<Rightarrow> (Some e, w3)
                                | (None, w3) \<Rightarrow> (None, remove_loop E remoteDir localList remoteList w3))))))"

subsection \<open>Fetching files\<close>

definition validGetfilePattern :: "string \<Rightarrow> bool" where
  "validGetfilePattern pattern \<longleftrightarrow>
     pattern \<noteq> [] \<and> \<not> Contains pattern ''..'' \<and> Base pattern = pattern
     \<and> \<not> Contains pattern ''/'' \<and> \<not> Contains pattern [backslash]"

definition containsWildcard :: "string \<Rightarrow> bool" where
  "containsWildcard s \<longleftrightarrow> Contains s ''*'' \<or> Contains s ''?''"

text \<open>Writing to a new local file; an error of the remote side comes after what was read.\<close>

definition save_local :: "faults \<Rightarrow> int \<Rightarrow> string \<Rightarrow> bytes \<Rightarrow> bool \<Rightarrow> string \<Rightarrow> 'a world_scheme \<Rightarrow> goerr option \<times> 'a world_scheme" where
  "save_local F now localPath data broken key w =
     (case Create F (files w) localPath now of
        Inl e \<Rightarrow> (Some (Err ''err.local_create'' [] (Some (OSErr e))), w)
      | Inr f1 \<Rightarrow>
          (case WriteFile F f1 localPath data now of
             Inl e \<Rightarrow> (Some (Err key [] (Some (OSErr e))), w\<lparr>files := f1\<rparr>)
           | Inr f2 \<Rightarrow> (if broken then Some (Err key [] (Some (Text ''sftp''))) else None, w\<lparr>files := f2\<rparr>)))"

definition getOneFile ::
  "sshenv \<Rightarrow> faults \<Rightarrow> int \<Rightarrow> string \<Rightarrow> string \<Rightarrow> string \<Rightarrow> Config \<Rightarrow> 'a rworld_scheme \<Rightarrow> goerr option \<times> 'a rworld_scheme"
where
  "getOneFile E F now remoteDir remoteName localPath cfg w =
     (case sftp_Open E (rfiles w) (remoteDir @ [slash] @ remoteName) of
        None \<Rightarrow> (Some (Err ''err.remote_open'' [] (Some (Text ''sftp''))), w)
      | Some (c, broken) \<Rightarrow>
          let hl = saltLen + nonceLen; header = take hl c; rest = drop hl c; n = length header in
          if n < hl \<and> (broken \<or> n \<noteq> 0) then (Some (Err ''err.remote_read'' [] (Some (Text ''unexpected EOF''))), w)
          else
            let aesPassword = TrimSpace (RemoteAESPassword cfg) in
            if aesPassword \<noteq> [] \<and> n = hl \<and> (header ! 0 \<noteq> CHR ''P'' \<or> header ! 1 \<noteq> CHR ''K'') then
              let w1 = log_msg INFO ''log.msg.remote_decrypt'' [remoteName] w in
              (case new_cipher E aesPassword (take saltLen header) of
                 None \<Rightarrow> (Some (Err ''err.cipher'' [] (Some (Text ''cipher''))), w1)
               | Some block \<Rightarrow>
                   save_local F now localPath (ctr_stream block (drop saltLen header) rest) broken ''err.decrypt_write'' w1)
            else save_local F now localPath (header @ rest) broken ''err.copy'' w)"

text \<open>The names a pattern selects.\<close>

fun match_loop :: "string \<Rightarrow> remoteEntry list \<Rightarrow> string list option" where
  "match_loop pattern [] = Some []"
| "match_loop pattern (e # es) =
     (case filepath_Match pattern (rName e) of
        None \<Rightarrow> None
      | Some b \<Rightarrow> map_option (\<lambda>ns. if b then rName e # ns else ns) (match_loop pattern es))"

definition to_download :: "sshenv \<Rightarrow> rfs \<Rightarrow> string \<Rightarrow> string \<Rightarrow> (goerr, string list) result" where
  "to_download E r remoteDir pattern =
     (if containsWildcard pattern then
        (case listRemote E r remoteDir of
           Inl e \<Rightarrow> Inl (Err ''err.remote_list'' [] (Some (OSErr e)))
         | Inr remoteList \<Rightarrow>
             (case match_loop pattern remoteList of
                None \<Rightarrow> Inl (Err ''err.pattern'' [] (Some (Text ''syntax error in pattern'')))
              | Some [] \<Rightarrow> Inl (Err ''err.no_remote_match'' [pattern] None)
              | Some ns \<Rightarrow> Inr ns))
      else if \<not> is_backup_zip pattern then Inl (Err ''err.only_backup_zip'' [] None)
      else Inr [pattern])"

definition local_target :: "faults \<Rightarrow> fs \<Rightarrow> string \<Rightarrow> string \<Rightarrow> string" where
  "local_target F f destDir name =
     (case Stat F f (Join destDir name) of
        Inr _ \<Rightarrow> Join destDir (name @ ''.lokal'')
      | Inl _ \<Rightarrow> Join destDir name)"

fun get_loop ::
  "sshenv \<Rightarrow> faults \<Rightarrow> int \<Rightarrow> string \<Rightarrow> string \<Rightarrow> Config \<Rightarrow> string list \<Rightarrow> string list \<Rightarrow> 'a rworld_scheme
     \<Rightarrow> goerr option \<times> string list \<times> 'a rworld_scheme"
where
  "get_loop E F now remoteDir destDir cfg [] saved w = (None, saved, w)"
| "get_loop E F now remoteDir destDir cfg (name # names) saved w =
     (let localPath = local_target F (files w) destDir name in
      case getOneFile E F now remoteDir name localPath cfg w of
        (Some e, w1) \<Rightarrow> (Some (Err ''err.file_failed'' [name] (Some e)), saved, w1)
      | (None, w1) \<Rightarrow> get_loop E F now remoteDir destDir cfg names (saved @ [localPath]) w1)"

definition GetFile ::
  "sshenv \<Rightarrow> faults \<Rightarrow> int \<Rightarrow> Config \<Rightarrow> string \<Rightarrow> string \<Rightarrow> 'a rworld_scheme \<Rightarrow> goerr option \<times> string list \<times> 'a rworld_scheme"
where
  "GetFile E F now cfg pattern destDir w =
     (if RemoteBackupDir cfg = [] \<or> RemoteSSHHost cfg = [] then (Some (Err ''err.remote_not_configured'' [] None), [], w)
      else if \<not> validGetfilePattern pattern then (Some (Err ''err.getfile_no_path'' [] None), [], w)
      else
        (case dial E F (files w) cfg of
           Some e \<Rightarrow> (Some (Err ''err.ssh_dial'' [] (Some e)), [], w)
         | None \<Rightarrow>
             if \<not> sftp_NewClient E then (Some (Err ''err.sftp'' [] (Some (Text ''sftp''))), [], w)
             else
               let remoteDir = ToSlash (RemoteBackupDir cfg) in
               (case to_download E (rfiles w) remoteDir pattern of
                  Inl e \<Rightarrow> (Some e, [], w)
                | Inr names \<Rightarrow> get_loop E F now remoteDir (FromSlash destDir) cfg names [] w)))"

subsection \<open>Counter mode is its own inverse\<close>

lemma byte_xor_cancel [simp]: "byte_xor (byte_xor a b) b = a"
proof -
  have "(of_char a :: int) XOR of_char b \<in> {0..<256}"
    using xor_nonnegative_int_iff [of "of_char a :: int" "of_char b"] XOR_upper [of "of_char a" 8 "of_char b"]
    by (auto simp: of_char_range)
  then have "(of_char (char_of ((of_char a :: int) XOR of_char b)) :: int) = of_char a XOR of_char b"
    by (simp add: of_char_of)
  then show ?thesis by (simp add: byte_xor_def xor.assoc)
qed

lemma map2_xor_cancel: "length xs \<le> length ks \<Longrightarrow> map2 byte_xor (map2 byte_xor xs ks) ks = xs"
  by (induction xs ks rule: list_induct2') auto

lemma ctr_stream_length: "(\<And>b. length (E b) = 16) \<Longrightarrow> length (ctr_stream E ctr d) = length d"
proof (induction E ctr d rule: ctr_stream.induct)
  case (1 E ctr d)
  then show ?case by (cases "d = []") (simp_all add: ctr_stream.simps [of E ctr d] ctr_stream.simps [of E ctr "[]"])
qed

lemma ctr_stream_inverse: "(\<And>b. length (E b) = 16) \<Longrightarrow> ctr_stream E ctr (ctr_stream E ctr d) = d"
proof (induction E ctr d rule: ctr_stream.induct)
  case (1 E ctr d)
  show ?case
  proof (cases "d = []")
    case True
    then show ?thesis by (simp add: ctr_stream.simps [of E ctr "[]"])
  next
    case False
    define a where "a = map2 byte_xor (take 16 d) (E ctr)"
    define b where "b = ctr_stream E (inc_counter ctr) (drop 16 d)"
    have e: "ctr_stream E ctr d = a @ b" using False by (simp add: ctr_stream.simps [of E ctr d] a_def b_def)
    have la: "length a = min (length d) 16" using 1(2) by (simp add: a_def)
    have lb: "length b = length d - 16" using ctr_stream_length [OF 1(2)] by (simp add: b_def)
    have "take 16 (a @ b) = a" "drop 16 (a @ b) = b" using la lb by (cases "length d \<le> 16"; simp)+
    moreover have "a @ b \<noteq> []" using False la by (cases d) auto
    then have "ctr_stream E ctr (a @ b) = map2 byte_xor (take 16 (a @ b)) (E ctr) @ ctr_stream E (inc_counter ctr) (drop 16 (a @ b))"
      by (subst ctr_stream.simps) (simp only: if_False)
    moreover have "map2 byte_xor a (E ctr) = take 16 d" unfolding a_def by (rule map2_xor_cancel) (simp add: 1(2))
    moreover have "ctr_stream E (inc_counter ctr) b = drop 16 d" unfolding b_def by (rule "1.IH" [OF False 1(2)])
    ultimately show ?thesis unfolding e by (simp only: append_take_drop_id)
  qed
qed

subsection \<open>What the other host promises\<close>

definition rpath :: "string \<Rightarrow> string \<Rightarrow> string" where
  "rpath d n = d @ [slash] @ n"

text \<open>
  The documented effects of the SFTP calls on the files of the other host. A call that reports
  success has its effect; no call changes another file.
\<close>

locale sftp_server =
  fixes E :: sshenv
  assumes Create_ok: "sftp_Create E r p = (True, r') \<Longrightarrow> \<exists>t. map_of r' p = Some (File [] t)"
    and Create_frame: "sftp_Create E r p = (b, r') \<Longrightarrow> q \<noteq> p \<Longrightarrow> map_of r' q = map_of r q"
    and Write_ok: "sftp_Write E r p d = (True, r') \<Longrightarrow> map_of r p = Some (File c t) \<Longrightarrow> \<exists>t'. map_of r' p = Some (File (c @ d) t')"
    and Write_frame: "sftp_Write E r p d = (b, r') \<Longrightarrow> q \<noteq> p \<Longrightarrow> map_of r' q = map_of r q"
    and Remove_ok: "sftp_Remove E r p = (True, r') \<Longrightarrow> map_of r' p = None"
    and Remove_frame: "sftp_Remove E r p = (b, r') \<Longrightarrow> q \<noteq> p \<Longrightarrow> map_of r' q = map_of r q"
    and MkdirAll_frame: "sftp_MkdirAll E r d = (b, r') \<Longrightarrow> map_of r' q = Some (File c t) \<longleftrightarrow> map_of r q = Some (File c t)"
    and ReadDir_ok: "sftp_ReadDir E r d = Inr es \<Longrightarrow>
      (n, File c t) \<in> set es \<longleftrightarrow> entry_name n \<and> map_of r (rpath d n) = Some (File c t)"
    and ReadDir_none: "sftp_ReadDir E r d = Inl ErrNotExist \<Longrightarrow> entry_name n \<Longrightarrow> map_of r (rpath d n) \<noteq> Some (File c t)"
    and Open_ok: "sftp_Open E r p = Some (c, False) \<Longrightarrow> \<exists>t. map_of r p = Some (File c t)"

text \<open>In addition, the lengths the cryptographic functions promise.\<close>

locale remote_env = sftp_server +
  assumes salt_length: "rand_salt E r = Some s \<Longrightarrow> length s = saltLen"
    and nonce_length: "rand_nonce E r = Some s \<Longrightarrow> length s = nonceLen"
    and block_length: "length (aes_Encrypt E k b) = 16"

text \<open>The listing, as a function of the files.\<close>

definition entry_of :: "string \<Rightarrow> node option \<Rightarrow> remoteEntry option" where
  "entry_of name n = (case n of Some (File c m) \<Rightarrow> Some \<lparr>rName = name, rModTime = m, rSize = int (length c)\<rparr> | _ \<Rightarrow> None)"

lemma remote_loop_set:
  "e \<in> set (remote_loop es) \<longleftrightarrow>
     (\<exists>n c m. (n, File c m) \<in> set es \<and> is_backup_zip n \<and> e = \<lparr>rName = n, rModTime = m, rSize = int (length c)\<rparr>)"
  by (induction es rule: remote_loop.induct) (auto split: node.splits)

text \<open>What an upload leaves: the content, or salt, nonce and the encrypted content.\<close>

definition holds_copy :: "sshenv \<Rightarrow> bool \<Rightarrow> string \<Rightarrow> bytes \<Rightarrow> node option \<Rightarrow> bool" where
  "holds_copy E enc pw c n \<longleftrightarrow>
     (if enc then \<exists>salt nonce block r t. rand_salt E r = Some salt \<and> rand_nonce E r = Some nonce
         \<and> new_cipher E pw salt = Some block \<and> n = Some (File (salt @ nonce @ ctr_stream block nonce c) t)
      else \<exists>t. n = Some (File c t))"

lemma backup_zip_name:
  assumes "length ds = 8" "list_all is_digit ds" "NL \<notin> set mid"
  shows "is_backup_zip (''mysql_backup_'' @ ds @ ''_'' @ mid @ ''.zip'')"
proof -
  let ?name = "''mysql_backup_'' @ ds @ ''_'' @ mid @ ''.zip''"
  define A where "A = Star AnyRune"
  have asc: "is_ascii ''mysql_backup_''" "is_ascii ''.zip''" by (simp_all add: is_ascii_def)
  obtain q where q: "(q, ''.zip'', []) \<in> set (ends A (22, mid @ ''.zip'', []))"
    using ends_Star_any [OF assms(3), of "CHR ''.''" "''zip''" "[]" 22, folded A_def] by auto
  have "ends (Cat (Lit ''.zip'') Eol) (q, ''.zip'', []) = [(q + 4, [], [])]" by (simp add: ends_Lit [OF asc(2)] HasPrefix_def)
  with q have "ends (Cat A (Cat (Lit ''.zip'') Eol)) (22, mid @ ''.zip'', []) \<noteq> []"
    by (force simp only: ends.simps concat_eq_Nil_conv set_map)
  moreover have "ends (Cat (Lit ''mysql_backup_'') (Cat (RepN 8 Digit) (Cat (Chr (CHR ''_'')) (Cat A (Cat (Lit ''.zip'') Eol))))) (0, ?name, [])
      = ends (Cat A (Cat (Lit ''.zip'') Eol)) (22, mid @ ''.zip'', [])"
    using assms(1,2) unfolding ends.simps(3) [of "Lit ''mysql_backup_''"] ends_Lit [OF asc(1)]
    by (simp add: ends_RepN_Digit ends_Chr HasPrefix_def)
  ultimately have "MatchString backupZipRe ?name" unfolding backupZipRe_def MatchString_Bol A_def by simp
  moreover have "Ext ?name = ''.zip''" using Ext_zip [of "''mysql_backup_'' @ ds @ ''_'' @ mid"] by simp
  ultimately show ?thesis by (simp add: is_backup_zip_def)
qed

end
