(* ===== verification/Glob.thy ===== *)
theory Glob
  imports Go_Match
begin

text \<open>
  What \<open>filepath.Match\<close> decides: on patterns with stars and question marks only, and names of
  ASCII characters without a slash, the matcher (which commits to the first place where a part
  fits) agrees with the declarative meaning of the pattern.
\<close>

subsection \<open>Patterns with stars and question marks\<close>

text \<open>
  The meaning of a pattern with no brackets and no backslashes, on a name of one-byte
  characters without a slash.
\<close>

fun glob :: "string \<Rightarrow> string \<Rightarrow> bool" where
  "glob [] s = (s = [])"
| "glob (c # p) [] = (c = star_char \<and> glob p [])"
| "glob (c # p) (x # s) =
     (if c = star_char then glob p (x # s) \<or> glob (c # p) s
      else (c = CHR ''?'' \<or> c = x) \<and> glob p s)"

definition plain_pattern :: "string \<Rightarrow> bool" where
  "plain_pattern p \<longleftrightarrow> CHR ''['' \<notin> set p \<and> backslash \<notin> set p"

definition plain_name :: "string \<Rightarrow> bool" where
  "plain_name s \<longleftrightarrow> is_ascii s \<and> slash \<notin> set s"

text \<open>A part of a pattern without stars at the start of a name.\<close>

fun fits :: "string \<Rightarrow> string \<Rightarrow> bool" where
  "fits [] s = True"
| "fits (c # p) [] = False"
| "fits (c # p) (x # s) = ((c = CHR ''?'' \<or> c = x) \<and> fits p s)"

lemma fits_length: "fits p s \<Longrightarrow> length p \<le> length s"
  by (induction p s rule: fits.induct) auto

lemma glob_chunk: "star_char \<notin> set a \<Longrightarrow> glob (a @ b) s \<longleftrightarrow> fits a s \<and> glob b (drop (length a) s)"
  by (induction a s rule: fits.induct) auto

lemma glob_star: "glob (star_char # p) s \<longleftrightarrow> (\<exists>k \<le> length s. glob p (drop k s))"
proof (induction s)
  case (Cons x s)
  have "(\<exists>k \<le> length (x # s). glob p (drop k (x # s))) \<longleftrightarrow> glob p (x # s) \<or> (\<exists>k \<le> length s. glob p (drop k s))"
    by (metis (no_types, lifting) Suc_le_mono drop0 drop_Suc_Cons le0 length_Cons not0_implies_Suc)
  with Cons show ?case by simp
qed simp

lemma glob_star_mono: "glob (star_char # p) (drop j s) \<Longrightarrow> i \<le> j \<Longrightarrow> glob (star_char # p) (drop i s)"
proof -
  assume g: "glob (star_char # p) (drop j s)" and "i \<le> j"
  then obtain k where k: "k \<le> length (drop j s)" "glob p (drop (k + j) s)" by (auto simp: glob_star add.commute)
  show ?thesis
  proof (cases "j \<le> length s")
    case True
    then show ?thesis using k \<open>i \<le> j\<close> unfolding glob_star by (intro exI [of _ "k + j - i"]) auto
  next
    case False
    then show ?thesis using k \<open>i \<le> j\<close> unfolding glob_star by (intro exI [of _ "length s - i"]) auto
  qed
qed

lemma glob_stars: "list_all (\<lambda>c. c = star_char) st \<Longrightarrow> st \<noteq> [] \<Longrightarrow> glob (st @ p) s \<longleftrightarrow> glob (star_char # p) s"
proof (induction st arbitrary: s)
  case (Cons c st)
  show ?case
  proof (cases "st = []")
    case False
    have "glob (star_char # star_char # p) s \<longleftrightarrow> glob (star_char # p) s" for s
    proof
      assume "glob (star_char # star_char # p) s"
      then show "glob (star_char # p) s" using glob_star_mono [of p _ s 0] by (auto simp: glob_star [of "star_char # p"])
    next
      assume "glob (star_char # p) s"
      then show "glob (star_char # star_char # p) s" by (subst glob_star) (auto intro: exI [of _ 0])
    qed
    moreover have "glob (star_char # st @ p) s \<longleftrightarrow> glob (star_char # star_char # p) s" for s
      using Cons False by (simp add: glob_star [of "st @ p"] glob_star [of "star_char # p"])
    ultimately show ?thesis using Cons.prems by simp
  qed (use Cons.prems in simp)
qed simp

subsection \<open>The matcher decides the meaning\<close>

lemma plain_name_simps [simp]:
  "plain_name (c # s) \<longleftrightarrow> (of_char c :: int) < 0x80 \<and> c \<noteq> slash \<and> plain_name s" "plain_name []"
  by (auto simp: plain_name_def is_ascii_def)

lemma plain_name_drop: "plain_name s \<Longrightarrow> plain_name (drop k s)"
  by (auto simp: plain_name_def is_ascii_def list_all_iff dest: in_set_dropD)

lemma matchChunk_failed: "plain_pattern chunk \<Longrightarrow> matchChunk True chunk s = Some None"
proof (induction chunk)
  case (Cons c chunk)
  then show ?case by (subst matchChunk.simps) (auto simp: plain_pattern_def)
qed (simp add: matchChunk.simps)

lemma matchChunk_plain:
  "plain_pattern chunk \<Longrightarrow> plain_name s \<Longrightarrow>
     matchChunk False chunk s = Some (if fits chunk s then Some (drop (length chunk) s) else None)"
proof (induction chunk s rule: fits.induct)
  case (1 s)
  then show ?case by (simp add: matchChunk.simps)
next
  case (2 c p)
  then show ?case using matchChunk_failed [of p "[]"] by (subst matchChunk.simps) (auto simp: plain_pattern_def Let_def)
next
  case (3 c p x s)
  then have p: "plain_pattern p" "c \<noteq> CHR ''[''" "c \<noteq> backslash" by (auto simp: plain_pattern_def)
  have r: "first_rune (x # s) = (of_char x, 1)" using 3 by (simp add: first_rune_ascii)
  show ?case
  proof (cases "c = CHR ''?'' \<or> c = x")
    case True
    then show ?thesis using 3 p r by (subst matchChunk.simps) (auto simp: Let_def)
  next
    case False
    then show ?thesis using 3 p r matchChunk_failed [OF p(1)] by (subst matchChunk.simps) (auto simp: Let_def)
  qed
qed

text \<open>A place where a chunk fits; the last chunk must end where the name ends.\<close>

definition fits_at :: "string \<Rightarrow> bool \<Rightarrow> string \<Rightarrow> nat \<Rightarrow> bool" where
  "fits_at chunk lastc s k \<longleftrightarrow> fits chunk (drop k s) \<and> (lastc \<longrightarrow> drop (k + length chunk) s = [])"

lemma fits_at_Suc [simp]: "fits_at chunk lastc (c # s) (Suc k) = fits_at chunk lastc s k"
  by (simp add: fits_at_def)

lemma skip_step:
  assumes "plain_pattern chunk" "plain_name (c # s)"
  shows "skip chunk lastc (c # s) =
           (if fits_at chunk lastc s 0 then Some (Some (drop (length chunk) s)) else skip chunk lastc s)"
  using assms matchChunk_plain [OF assms(1), of s] by (auto simp: fits_at_def)

lemma skip_none:
  assumes "plain_pattern chunk" "plain_name s" "\<And>k. 0 < k \<Longrightarrow> k \<le> length s \<Longrightarrow> \<not> fits_at chunk lastc s k"
  shows "skip chunk lastc s = Some None"
  using assms(2,3)
proof (induction s)
  case (Cons c s)
  have "\<not> fits_at chunk lastc s 0" using Cons.prems(2) [of 1] by simp
  moreover have "\<not> fits_at chunk lastc s k" if "0 < k" "k \<le> length s" for k
    using Cons.prems(2) [of "Suc k"] that by simp
  ultimately show ?case using Cons skip_step [OF assms(1) Cons.prems(1)] by (simp del: skip.simps)
qed simp

lemma skip_first:
  assumes "plain_pattern chunk" "plain_name s" "0 < k" "k \<le> length s" "fits_at chunk lastc s k"
    "\<And>j. 0 < j \<Longrightarrow> j < k \<Longrightarrow> \<not> fits_at chunk lastc s j"
  shows "skip chunk lastc s = Some (Some (drop (k + length chunk) s))"
  using assms(2-)
proof (induction s arbitrary: k)
  case (Cons c s)
  obtain j where j: "k = Suc j" using Cons.prems(2) by (cases k) auto
  show ?case
  proof (cases "j = 0")
    case True
    then show ?thesis using Cons.prems j skip_step [OF assms(1) Cons.prems(1)] by (simp del: skip.simps)
  next
    case False
    then have "\<not> fits_at chunk lastc s 0" using Cons.prems(5) [of 1] j by simp
    moreover have "\<not> fits_at chunk lastc s i" if "0 < i" "i < j" for i
      using Cons.prems(5) [of "Suc i"] that j by simp
    ultimately show ?thesis using Cons.prems Cons.IH [of j] False j skip_step [OF assms(1) Cons.prems(1)]
      by (simp del: skip.simps)
  qed
qed simp

lemma scan_plain:
  assumes "plain_pattern p" "scan False p = (a, b)"
  shows "star_char \<notin> set a \<and> plain_pattern a \<and> plain_pattern b \<and> (b = [] \<or> (\<exists>r. b = star_char # r))"
  using assms
proof (induction p arbitrary: a b)
  case (Cons c p)
  obtain a' b' where s: "scan False p = (a', b')" by (cases "scan False p")
  then show ?case using Cons.prems Cons.IH [OF _ s] by (auto simp: plain_pattern_def split: if_splits)
qed (auto simp: plain_pattern_def)

lemma scanChunk_plain:
  assumes "plain_pattern p" "scanChunk p = (star, chunk, rest)"
  shows "star_char \<notin> set chunk" "plain_pattern chunk" "plain_pattern rest"
    "rest = [] \<or> (\<exists>r. rest = star_char # r)" "p \<noteq> [] \<Longrightarrow> chunk = [] \<Longrightarrow> rest = []"
    "glob p s \<longleftrightarrow> (if star then glob (star_char # chunk @ rest) s else glob (chunk @ rest) s)"
proof -
  define st q where "st = takeWhile (\<lambda>c. c = star_char) p" and "q = dropWhile (\<lambda>c. c = star_char) p"
  have p: "p = st @ q" by (simp add: st_def q_def)
  have sc: "scan False q = (chunk, rest)" and star: "star = HasPrefix p [star_char]"
    using assms(2) by (simp_all add: scanChunk_def q_def)
  have q: "plain_pattern q" using assms(1) by (auto simp: plain_pattern_def p)
  note facts = scan_plain [OF q sc]
  show "star_char \<notin> set chunk" "plain_pattern chunk" "plain_pattern rest"
    "rest = [] \<or> (\<exists>r. rest = star_char # r)" using facts by auto
  have qa: "q = chunk @ rest" by (rule scan_append [OF sc])
  have hq: "q \<noteq> [] \<Longrightarrow> hd q \<noteq> star_char" unfolding q_def by (rule hd_dropWhile)
  show "rest = []" if "chunk = []" using that facts hq qa by auto
  have all: "list_all (\<lambda>c. c = star_char) st" unfolding st_def list_all_iff by (auto dest: set_takeWhileD)
  have "star \<longleftrightarrow> st \<noteq> []" unfolding star st_def by (cases p) (auto simp: HasPrefix_iff)
  then show "glob p s \<longleftrightarrow> (if star then glob (star_char # chunk @ rest) s else glob (chunk @ rest) s)"
    using glob_stars [OF all, of q s] p qa by (cases "st = []") auto
qed

lemma check_rest_plain: "plain_pattern p \<Longrightarrow> check_rest p = Some False"
proof (induction p rule: check_rest.induct)
  case (1 p)
  obtain star chunk rest where sc: "scanChunk p = (star, chunk, rest)" by (cases "scanChunk p")
  show ?case
  proof (cases "p = []")
    case False
    note f = scanChunk_plain [OF "1.prems" sc]
    show ?thesis using "1.IH" [OF False sc [symmetric] refl] f(3) matchChunk_plain [OF f(2), of "[]"] False sc
      by (subst check_rest.simps) simp
  qed (simp add: check_rest.simps)
qed

lemma glob_skip:
  assumes c: "star_char \<notin> set chunk" and r: "rest = [] \<or> (\<exists>q. rest = star_char # q)"
  shows "glob (star_char # chunk @ rest) s \<longleftrightarrow>
     (\<exists>k \<le> length s. fits_at chunk (rest = []) s k \<and> glob rest (drop (k + length chunk) s))"
proof -
  have "glob (chunk @ rest) (drop k s) \<longleftrightarrow>
      fits_at chunk (rest = []) s k \<and> glob rest (drop (k + length chunk) s)" for k
    using glob_chunk [OF c, of rest "drop k s"] by (auto simp: fits_at_def add.commute)
  then show ?thesis by (simp add: glob_star)
qed

lemma glob_first_fit:
  assumes r: "rest = [] \<or> (\<exists>q. rest = star_char # q)" and k: "fits_at chunk (rest = []) s k" "k \<le> length s"
    and first: "\<And>j. j < k \<Longrightarrow> \<not> fits_at chunk (rest = []) s j"
  shows "(\<exists>k \<le> length s. fits_at chunk (rest = []) s k \<and> glob rest (drop (k + length chunk) s)) \<longleftrightarrow>
    glob rest (drop (k + length chunk) s)"
proof
  assume "\<exists>k \<le> length s. fits_at chunk (rest = []) s k \<and> glob rest (drop (k + length chunk) s)"
  then obtain j where j: "fits_at chunk (rest = []) s j" "glob rest (drop (j + length chunk) s)" by blast
  have "k \<le> j" using first j(1) leI by blast
  then show "glob rest (drop (k + length chunk) s)"
    using r j k glob_star_mono [of _ "j + length chunk" s "k + length chunk"] by (auto simp: fits_at_def)
qed (use k in blast)

lemma Match_plain: "plain_pattern p \<Longrightarrow> plain_name s \<Longrightarrow> filepath_Match p s = Some (glob p s)"
proof (induction p s rule: filepath_Match.induct)
  case (1 p s)
  obtain star chunk rest where sc: "scanChunk p = (star, chunk, rest)" by (cases "scanChunk p")
  note f = scanChunk_plain [OF "1.prems"(1) sc]
  note ps = "1.prems"(2)
  have m: "matchChunk False chunk s = Some (if fits chunk s then Some (drop (length chunk) s) else None)"
    by (rule matchChunk_plain [OF f(2) ps])
  have dl: "plain_name (drop k s)" for k using ps by (rule plain_name_drop)
  show ?case
  proof (cases "p = [] \<or> star \<and> chunk = []")
    case True
    have "slash \<notin> set s" using ps by (simp add: plain_name_def)
    then show ?thesis using True sc f(5) f(6) [of s] by (subst filepath_Match.simps) (auto simp: glob_star)
  next
    case no: False
    define res where "res = (if fits_at chunk (rest = []) s 0 then Some (Some (drop (length chunk) s))
       else if star then skip chunk (rest = []) s else Some None)"
    have M: "filepath_Match p s = (case res of None \<Rightarrow> None | Some None \<Rightarrow> check_rest rest
        | Some (Some t) \<Rightarrow> filepath_Match rest t)"
      using no sc m by (subst filepath_Match.simps) (auto simp: res_def fits_at_def)
    have IH: "filepath_Match rest t = Some (glob rest t)" if "res = Some (Some t)" "plain_name t" for t
    proof (rule "1.IH" [OF _ sc [symmetric] refl _ m _ refl])
      show "p \<noteq> []" "\<not> (star \<and> chunk = [])" using no by auto
    qed (use that f(3) m in \<open>auto simp: res_def fits_at_def split: if_splits\<close>)
    have chk: "check_rest rest = Some False" by (rule check_rest_plain [OF f(3)])
    have G: "glob p s \<longleftrightarrow> (if star
        then \<exists>k \<le> length s. fits_at chunk (rest = []) s k \<and> glob rest (drop (k + length chunk) s)
        else fits_at chunk (rest = []) s 0 \<and> glob rest (drop (length chunk) s))"
      using f(6) [of s] glob_skip [OF f(1,4), of s] glob_chunk [OF f(1), of rest s] by (auto simp: fits_at_def)
    consider (here) "fits_at chunk (rest = []) s 0" | (nostar) "\<not> fits_at chunk (rest = []) s 0" "\<not> star"
      | (later) k where "star" "\<not> fits_at chunk (rest = []) s 0" "k \<le> length s" "fits_at chunk (rest = []) s k"
      | (never) "star" "\<forall>k \<le> length s. \<not> fits_at chunk (rest = []) s k"
      by blast
    then show ?thesis
    proof cases
      case here
      then have "res = Some (Some (drop (length chunk) s))" by (simp add: res_def)
      then show ?thesis using M IH [OF _ dl] G here glob_first_fit [OF f(4) here] by simp
    next
      case nostar
      then show ?thesis using M G chk by (simp add: res_def)
    next
      case later
      define k0 where "k0 = (LEAST k. fits_at chunk (rest = []) s k)"
      have k0: "fits_at chunk (rest = []) s k0" unfolding k0_def using later(4) by (rule LeastI)
      have first: "\<not> fits_at chunk (rest = []) s j" if "j < k0" for j
        using not_less_Least [of j] that unfolding k0_def by blast
      have le: "k0 \<le> length s" using Least_le [of "fits_at chunk (rest = []) s" k] later(3,4) unfolding k0_def by simp
      have pos: "0 < k0" using k0 later(2) by (cases k0) auto
      have "res = Some (Some (drop (k0 + length chunk) s))"
        using later skip_first [OF f(2) ps pos le k0] first by (simp add: res_def)
      then show ?thesis using M IH [OF _ dl] G later(1) glob_first_fit [OF f(4) k0 le first] by simp
    next
      case never
      then have "res = Some None" using skip_none [OF f(2) ps] by (auto simp: res_def)
      moreover have "\<not> glob p s" using G never by auto
      ultimately show ?thesis using M chk by simp
    qed
  qed
qed

end
