(* ===== verification/Remote_Sync.thy ===== *)
theory Remote_Sync
  imports Remote Glob
begin

text \<open>
  What \<open>Sync\<close> and \<open>GetFile\<close> of \<open>internal/remote/remote.go\<close> achieve, for every SFTP server that
  does what the documentation of \<open>pkg/sftp\<close> promises.
\<close>

subsection \<open>Uploads\<close>

lemma entry_of_Some:
  "entry_of n x = Some e \<longleftrightarrow> (\<exists>c m. x = Some (File c m) \<and> e = \<lparr>rName = n, rModTime = m, rSize = int (length c)\<rparr>)"
  by (auto simp: entry_of_def split: option.splits node.splits)

lemma option_eqI: "(\<And>e. x = Some e \<longleftrightarrow> y = Some e) \<Longrightarrow> x = y"
  by (metis not_Some_eq)

definition is_file :: "node option \<Rightarrow> bool" where
  "is_file n \<longleftrightarrow> (\<exists>c t. n = Some (File c t))"

lemma localListByName_Some: "localListByName ls n = Some l \<Longrightarrow> l \<in> set ls \<and> Name l = n"
  by (induction ls n rule: localListByName.induct) (auto split: if_splits)

lemma localListByName_None: "localListByName ls n = None \<longleftrightarrow> n \<notin> Name ` set ls"
  by (induction ls n rule: localListByName.induct) auto

lemma local_loop_entry:
  "loc \<in> set (local_loop F f dir es) \<Longrightarrow>
     Name loc \<in> fst ` set es \<and> is_backup_zip (Name loc) \<and> lPath loc = Join dir (Name loc)
     \<and> (\<exists>c m. Stat F f (lPath loc) = Inr (File c m) \<and>
         loc = \<lparr>Name = Name loc, lModTime = m, lSize = int (length c), lPath = Join dir (Name loc)\<rparr>)"
  by (induction F f dir es rule: local_loop.induct) (auto split: if_splits sum.splits node.splits)

lemma listLocalBackups_entry:
  assumes "listLocalBackups F f dir = Inr ls" "loc \<in> set ls"
  shows "entry_name (Name loc) \<and> is_backup_zip (Name loc) \<and> lPath loc = Join dir (Name loc)
     \<and> (\<exists>c m. Stat F f (lPath loc) = Inr (File c m) \<and>
         loc = \<lparr>Name = Name loc, lModTime = m, lSize = int (length c), lPath = Join dir (Name loc)\<rparr>)"
proof (cases "ReadDir F f dir")
  case (Inl e)
  with assms show ?thesis by (cases e) (auto simp: listLocalBackups_def Let_def FromSlash_def)
next
  case (Inr es)
  then have "loc \<in> set (local_loop F f dir es)" using assms by (simp add: listLocalBackups_def Let_def FromSlash_def)
  note L = local_loop_entry [OF this]
  then have "entry_name (Name loc)" using set_ReadDir [OF Inr] by (auto simp: entries_iff)
  with L show ?thesis by blast
qed

text \<open>Two entries of one name are the same.\<close>

lemma localListByName_in:
  assumes "listLocalBackups F f dir = Inr ls" "loc \<in> set ls"
  shows "localListByName ls (Name loc) = Some loc"
proof (cases "localListByName ls (Name loc)")
  case None
  with assms(2) show ?thesis by (auto simp: localListByName_None)
next
  case (Some l)
  then have l: "l \<in> set ls" "Name l = Name loc" using localListByName_Some by blast+
  then have "lPath l = lPath loc" using listLocalBackups_entry [OF assms(1)] assms(2) by metis
  then have "l = loc"
    using listLocalBackups_entry [OF assms(1) l(1)] listLocalBackups_entry [OF assms] l(2) by (metis node.inject sum.inject(2))
  with Some show ?thesis by simp
qed

context sftp_server
begin

lemma remote_writes_result:
  assumes "remote_writes E p ds r = (e, r')"
  shows "q \<noteq> p \<Longrightarrow> map_of r' q = map_of r q"
    "e = None \<Longrightarrow> map_of r p = Some (File c t) \<Longrightarrow> \<exists>t'. map_of r' p = Some (File (c @ concat ds) t')"
proof -
  have "(q \<noteq> p \<longrightarrow> map_of r' q = map_of r q) \<and>
    (e = None \<longrightarrow> map_of r p = Some (File c t) \<longrightarrow> (\<exists>t'. map_of r' p = Some (File (c @ concat ds) t')))"
    using assms
  proof (induction ds arbitrary: r c t)
    case (Cons d ds)
    obtain b r1 where 1: "sftp_Write E r p d = (b, r1)" by fastforce
    show ?case
    proof (cases b)
      case True
      with Cons.prems 1 have rest: "remote_writes E p ds r1 = (e, r')" by simp
      show ?thesis
      proof (intro conjI impI)
        assume "q \<noteq> p"
        with Cons.IH [OF rest] Write_frame [OF 1] show "map_of r' q = map_of r q" by simp
      next
        assume "e = None" "map_of r p = Some (File c t)"
        moreover have "sftp_Write E r p d = (True, r1)" using 1 True by simp
        ultimately obtain t1 where "map_of r1 p = Some (File (c @ d) t1)" using Write_ok by blast
        with Cons.IH [OF rest, of "c @ d" t1] \<open>e = None\<close> show "\<exists>t'. map_of r' p = Some (File (c @ concat (d # ds)) t')"
          by simp
      qed
    next
      case False
      with Cons.prems 1 show ?thesis using Write_frame [OF 1] by auto
    qed
  qed simp
  then show "q \<noteq> p \<Longrightarrow> map_of r' q = map_of r q"
    "e = None \<Longrightarrow> map_of r p = Some (File c t) \<Longrightarrow> \<exists>t'. map_of r' p = Some (File (c @ concat ds) t')" by blast+
qed

lemma uploadFile_result:
  assumes "uploadFile E F f lp rp enc pw r = (e, r')"
  shows "q \<noteq> rp \<Longrightarrow> map_of r' q = map_of r q"
    "e = None \<Longrightarrow> \<exists>c. ReadFile F f lp = Inr c \<and> holds_copy E enc pw c (map_of r' rp)"
proof -
  have "(q \<noteq> rp \<longrightarrow> map_of r' q = map_of r q) \<and>
    (e = None \<longrightarrow> (\<exists>c. ReadFile F f lp = Inr c \<and> holds_copy E enc pw c (map_of r' rp)))"
  proof (cases "ReadFile F f lp")
    case (Inl x)
    with assms show ?thesis by (auto simp: uploadFile_def FromSlash_def)
  next
    case (Inr c)
    obtain b r1 where 1: "sftp_Create E r rp = (b, r1)" by fastforce
    note frame = Create_frame [OF 1]
    show ?thesis
    proof (cases b)
      case False
      with assms Inr 1 frame show ?thesis by (auto simp: uploadFile_def FromSlash_def)
    next
      case True
      then have "sftp_Create E r rp = (True, r1)" using 1 by simp
      then obtain t where t: "map_of r1 rp = Some (File [] t)" using Create_ok by blast
      define src where "src = (if F f (OpRead lp) then (Some ErrOther, []) else (None, c))"
      note W = remote_writes_result [of rp _ r1]
      show ?thesis
      proof (cases enc)
        case False
        obtain e2 r2 where 2: "remote_writes E rp [snd src] r1 = (e2, r2)" by fastforce
        have "(case e2 of Some e \<Rightarrow> (Some e, r2) | None \<Rightarrow> (map_option OSErr (fst src), r2)) = (e, r')"
          using assms Inr 1 True False 2 unfolding uploadFile_def FromSlash_def Let_def src_def
          by (simp del: remote_writes.simps)
        then have "r' = r2" "e = None \<Longrightarrow> e2 = None \<and> fst src = None" by (auto split: option.splits)
        then show ?thesis
          using W(1) [OF 2] W(2) [OF 2 _ t] frame False Inr
          by (auto simp: holds_copy_def src_def split: if_splits)
      next
        case enc: True
        have S: "streamEncryptUpload E src rp pw r1 = (e, r')"
          using assms Inr 1 True enc unfolding uploadFile_def FromSlash_def Let_def src_def by simp
        show ?thesis
        proof (cases "\<exists>salt nonce block. rand_salt E r1 = Some salt \<and> rand_nonce E r1 = Some nonce \<and> new_cipher E pw salt = Some block")
          case False
          then have "e \<noteq> None \<and> r' = r1" using S by (auto simp: streamEncryptUpload_def split: option.splits)
          then show ?thesis using frame by auto
        next
          case True
          then obtain salt nonce block where k: "rand_salt E r1 = Some salt" "rand_nonce E r1 = Some nonce" "new_cipher E pw salt = Some block"
            by blast
          obtain e2 r2 where 2: "remote_writes E rp [salt, nonce, ctr_stream block nonce (snd src)] r1 = (e2, r2)" by fastforce
          have "(case e2 of Some e \<Rightarrow> (Some e, r2) | None \<Rightarrow> (map_option OSErr (fst src), r2)) = (e, r')"
            using S k 2 by (simp add: streamEncryptUpload_def)
          then have r: "r' = r2" "e = None \<Longrightarrow> e2 = None \<and> fst src = None" by (auto split: option.splits)
          have "holds_copy E enc pw c (map_of r2 rp)" if ok: "e = None"
          proof -
            obtain t' where "map_of r2 rp = Some (File ([] @ concat [salt, nonce, ctr_stream block nonce (snd src)]) t')"
              using W(2) [OF 2 _ t] r(2) ok by blast
            moreover have "snd src = c" using r(2) ok by (auto simp: src_def split: if_splits)
            ultimately show ?thesis using k enc by (auto simp: holds_copy_def)
          qed
          then show ?thesis using W(1) [OF 2] frame Inr r(1) by auto
        qed
      qed
    qed
  qed
  then show "q \<noteq> rp \<Longrightarrow> map_of r' q = map_of r q"
    "e = None \<Longrightarrow> \<exists>c. ReadFile F f lp = Inr c \<and> holds_copy E enc pw c (map_of r' rp)" by blast+
qed

lemma listRemote_set:
  assumes "listRemote E r d = Inr es"
  shows "e \<in> set es \<longleftrightarrow> (\<exists>n. is_backup_zip n \<and> entry_name n \<and> entry_of n (map_of r (rpath d n)) = Some e)"
proof (cases "sftp_ReadDir E r d")
  case (Inl x)
  with assms have "x = ErrNotExist" "es = []" by (cases x; simp add: listRemote_def)+
  then show ?thesis using ReadDir_none [of r d] Inl by (auto simp: entry_of_Some)
next
  case (Inr xs)
  with assms have "es = remote_loop xs" by (simp add: listRemote_def)
  then show ?thesis using ReadDir_ok [OF Inr] by (auto simp: remote_loop_set entry_of_Some)
qed

lemma listRemote_result:
  assumes "listRemote E r d = Inr es" "is_backup_zip n" "entry_name n"
  shows "remoteMap es n = entry_of n (map_of r (rpath d n))"
proof -
  note in_es = listRemote_set [OF assms(1)]
  have same: "rName e = n \<Longrightarrow> e \<in> set es \<Longrightarrow> entry_of n (map_of r (rpath d n)) = Some e" for e
    using in_es [of e] by (auto simp: entry_of_Some)
  show ?thesis
  proof (cases "remoteMap es n")
    case None
    then have "\<forall>e \<in> set es. rName e \<noteq> n" by (simp add: remoteMap_def find_None_iff)
    moreover have "e \<in> set es \<and> rName e = n" if "entry_of n (map_of r (rpath d n)) = Some e" for e
    proof
      show "e \<in> set es" unfolding in_es using that assms(2,3) by blast
      show "rName e = n" using that by (auto simp: entry_of_Some)
    qed
    ultimately show ?thesis using None by (cases "entry_of n (map_of r (rpath d n))") auto
  next
    case (Some e)
    then have "e \<in> set es" "rName e = n" by (auto simp: remoteMap_def find_Some_iff) (metis nth_mem set_rev length_rev)
    with same Some show ?thesis by simp
  qed
qed


text \<open>The loop of uploads, on the file of one name: the last of the uploads to it counts.\<close>

lemma upload_loop_result:
  assumes "P = (\<lambda>loc. q = rpath D (Name loc) \<and> need_upload enc (remoteMap rs (Name loc)) loc)"
    and "upload_loop E F D enc pw rs ls w = (e, w')"
  shows "files w' = files w \<and> set (logs w) \<subseteq> set (logs w')
    \<and> (filter P ls = [] \<longrightarrow> map_of (rfiles w') q = map_of (rfiles w) q)
    \<and> (filter P ls \<noteq> [] \<longrightarrow> e = None
        \<longrightarrow> (\<exists>loc c. loc \<in> set ls \<and> P loc \<and> ReadFile F (files w) (lPath loc) = Inr c
              \<and> holds_copy E enc pw c (map_of (rfiles w') q)))"
  using assms(2)
proof (induction ls arbitrary: w)
  case (Cons loc ls)
  show ?case
  proof (cases "need_upload enc (remoteMap rs (Name loc)) loc")
    case False
    then have "\<not> P loc" "upload_loop E F D enc pw rs ls w = (e, w')" using Cons.prems by (simp_all add: assms(1))
    with Cons.IH [of w] show ?thesis by auto
  next
    case True
    then have P: "P loc \<longleftrightarrow> q = rpath D (Name loc)" by (simp add: assms(1))
    obtain e1 r1 where 1: "uploadFile E F (files w) (lPath loc) (rpath D (Name loc)) enc pw (rfiles w) = (e1, r1)" by fastforce
    note U = uploadFile_result [OF 1]
    show ?thesis
    proof (cases e1)
      case (Some a)
      then have "w' = w\<lparr>rfiles := r1\<rparr>" "e \<noteq> None" using Cons.prems True 1 by (auto simp: rpath_def)
      then show ?thesis using U(1) P by auto
    next
      case None
      define w1 where "w1 = log_msg INFO ''log.msg.uploaded'' [Name loc] (w\<lparr>rfiles := r1\<rparr>)"
      have "upload_loop E F D enc pw rs ls w1 = (e, w')" using Cons.prems True 1 None by (simp add: rpath_def w1_def)
      note IH = Cons.IH [OF this]
      have w1: "files w1 = files w" "rfiles w1 = r1" "set (logs w) \<subseteq> set (logs w1)" by (auto simp: w1_def log_msg_def)
      show ?thesis
      proof (cases "filter P ls = []")
        case False
        then show ?thesis using IH w1 by auto
      next
        case True
        then have q: "map_of (rfiles w') q = map_of r1 q" using IH w1 by auto
        show ?thesis
        proof (cases "P loc")
          case True
          then show ?thesis using U(2) [OF None] IH w1 q P by (auto intro!: exI [of _ loc])
        next
          case False
          then show ?thesis using U(1) IH w1 q P True by auto
        qed
      qed
    qed
  qed
qed simp

lemma remove_loop_result:
  fixes w :: "'a rworld_scheme"
  assumes "P = (\<lambda>rem. q = rpath D (rName rem) \<and> localListByName ls (rName rem) = None)"
  defines "res \<equiv> remove_loop E D ls"
  shows "files (res rs w) = files w \<and> set (logs w) \<subseteq> set (logs (res rs w))
    \<and> (filter P rs = [] \<longrightarrow> map_of (rfiles (res rs w)) q = map_of (rfiles w) q)
    \<and> (filter P rs \<noteq> [] \<longrightarrow> map_of (rfiles (res rs w)) q = None
         \<or> (\<exists>n. q = rpath D n \<and> (WARN, ''log.warn.remote_remove'', [n]) \<in> set (logs (res rs w))))"
proof (induction rs arbitrary: w)
  case (Cons rem rs)
  show ?case
  proof (cases "localListByName ls (rName rem) = None")
    case False
    then have "\<not> P rem" "res (rem # rs) w = res rs w" by (auto simp: assms(1) res_def)
    then show ?thesis using Cons.IH [of w] by auto
  next
    case True
    then have P: "P rem \<longleftrightarrow> q = rpath D (rName rem)" by (simp add: assms(1))
    obtain b r where 1: "sftp_Remove E (rfiles w) (rpath D (rName rem)) = (b, r)" by fastforce
    define w1 where "w1 = (if b then log_msg INFO ''log.msg.removed_remote'' [rName rem] (w\<lparr>rfiles := r\<rparr>)
        else log_msg WARN ''log.warn.remote_remove'' [rName rem] (w\<lparr>rfiles := r\<rparr>))"
    have step: "res (rem # rs) w = res rs w1"
      using True 1 by (simp add: res_def w1_def rpath_def split: bool.split)
    have w1: "files w1 = files w" "rfiles w1 = r" "set (logs w) \<subseteq> set (logs w1)"
        "\<not> b \<Longrightarrow> (WARN, ''log.warn.remote_remove'', [rName rem]) \<in> set (logs w1)"
      by (auto simp: w1_def log_msg_def)
    show ?thesis
    proof (cases "filter P rs = []")
      case False
      then show ?thesis unfolding step using Cons.IH [of w1] w1(1-3) by auto
    next
      case none: True
      then have q: "map_of (rfiles (res rs w1)) q = map_of r q" using Cons.IH [of w1] w1(2) by auto
      show ?thesis
      proof (cases "P rem")
        case True
        then have "map_of r q = None \<or> (WARN, ''log.warn.remote_remove'', [rName rem]) \<in> set (logs w1)"
          using Remove_ok 1 w1(4) P by (cases b) auto
        then show ?thesis unfolding step using Cons.IH [of w1] w1(1,3) q True P by auto
      next
        case False
        then show ?thesis unfolding step using Cons.IH [of w1] w1(1,3) q P none Remove_frame [OF 1] by auto
      qed
    qed
  qed
qed (simp add: res_def)

lemma Sync_cases:
  assumes "Sync E F cfg dir w = (None, w')" "RemoteBackupDir cfg \<noteq> []" "RemoteSSHHost cfg \<noteq> []"
  obtains ls rs w2 w3 where "listLocalBackups F (files w) dir = Inr ls" "files w2 = files w"
    "\<And>q c t. map_of (rfiles w2) q = Some (File c t) \<longleftrightarrow> map_of (rfiles w) q = Some (File c t)"
    "listRemote E (rfiles w2) (RemoteBackupDir cfg) = Inr rs"
    "upload_loop E F (RemoteBackupDir cfg) (TrimSpace (RemoteAESPassword cfg) \<noteq> []) (TrimSpace (RemoteAESPassword cfg)) rs ls w2 = (None, w3)"
    "w' = remove_loop E (RemoteBackupDir cfg) ls rs w3"
proof -
  let ?D = "RemoteBackupDir cfg" and ?pw = "TrimSpace (RemoteAESPassword cfg)"
  obtain b r where m: "sftp_MkdirAll E (rfiles w) ?D = (b, r)" by fastforce
  define w1 where "w1 = (if b then w\<lparr>rfiles := r\<rparr> else log_msg WARN ''log.warn.sftp_mkdir'' [?D] (w\<lparr>rfiles := r\<rparr>))"
  define w2 where "w2 = log_msg INFO (if ?pw \<noteq> [] then ''log.msg.remote_aes_on'' else ''log.msg.remote_aes_off'') [] w1"
  have w2: "files w2 = files w" "rfiles w2 = r" "rfiles w1 = r" by (simp_all add: w2_def w1_def log_msg_def)
  obtain ls where ls: "listLocalBackups F (files w) dir = Inr ls"
    using assms by (cases "listLocalBackups F (files w) dir") (auto simp: Sync_def)
  have d: "dial E F (files w) cfg = None" "sftp_NewClient E"
    using assms ls by (auto simp: Sync_def split: option.splits if_splits)
  have S: "(case listRemote E (rfiles w1) ?D of
        Inl e \<Rightarrow> (Some (Err ''err.list_remote'' [] (Some (OSErr e))), w1)
      | Inr rs \<Rightarrow> (case upload_loop E F ?D (?pw \<noteq> []) ?pw rs ls w2 of
          (Some e, w3) \<Rightarrow> (Some e, w3) | (None, w3) \<Rightarrow> (None, remove_loop E ?D ls rs w3))) = (None, w')"
    using assms(1) unfolding Sync_def Let_def ToSlash_def w2_def w1_def m prod.case ls sum.case d(1) option.case
    by (simp only: assms(2,3) d(2) simp_thms if_True if_False)
  then obtain rs where rs: "listRemote E (rfiles w1) ?D = Inr rs" by (cases "listRemote E (rfiles w1) ?D") auto
  with S obtain w3 where "upload_loop E F ?D (?pw \<noteq> []) ?pw rs ls w2 = (None, w3)" "w' = remove_loop E ?D ls rs w3"
    by (auto split: prod.splits option.splits)
  then show thesis using that ls w2 rs MkdirAll_frame [OF m] by metis
qed

text \<open>
  The state of one backup on the other host after a successful \<open>Sync\<close>, as a function of the
  state before and of the local files.
\<close>

lemma Sync_result:
  assumes "Sync E F cfg dir w = (None, w')" "RemoteBackupDir cfg \<noteq> []" "RemoteSSHHost cfg \<noteq> []"
    and "listLocalBackups F (files w) dir = Inr ls" "is_backup_zip n" "entry_name n"
    and "old = map_of (rfiles w) (rpath (RemoteBackupDir cfg) n)" "new = map_of (rfiles w') (rpath (RemoteBackupDir cfg) n)"
    and "pw = TrimSpace (RemoteAESPassword cfg)"
  shows "case localListByName ls n of
      Some loc \<Rightarrow>
        if need_upload (pw \<noteq> []) (entry_of n old) loc
        then \<exists>c. ReadFile F (files w) (lPath loc) = Inr c \<and> holds_copy E (pw \<noteq> []) pw c new
        else new = old
    | None \<Rightarrow> \<not> is_file new \<or> (WARN, ''log.warn.remote_remove'', [n]) \<in> set (logs w')"
proof -
  let ?D = "RemoteBackupDir cfg"
  obtain ls' rs w2 w3 where S0: "listLocalBackups F (files w) dir = Inr ls'" and S1: "files w2 = files w"
    "\<And>q c t. map_of (rfiles w2) q = Some (File c t) \<longleftrightarrow> map_of (rfiles w) q = Some (File c t)"
    "listRemote E (rfiles w2) ?D = Inr rs"
    "upload_loop E F ?D (TrimSpace (RemoteAESPassword cfg) \<noteq> []) (TrimSpace (RemoteAESPassword cfg)) rs ls' w2 = (None, w3)"
    "w' = remove_loop E ?D ls' rs w3"
    by (rule Sync_cases [OF assms(1-3)]) blast
  have "ls' = ls" using S0 assms(4) by simp
  note S = S1 [unfolded this, folded assms(9)]
  define q where "q = rpath ?D n"
  define mid where "mid = map_of (rfiles w2) q"
  have same: "rpath ?D m = q \<longleftrightarrow> m = n" for m by (auto simp: rpath_def q_def)
  have "entry_of n mid = Some e \<longleftrightarrow> entry_of n old = Some e" for e
    using S(2) [of q] by (simp add: entry_of_Some mid_def assms(7) q_def)
  then have ent: "entry_of n mid = entry_of n old" by (rule option_eqI)
  have rmap: "remoteMap rs n = entry_of n old" using listRemote_result [OF S(3) assms(5,6)] ent by (simp add: mid_def q_def)
  define P where "P = (\<lambda>loc :: localEntry. q = rpath ?D (Name loc) \<and> need_upload (pw \<noteq> []) (remoteMap rs (Name loc)) loc)"
  define R where "R = (\<lambda>rem :: remoteEntry. q = rpath ?D (rName rem) \<and> localListByName ls (rName rem) = None)"
  note U = upload_loop_result [OF P_def S(4)] and D = remove_loop_result [OF R_def, of rs w3, folded S(5)]
  show ?thesis
  proof (cases "localListByName ls n")
    case None
    then have nin: "n \<notin> Name ` set ls" by (simp add: localListByName_None)
    then have "filter P ls = []" by (auto simp: P_def filter_empty_conv same [symmetric] q_def rpath_def)
    then have "map_of (rfiles w3) q = mid" using U by (simp add: mid_def)
    show ?thesis
    proof (cases "filter R rs = []")
      case True
      have "\<not> is_file mid"
      proof
        assume "is_file mid"
        then obtain e where e: "entry_of n mid = Some e" "rName e = n" by (auto simp: is_file_def entry_of_def)
        then have "e \<in> set rs" using listRemote_set [OF S(3), of e] assms(5,6) by (auto simp: mid_def q_def)
        with e(2) None have "R e" by (simp add: R_def q_def)
        with True \<open>e \<in> set rs\<close> show False by (simp add: filter_empty_conv)
      qed
      moreover have "new = mid" using D True \<open>map_of (rfiles w3) q = mid\<close> by (simp add: assms(8) q_def)
      ultimately show ?thesis using None by simp
    next
      case False
      with D have "new = None \<or> (WARN, ''log.warn.remote_remove'', [n]) \<in> set (logs w')"
        by (auto simp: assms(8) q_def [symmetric] same eq_commute [of q])
      then show ?thesis using None by (auto simp: is_file_def)
    qed
  next
    case (Some loc)
    then have loc: "loc \<in> set ls" "Name loc = n" using localListByName_Some by blast+
    have uniq: "l = loc" if "l \<in> set ls" "Name l = n" for l
      using localListByName_in [OF assms(4) that(1)] that(2) Some by simp
    have "filter R rs = []" using Some by (auto simp: filter_empty_conv R_def eq_commute [of q] same)
    then have new: "new = map_of (rfiles w3) q" using D by (simp add: assms(8) q_def)
    have need: "P loc \<longleftrightarrow> need_upload (pw \<noteq> []) (entry_of n old) loc" using loc(2) rmap by (simp add: P_def q_def)
    have only: "l = loc" if "l \<in> set ls" "P l" for l using that uniq by (auto simp: P_def eq_commute [of q] same)
    show ?thesis
    proof (cases "P loc")
      case True
      then have "filter P ls \<noteq> []" using loc(1) by (auto simp: filter_empty_conv)
      with U obtain l c where "l \<in> set ls" "P l" "ReadFile F (files w2) (lPath l) = Inr c"
          "holds_copy E (pw \<noteq> []) pw c (map_of (rfiles w3) q)" by blast
      then show ?thesis using Some True need new S(1) only by auto
    next
      case False
      then have "filter P ls = []" using only by (auto simp: filter_empty_conv)
      then have "new = mid" using U new by (simp add: mid_def)
      moreover have "mid = old" if "entry_of n old = Some e" for e
        using that S(2) [of q] by (auto simp: entry_of_Some mid_def assms(7) q_def)
      moreover have "entry_of n old \<noteq> None" using False need by (auto simp: need_upload_def split: option.splits)
      ultimately show ?thesis using Some False need by auto
    qed
  qed
qed

text \<open>No other file of the other host is touched.\<close>

lemma Sync_frame:
  assumes "Sync E F cfg dir w = (None, w')" "RemoteBackupDir cfg \<noteq> []" "RemoteSSHHost cfg \<noteq> []"
    and "\<nexists>n. q = rpath (RemoteBackupDir cfg) n \<and> is_backup_zip n"
  shows "map_of (rfiles w') q = Some (File c t) \<longleftrightarrow> map_of (rfiles w) q = Some (File c t)"
    and "files w' = files w"
proof -
  let ?D = "RemoteBackupDir cfg" and ?pw = "TrimSpace (RemoteAESPassword cfg)"
  obtain ls rs w2 w3 where S: "listLocalBackups F (files w) dir = Inr ls" "files w2 = files w"
    "\<And>q c t. map_of (rfiles w2) q = Some (File c t) \<longleftrightarrow> map_of (rfiles w) q = Some (File c t)"
    "listRemote E (rfiles w2) ?D = Inr rs"
    "upload_loop E F ?D (?pw \<noteq> []) ?pw rs ls w2 = (None, w3)" "w' = remove_loop E ?D ls rs w3"
    by (rule Sync_cases [OF assms(1-3)]) blast
  define P where "P = (\<lambda>loc :: localEntry. q = rpath ?D (Name loc) \<and> need_upload (?pw \<noteq> []) (remoteMap rs (Name loc)) loc)"
  define R where "R = (\<lambda>rem :: remoteEntry. q = rpath ?D (rName rem) \<and> localListByName ls (rName rem) = None)"
  note U = upload_loop_result [OF P_def S(5)] and D = remove_loop_result [OF R_def, of rs w3, folded S(6)]
  have "filter P ls = []" using assms(4) listLocalBackups_entry [OF S(1)] by (auto simp: P_def filter_empty_conv)
  moreover have "filter R rs = []"
    using assms(4) listRemote_set [OF S(4)] by (auto simp: R_def filter_empty_conv entry_of_Some)
  ultimately show "map_of (rfiles w') q = Some (File c t) \<longleftrightarrow> map_of (rfiles w) q = Some (File c t)" "files w' = files w"
    using U D S(2,3) by auto
qed

end

subsection \<open>Downloads\<close>

lemma save_local_result:
  assumes "save_local F now lp d broken key w = (e, w')"
  shows "q \<noteq> lp \<Longrightarrow> map_of (files w') q = map_of (files w) q"
    "e = None \<Longrightarrow> \<not> broken \<and> map_of (files w') lp = Some (File d now)"
  using assms by (auto simp: save_local_def Create_def WriteFile_def split: if_splits)

lemma save_local_rfiles: "save_local F now lp d broken key w = (e, w') \<Longrightarrow> rfiles w' = rfiles w"
  by (auto simp: save_local_def split: sum.splits)

text \<open>A download writes to its target only.\<close>

lemma getOneFile_frame:
  assumes "getOneFile E F now D n lp cfg w = (e, w')"
  shows "(q \<noteq> lp \<longrightarrow> map_of (files w') q = map_of (files w) q) \<and> rfiles w' = rfiles w"
proof -
  have s: "(q \<noteq> lp \<longrightarrow> map_of (files v') q = map_of (files v) q) \<and> rfiles v' = rfiles v"
    if "save_local F now lp d b k v = (e, v')" for d b k and v v' :: "'a rworld_scheme"
    using save_local_result(1) [OF that] save_local_rfiles [OF that] by blast
  define w1 where "w1 = log_msg INFO ''log.msg.remote_decrypt'' [n] w"
  have w1: "files w1 = files w" "rfiles w1 = rfiles w" by (simp_all add: w1_def log_msg_def)
  show ?thesis
    using assms w1 unfolding getOneFile_def Let_def w1_def [symmetric]
    by (auto split: option.splits prod.splits if_splits dest!: s)
qed

text \<open>Where a file is to be saved that is there already, the name gets the suffix \<open>.lokal\<close>.\<close>

lemma local_target_new:
  assumes "\<not> F f (OpStat (Join dest n))" "entry_name n"
  shows "map_of f (local_target F f dest n) = None \<or> HasSuffix (Base (local_target F f dest n)) ''.lokal''"
proof (cases "map_of f (Join dest n)")
  case None
  with assms(1) show ?thesis by (simp add: local_target_def Stat_def)
next
  case (Some x)
  have "entry_name (n @ ''.lokal'')" using assms(2) by (auto simp: entry_name_def)
  then have "Base (Join dest (n @ ''.lokal'')) = n @ ''.lokal''" by (rule Base_Join_any)
  with Some assms(1) show ?thesis by (simp add: local_target_def Stat_def HasSuffix_iff)
qed

lemma get_loop_frame:
  assumes "get_loop E F now D dest cfg ns saved w = (e, saved', w')"
    and "\<And>f p. \<not> F f (OpStat p)" "list_all entry_name ns"
    and "map_of (files w) q = Some x" "\<not> HasSuffix (Base q) ''.lokal''"
  shows "map_of (files w') q = Some x"
  using assms(1,3,4)
proof (induction ns arbitrary: saved w)
  case (Cons n ns)
  let ?t = "local_target F (files w) dest n"
  obtain e1 w1 where 1: "getOneFile E F now D n ?t cfg w = (e1, w1)" by fastforce
  have "q \<noteq> ?t"
    using local_target_new [of F "files w" dest n] assms(2,5) Cons.prems(2,3) by auto
  then have "map_of (files w1) q = Some x" using getOneFile_frame [OF 1, of q] Cons.prems(3) by simp
  with Cons 1 show ?case by (cases e1) (auto simp: Let_def)
qed simp

lemma match_loop_names:
  "match_loop p es = Some ns \<Longrightarrow> set ns \<subseteq> rName ` set es"
  by (induction p es arbitrary: ns rule: match_loop.induct) (fastforce split: option.splits if_splits)+

context sftp_server
begin

lemma to_download_names:
  assumes "to_download E r D pattern = Inr ns" "validGetfilePattern pattern"
  shows "list_all (\<lambda>n. entry_name n \<and> is_backup_zip n) ns"
proof (cases "containsWildcard pattern")
  case True
  then obtain es where es: "listRemote E r D = Inr es" "match_loop pattern es = Some ns"
    using assms(1) by (auto simp: to_download_def split: sum.splits option.splits list.splits)
  then have "set ns \<subseteq> rName ` set es" by (intro match_loop_names)
  moreover have "entry_name (rName x) \<and> is_backup_zip (rName x)" if "x \<in> set es" for x
    using that listRemote_set [OF es(1), of x] by (auto simp: entry_of_Some)
  ultimately show ?thesis by (auto simp: list_all_iff)
next
  case False
  then have ns: "ns = [pattern]" "is_backup_zip pattern" using assms(1) by (auto simp: to_download_def split: if_splits)
  then obtain r where "pattern = r @ ''.zip''" using Ext_suffix [of pattern] by (auto simp: is_backup_zip_def HasSuffix_iff)
  then have "4 \<le> length pattern" by simp
  then have "pattern \<noteq> ''.''" "pattern \<noteq> ''..''" by auto
  then show ?thesis using ns assms(2) by (simp add: entry_name_def validGetfilePattern_def Contains_singleton)
qed

end

lemma new_cipher_block: "new_cipher E pw salt = Some block \<Longrightarrow> \<exists>k. block = aes_Encrypt E k"
  by (auto simp: new_cipher_def Let_def split: if_splits)

context remote_env
begin

text \<open>
  A download of what an upload left gives the content that was uploaded. An encrypted file is
  told from a zip file by its first two bytes.
\<close>

lemma getOneFile_copy:
  assumes "getOneFile E F now D n lp cfg w = (None, w')"
    and "holds_copy E enc pw c (map_of (rfiles w) (rpath D n))" "pw = TrimSpace (RemoteAESPassword cfg)"
    and "if enc then pw \<noteq> [] \<and> (\<forall>r s. rand_salt E r = Some s \<longrightarrow> take 2 s \<noteq> ''PK'') else pw = [] \<or> take 2 c = ''PK''"
  shows "map_of (files w') lp = Some (File c now)"
proof -
  obtain c' broken where o: "sftp_Open E (rfiles w) (rpath D n) = Some (c', broken)"
    using assms(1) by (auto simp: getOneFile_def rpath_def split: option.splits)
  define hl where "hl = saltLen + nonceLen"
  define header where "header = take hl c'"
  define rest where "rest = drop hl c'"
  have c': "c' = header @ rest" by (simp add: header_def rest_def)
  define w1 where "w1 = log_msg INFO ''log.msg.remote_decrypt'' [n] w"
  let ?dec = "pw \<noteq> [] \<and> length header = hl \<and> (header ! 0 \<noteq> CHR ''P'' \<or> header ! 1 \<noteq> CHR ''K'')"
  have G: "(if length header < hl \<and> (broken \<or> length header \<noteq> 0)
       then (Some (Err ''err.remote_read'' [] (Some (Text ''unexpected EOF''))), w)
       else if ?dec then
         (case new_cipher E pw (take saltLen header) of
            None \<Rightarrow> (Some (Err ''err.cipher'' [] (Some (Text ''cipher''))), w1)
          | Some block \<Rightarrow> save_local F now lp (ctr_stream block (drop saltLen header) rest) broken ''err.decrypt_write'' w1)
       else save_local F now lp (header @ rest) broken ''err.copy'' w) = (None, w')"
    using assms(1) o unfolding getOneFile_def Let_def rpath_def hl_def header_def rest_def assms(3) w1_def by simp
  have nb: "\<not> broken"
    using G by (auto split: if_splits option.splits dest: save_local_result(2) [OF _ refl])
  have "sftp_Open E (rfiles w) (rpath D n) = Some (c', False)" using o nb by simp
  then obtain t where t: "map_of (rfiles w) (rpath D n) = Some (File c' t)" using Open_ok by blast
  have l2: "hl = 32" "saltLen = 16" by (simp_all add: hl_def saltLen_def nonceLen_def)
  show ?thesis
  proof (cases enc)
    case True
    then obtain salt nonce block r where h: "rand_salt E r = Some salt" "rand_nonce E r = Some nonce"
        "new_cipher E pw salt = Some block" "c' = salt @ nonce @ ctr_stream block nonce c"
      using assms(2) t by (auto simp: holds_copy_def)
    have len: "length salt = 16" "length nonce = 16"
      using salt_length [OF h(1)] nonce_length [OF h(2)] by (simp_all add: saltLen_def nonceLen_def)
    have hd: "header = salt @ nonce" "rest = ctr_stream block nonce c" using h(4) len l2 by (simp_all add: header_def rest_def)
    have pk: "take 2 salt \<noteq> ''PK''" "pw \<noteq> []" using assms(4) True h(1) by auto
    obtain a b s where s: "salt = a # b # s" using len(1) by (cases salt; cases "tl salt") auto
    have "?dec" using pk len l2 by (auto simp: hd s)
    moreover have "take saltLen header = salt" "drop saltLen header = nonce" using len l2 by (simp_all add: hd)
    moreover have "length header = hl" using len l2 by (simp add: hd)
    ultimately have "save_local F now lp (ctr_stream block nonce rest) broken ''err.decrypt_write'' w1 = (None, w')"
      using G h(3) by simp
    moreover have "ctr_stream block nonce rest = c"
      using new_cipher_block [OF h(3)] block_length by (auto simp: hd intro: ctr_stream_inverse)
    ultimately show ?thesis using save_local_result(2) by metis
  next
    case False
    then have c: "c' = c" using assms(2) t by (auto simp: holds_copy_def)
    have "\<not> ?dec"
    proof
      assume d: ?dec
      then have "take 2 c = ''PK''" using assms(4) False by auto
      moreover obtain x y r where "header = x # y # r" using d l2 by (cases header; cases "tl header") auto
      ultimately show False using d c' c by simp
    qed
    then have "save_local F now lp (header @ rest) broken ''err.copy'' w = (None, w')"
      using G by (auto split: if_splits)
    then show ?thesis using save_local_result(2) c c' by metis
  qed
qed

end

subsection \<open>A server\<close>

text \<open>
  An SFTP server over the file system of \<open>Go_OS\<close>, with any faults, any time and any salt. It
  keeps the promises, so the results hold for it. The key derivation and the block cipher are
  stand-ins of the right lengths.
\<close>

definition pad16 :: "bytes \<Rightarrow> bytes" where
  "pad16 s = take 16 (s @ replicate 16 (CHR 0x00))"

definition server_ReadDir :: "faults \<Rightarrow> rfs \<Rightarrow> string \<Rightarrow> (oserr, (string \<times> node) list) result" where
  "server_ReadDir RF r d =
     (let es = map (\<lambda>p. (drop (length d + 1) p, the (map_of r p)))
            (filter (\<lambda>p. HasPrefix p (d @ [slash]) \<and> entry_name (drop (length d + 1) p)) (remdups (map fst r)))
      in if RF r (OpReadDir d) then Inl ErrOther
         else if es = [] \<and> map_of r d = None then Inl ErrNotExist
         else Inr es)"

definition file_server :: "faults \<Rightarrow> int \<Rightarrow> bytes \<Rightarrow> sshenv" where
  "file_server RF now salt =
     \<lparr>ParsePrivateKey = (\<lambda>_. True), ssh_Dial = (\<lambda>_ _ _. True), sftp_NewClient = True,
      sftp_MkdirAll = (\<lambda>r d. case MkdirAll RF r d of Inl _ \<Rightarrow> (False, r) | Inr r' \<Rightarrow> (True, r')),
      sftp_ReadDir = server_ReadDir RF,
      sftp_Create = (\<lambda>r p. case Create RF r p now of Inl _ \<Rightarrow> (False, r) | Inr r' \<Rightarrow> (True, r')),
      sftp_Write = (\<lambda>r p d. case map_of r p of
          Some (File c _) \<Rightarrow> if RF r (OpWriteFile p) then (False, r) else (True, fs_update p (File (c @ d) now) r)
        | _ \<Rightarrow> (False, r)),
      sftp_Remove = (\<lambda>r p. case Remove RF r p of Inl _ \<Rightarrow> (False, r) | Inr r' \<Rightarrow> (True, r')),
      sftp_Open = (\<lambda>r p. case ReadFile RF r p of Inl _ \<Rightarrow> None | Inr c \<Rightarrow> Some (c, RF r (OpRead p))),
      rand_salt = (\<lambda>_. Some (pad16 salt)), rand_nonce = (\<lambda>_. Some (pad16 [])),
      pbkdf2_Key = (\<lambda>pw s i n. take n (pw @ s @ replicate n (CHR 0x00))),
      aes_Encrypt = (\<lambda>k b. map2 byte_xor (pad16 k) (pad16 b))\<rparr>"

lemma server_ReadDir_set:
  assumes "server_ReadDir RF r d = Inr es"
  shows "(n, x) \<in> set es \<longleftrightarrow> entry_name n \<and> map_of r (rpath d n) = Some x"
proof -
  define K where "K = fst ` set r"
  define ps where "ps = filter (\<lambda>p. HasPrefix p (d @ [slash]) \<and> entry_name (drop (length d + 1) p)) (remdups (map fst r))"
  have "es = map (\<lambda>p. (drop (length d + 1) p, the (map_of r p))) ps"
    using assms unfolding server_ReadDir_def Let_def ps_def [symmetric] by (auto split: if_splits)
  then have "(n, x) \<in> set es \<longleftrightarrow> (\<exists>p \<in> set ps. n = drop (length d + 1) p \<and> x = the (map_of r p))"
    by (simp only: set_map image_iff prod.inject)
  also have "\<dots> \<longleftrightarrow> (\<exists>p \<in> K. HasPrefix p (d @ [slash]) \<and> entry_name (drop (length d + 1) p)
      \<and> n = drop (length d + 1) p \<and> x = the (map_of r p))"
    by (auto simp: ps_def K_def)
  also have "\<dots> \<longleftrightarrow> entry_name n \<and> rpath d n \<in> K \<and> x = the (map_of r (rpath d n))"
    by (auto simp: HasPrefix_iff rpath_def)
  also have "\<dots> \<longleftrightarrow> entry_name n \<and> map_of r (rpath d n) = Some x"
    using map_of_eq_None_iff [of r "rpath d n"] by (cases "map_of r (rpath d n)") (auto simp: K_def)
  finally show ?thesis .
qed

lemma server_ReadDir_none:
  assumes "server_ReadDir RF r d = Inl ErrNotExist" "entry_name n" shows "map_of r (rpath d n) = None"
proof (rule ccontr)
  assume "map_of r (rpath d n) \<noteq> None"
  then have "rpath d n \<in> set (filter (\<lambda>p. HasPrefix p (d @ [slash]) \<and> entry_name (drop (length d + 1) p)) (remdups (map fst r)))"
    using assms(2) map_of_eq_None_iff [of r "rpath d n"] by (auto simp: rpath_def HasPrefix_iff)
  with assms(1) show False
    unfolding server_ReadDir_def Let_def by (auto simp: filter_empty_conv split: if_splits)
qed

interpretation server: remote_env "file_server RF now salt" for RF now salt
proof unfold_locales
  show "map_of r' q = Some (File c t) \<longleftrightarrow> map_of r q = Some (File c t)"
    if "sftp_MkdirAll (file_server RF now salt) r d = (b, r')" for r d b r' q c t
    using that by (auto simp: file_server_def MkdirAll_def split: option.splits node.splits if_splits)
  show "(n, File c t) \<in> set es \<longleftrightarrow> entry_name n \<and> map_of r (rpath d n) = Some (File c t)"
    if "sftp_ReadDir (file_server RF now salt) r d = Inr es" for r d es n c t
    using server_ReadDir_set [of RF r d es n] that by (simp add: file_server_def)
  show "map_of r (rpath d n) \<noteq> Some (File c t)"
    if "sftp_ReadDir (file_server RF now salt) r d = Inl ErrNotExist" "entry_name n" for r d n c t
    using server_ReadDir_none [of RF r d n] that by (simp add: file_server_def)
qed (auto simp: file_server_def Create_def Remove_def ReadFile_def pad16_def saltLen_def nonceLen_def
    split: sum.splits option.splits node.splits if_splits)

subsection \<open>Properties\<close>


definition ex_remote_cfg :: Config where
  "ex_remote_cfg = DefaultConfig\<lparr>RemoteBackupDir := ''r'', RemoteSSHHost := ''h'', RemoteSSHPassword := ''p'', RemoteAESPassword := ''k''\<rparr>"

definition ex_zipname :: string where
  "ex_zipname = ''mysql_backup_20250111_h_db.zip''"

definition ex_remote :: rworld where
  "ex_remote = \<lparr>files = [(''b'', Directory), (Join ''b'' ex_zipname, File ''PKzip'' 5)], logs = [], trace = [],
     rfiles = [(''r'', Directory), (''r/mysql_backup_20240101_h_db.zip'', File ''old'' 1)]\<rparr>"

definition ex_env :: sshenv where
  "ex_env = file_server (\<lambda>_ _. False) 9 ''S''"

definition ex_synced :: "goerr option \<times> rworld" where
  "ex_synced = Sync ex_env (\<lambda>_ _. False) ex_remote_cfg ''b'' ex_remote"

definition ex_loc :: localEntry where
  "ex_loc = \<lparr>Name = ex_zipname, lModTime = 5, lSize = 5, lPath = Join ''b'' ex_zipname\<rparr>"

lemma ex_synced: "Sync ex_env (\<lambda>_ _. False) ex_remote_cfg ''b'' ex_remote = (None, snd ex_synced)"
proof -
  have "fst ex_synced = None" by code_simp
  then show ?thesis unfolding ex_synced_def by (simp add: prod_eq_iff)
qed

lemma ex_local_list: "listLocalBackups (\<lambda>_ _. False) (files ex_remote) ''b'' = Inr [ex_loc]"
  by code_simp


text \<open>
  C34. A \<open>Sync\<close> without error changes no other file: no local file, and no file of the other
  host that is not a backup in the configured directory.
\<close>

theorem Sync_only_backups:
  assumes "sftp_server E" "Sync E F cfg dir w = (None, w')" "RemoteBackupDir cfg \<noteq> []" "RemoteSSHHost cfg \<noteq> []"
    and "\<nexists>n. q = rpath (RemoteBackupDir cfg) n \<and> is_backup_zip n"
  shows "(map_of (rfiles w') q = Some (File c t) \<longleftrightarrow> map_of (rfiles w) q = Some (File c t)) \<and> files w' = files w"
  using sftp_server.Sync_frame [OF assms] by blast

theorem Sync_only_backups_witness:
  "(map_of (rfiles (snd ex_synced)) ''q'' = Some (File [] 0) \<longleftrightarrow> map_of (rfiles ex_remote) ''q'' = Some (File [] 0))
     \<and> files (snd ex_synced) = files ex_remote"
proof (rule Sync_only_backups [OF _ ex_synced])
  show "sftp_server ex_env" unfolding ex_env_def by (rule server.sftp_server_axioms)
  show "\<nexists>n. ''q'' = rpath (RemoteBackupDir ex_remote_cfg) n \<and> is_backup_zip n" by (simp add: ex_remote_cfg_def rpath_def)
qed (simp_all add: ex_remote_cfg_def)

lemma GetFile_one:
  assumes "GetFile E F now cfg n dest w = (None, saved, w')" "\<not> containsWildcard n"
  obtains p where "saved = [p]" "getOneFile E F now (RemoteBackupDir cfg) n p cfg w = (None, w')"
proof -
  have "to_download E (rfiles w) (RemoteBackupDir cfg) n = Inr [n]"
    and L: "get_loop E F now (RemoteBackupDir cfg) dest cfg [n] [] w = (None, saved, w')"
    using assms unfolding GetFile_def Let_def ToSlash_def FromSlash_def
    by (auto simp: to_download_def split: if_splits option.splits)
  then show thesis
    using that [of "local_target F (files w) dest n"] by (auto simp: Let_def split: prod.splits option.splits)
qed


definition ex_fetched :: "goerr option \<times> string list \<times> rworld" where
  "ex_fetched = GetFile ex_env (\<lambda>_ _. False) 11 ex_remote_cfg ex_zipname ''b'' (snd ex_synced)"


text \<open>
  C36. Fetching files never overwrites a file that is there, unless its name ends in
  \<open>.lokal\<close>, whatever the pattern matches and whichever calls fail, if files can be checked
  for.
\<close>

theorem GetFile_keeps_local:
  assumes "sftp_server E" "GetFile E F now cfg pattern dest w = (e, saved, w')" "\<And>f p. \<not> F f (OpStat p)"
    and "map_of (files w) q = Some x" "\<not> HasSuffix (Base q) ''.lokal''"
  shows "map_of (files w') q = Some x"
proof (cases "w' = w")
  case False
  then obtain ns where ns: "to_download E (rfiles w) (RemoteBackupDir cfg) pattern = Inr ns" "validGetfilePattern pattern"
      "get_loop E F now (RemoteBackupDir cfg) dest cfg ns [] w = (e, saved, w')"
    using assms(2) unfolding GetFile_def Let_def ToSlash_def FromSlash_def by (auto split: if_splits option.splits sum.splits)
  have "list_all entry_name ns" using sftp_server.to_download_names [OF assms(1) ns(1,2)] by (auto simp: list_all_iff)
  then show ?thesis using get_loop_frame [OF ns(3) assms(3) _ assms(4,5)] by blast
qed (use assms(4) in simp)

theorem GetFile_keeps_local_witness:
  "map_of (files (snd (snd ex_fetched))) (Join ''b'' ex_zipname) = Some (File ''PKzip'' 5)"
proof (rule GetFile_keeps_local)
  show "sftp_server ex_env" unfolding ex_env_def by (rule server.sftp_server_axioms)
  show "GetFile ex_env (\<lambda>_ _. False) 11 ex_remote_cfg ex_zipname ''b'' (snd ex_synced)
      = (fst ex_fetched, fst (snd ex_fetched), snd (snd ex_fetched))"
    by (simp add: ex_fetched_def)
  show "map_of (files (snd ex_synced)) (Join ''b'' ex_zipname) = Some (File ''PKzip'' 5)" by code_simp
  show "\<not> HasSuffix (Base (Join ''b'' ex_zipname)) ''.lokal''" by code_simp
qed simp

text \<open>
  A salt that happens to begin with \<open>PK\<close>: the encrypted file is taken for a zip file and saved
  as it is. And a file of 1 to 31 bytes, encrypted or not, cannot be fetched at all.
\<close>

definition ex_bad_salt :: "goerr option \<times> string list \<times> rworld" where
  "ex_bad_salt = (let E = file_server (\<lambda>_ _. False) 9 ''PK'' in
     GetFile E (\<lambda>_ _. False) 11 ex_remote_cfg ex_zipname ''c'' (snd (Sync E (\<lambda>_ _. False) ex_remote_cfg ''b'' ex_remote)))"

lemma salt_taken_for_zip:
  "fst ex_bad_salt = None"
  "map_option (\<lambda>n. take 3 (content n)) (map_of (files (snd (snd ex_bad_salt))) (Join ''c'' ex_zipname)) = Some [CHR ''P'', CHR ''K'', CHR 0x00]"
  by code_simp+

lemma short_file_not_fetched:
  assumes "sftp_Open E (rfiles w) (rpath D n) = Some (c, b)" "0 < length c" "length c < 32"
  shows "fst (getOneFile E F now D n p cfg w) \<noteq> None"
proof -
  have "min (length c) (saltLen + nonceLen) = length c" using assms(3) by (simp add: saltLen_def nonceLen_def)
  then show ?thesis using assms by (simp add: getOneFile_def rpath_def Let_def saltLen_def nonceLen_def)
qed

subsection \<open>What a pattern fetches\<close>

lemma match_loop_glob:
  "plain_pattern p \<Longrightarrow> list_all (\<lambda>e. plain_name (rName e)) es \<Longrightarrow>
     match_loop p es = Some (filter (glob p) (map rName es))"
  by (induction es) (simp_all add: Match_plain)

lemma valid_plain_pattern: "validGetfilePattern p \<Longrightarrow> CHR ''['' \<notin> set p \<Longrightarrow> plain_pattern p"
  by (simp add: validGetfilePattern_def plain_pattern_def Contains_singleton)

text \<open>
  C37. The files that \<open>GetFile\<close> fetches for a pattern with wildcards are exactly those backups of
  the remote listing, in its order, whose names the pattern describes (a star for any text, a
  question mark for one character); when there is none, it is an error that names the pattern.
\<close>

theorem to_download_glob:
  assumes "validGetfilePattern pattern" "containsWildcard pattern" "CHR ''['' \<notin> set pattern"
    and "listRemote E r remoteDir = Inr es" "list_all (\<lambda>e. plain_name (rName e)) es"
  shows "to_download E r remoteDir pattern =
     (let ns = filter (glob pattern) (map rName es) in
      if ns = [] then Inl (Err ''err.no_remote_match'' [pattern] None) else Inr ns)"
  using assms match_loop_glob [OF valid_plain_pattern [OF assms(1,3)] assms(5)]
  by (simp add: to_download_def Let_def split: list.splits)

definition ex_listed :: remoteEntry where
  "ex_listed = \<lparr>rName = ''mysql_backup_20240101_h_db.zip'', rModTime = 1, rSize = 3\<rparr>"

theorem to_download_glob_witness:
  "to_download ex_env (rfiles ex_remote) ''r'' ''mysql*_20?4*.zip'' =
     (let ns = filter (glob ''mysql*_20?4*.zip'') (map rName [ex_listed]) in
      if ns = [] then Inl (Err ''err.no_remote_match'' [''mysql*_20?4*.zip''] None) else Inr ns)"
proof (rule to_download_glob)
  show "validGetfilePattern ''mysql*_20?4*.zip''" by code_simp
  show "containsWildcard ''mysql*_20?4*.zip''" by code_simp
  show "listRemote ex_env (rfiles ex_remote) ''r'' = Inr [ex_listed]" by code_simp
  show "list_all (\<lambda>e. plain_name (rName e)) [ex_listed]" by code_simp
qed simp

end
