(* ===== verification/Run_Backup.thy ===== *)
theory Run_Backup
  imports Backup Lifecycle Email Disk Remote_Sync
begin

text \<open>
  \<open>internal/run/run.go\<close>: the whole backup run, composed of the check of the disk, the start of
  the server, the backup, retention, the copy on the other host and the stop of the server; and
  the mail on an error.

  Everything outside the program is collected in \<open>runenv\<close>: the answers of processes and
  connections, the zip format, the SSH server, \<open>statfs\<close>, the process, the failing calls, the
  order of map iteration, the messages and the text of an error in the chosen language,
  \<open>sort.Slice\<close>, and the time and the date at a point of the run.
\<close>

subsection \<open>Definitions\<close>

record runenv =
  r_ext :: extenv
  r_zip :: zipenv
  r_ssh :: sshenv
  r_statfs :: statfs
  r_proc :: procenv
  r_faults :: faults
  r_order :: map_order
  r_i18n :: i18n
  r_errtext :: "goerr \<Rightarrow> string"
  r_sort :: "BackupFile list \<Rightarrow> BackupFile list"
  r_now :: "event list \<Rightarrow> int"
  r_today :: "event list \<Rightarrow> date"

definition sendErrorEmail ::
  "runenv \<Rightarrow> Config \<Rightarrow> string \<Rightarrow> string \<Rightarrow> bytes \<Rightarrow> 'a sysworld_scheme \<Rightarrow> 'a sysworld_scheme"
where
  "sendErrorEmail N cfg subject errDetail logExcerpt w =
     (let excerpt = (if length logExcerpt > 4096 then drop (length logExcerpt - 4096) logExcerpt else logExcerpt);
          body = FormatErrorBody subject errDetail excerpt
      in case Send (r_ext N) cfg subject body w of
           (Some e, w1) \<Rightarrow> log_msg WARN ''log.warn.email'' [r_errtext N e] w1
         | (None, w1) \<Rightarrow> w1)"

text \<open>An error that ends the run: the mail, then the error. \<open>subject\<close> is a translation key.\<close>

definition give_up ::
  "runenv \<Rightarrow> Config \<Rightarrow> string \<Rightarrow> string \<Rightarrow> goerr \<Rightarrow> 'a sysworld_scheme \<Rightarrow> goerr \<times> 'a sysworld_scheme"
where
  "give_up N cfg subject detail e w = (e, sendErrorEmail N cfg (T (r_i18n N) subject) detail [] w)"

definition check_disk ::
  "runenv \<Rightarrow> Config \<Rightarrow> 'a sysworld_scheme \<Rightarrow> goerr option \<times> 'a sysworld_scheme"
where
  "check_disk N cfg w =
     (case Available (r_statfs N) (r_proc N) (r_faults N) (files w) (FromSlash (BackupDir cfg)) of
        None \<Rightarrow> (None, log_msg WARN ''log.warn.disk_check'' [] w)
      | Some avail \<Rightarrow>
          if avail < MinFreeBytes then
            (let e = Err ''err.disk_space'' [Itoa (uint avail), Itoa (uint MinFreeBytes)] None
             in apfst Some (give_up N cfg ''email.subject.disk'' (r_errtext N e) e w))
          else (None, w))"

definition conn_of :: "Config \<Rightarrow> Conn" where
  "conn_of cfg = \<lparr>Host = MySQLHost cfg, Port = MySQLPort cfg, User = ''root'', Password = RootPassword cfg, BinDir = MySQLBin cfg\<rparr>"

text \<open>
  The start of the server: an error, or whether the run has started it. \<^const>\<open>None\<close> is a
  wait that does not end.
\<close>

definition ensure_mysql ::
  "runenv \<Rightarrow> Config \<Rightarrow> Conn \<Rightarrow> 'a sysworld_scheme \<Rightarrow> ((goerr, bool) result \<times> 'a sysworld_scheme) option"
where
  "ensure_mysql N cfg conn w =
     (if MySQLAutoStartStop cfg \<and> MySQLStartCmd cfg \<noteq> [] \<and> MySQLStopCmd cfg \<noteq> [] then
        (case Reachable (r_ext N) conn w of
           (None, w1) \<Rightarrow> Some (Inr False, w1)
         | (Some _, w1) \<Rightarrow>
             (case portReachable (r_ext N) (Host conn) (Port conn) w1 of
                (True, w2) \<Rightarrow> Some (Inr False, log_msg INFO ''log.msg.mysql_port_skip'' [Host conn, Itoa (Port conn)] w2)
              | (False, w2) \<Rightarrow>
                  (case runMySQLLifecycleCmd (r_ext N) (MySQLStartCmd cfg) False
                          (log_msg INFO ''log.msg.mysql_starting'' [MySQLStartCmd cfg] w2) of
                     (Some e, w3) \<Rightarrow>
                       Some (apfst Inl (give_up N cfg ''email.subject.mysql_start'' (r_errtext N e) (Err ''err.mysql_start'' [] (Some e)) w3))
                   | (None, w3) \<Rightarrow>
                       (case waitForMySQL (r_ext N) conn (60 * Second) (2 * Second) w3 of
                          None \<Rightarrow> None
                        | Some (False, w4) \<Rightarrow>
                            Some (apfst Inl (give_up N cfg ''email.subject.mysql_timeout'' (T (r_i18n N) ''email.body.mysql_timeout'')
                                    (Err ''err.mysql_timeout'' [] None) w4))
                        | Some (True, w4) \<Rightarrow> Some (Inr True, log_msg INFO ''log.msg.mysql_started'' [] w4)))))
      else Some (Inr False, w))"

text \<open>From the version of the server to the list of databases and the export of the users.\<close>

definition query_server ::
  "runenv \<Rightarrow> Config \<Rightarrow> Conn \<Rightarrow> 'a sysworld_scheme \<Rightarrow> (goerr, bool \<times> string list) result \<times> 'a sysworld_scheme"
where
  "query_server N cfg conn w =
     (case IsMariaDB (r_ext N) conn w of
        (Inl e, w1) \<Rightarrow> apfst Inl (give_up N cfg ''email.subject.mysql_server'' (r_errtext N e) (Err ''err.mysql_server'' [] (Some e)) w1)
      | (Inr isMariaDB, w1) \<Rightarrow>
          (case ListDatabases (r_ext N) conn w1 of
             (Inl e, w2) \<Rightarrow> apfst Inl (give_up N cfg ''email.subject.list_dbs'' (r_errtext N e) (Err ''err.list_databases'' [] (Some e)) w2)
           | (Inr names, w2) \<Rightarrow> (Inr (isMariaDB, names), w2)))"

definition export_users :: "runenv \<Rightarrow> Conn \<Rightarrow> bool \<Rightarrow> 'a sysworld_scheme \<Rightarrow> bytes \<times> 'a sysworld_scheme" where
  "export_users N conn isMariaDB w =
     (case ExportUsers (r_ext N) conn isMariaDB w of
        (Inl e, w1) \<Rightarrow> ([], log_msg WARN ''log.warn.export_users'' [r_errtext N e] w1)
      | (Inr u, w1) \<Rightarrow> (u, w1))"

definition apply_retention :: "runenv \<Rightarrow> Config \<Rightarrow> 'a sysworld_scheme \<Rightarrow> 'a sysworld_scheme" where
  "apply_retention N cfg w =
     (case ApplyToDirs (r_i18n N) (r_sort N) (r_faults N) (r_today N (trace w)) (BackupDir cfg) (RemoteBackupDir cfg)
             (RetainDaily cfg) (RetainWeekly cfg) (RetainMonthly cfg) (RetainYearly cfg) w of
        (Some _, w1) \<Rightarrow> log_msg WARN ''log.warn.retention'' [] w1
      | (None, w1) \<Rightarrow> w1)"

text \<open>The backup of the databases, retention, and the copy on the other host.\<close>

definition backup_all ::
  "runenv \<Rightarrow> Config \<Rightarrow> Conn \<Rightarrow> bool \<Rightarrow> string list \<Rightarrow> 'a rworld_scheme \<Rightarrow> goerr option \<times> 'a rworld_scheme"
where
  "backup_all N cfg conn isMariaDB names w =
     (case export_users N conn isMariaDB w of (userSQL, w1) \<Rightarrow>
        (case Run (r_ext N) (r_zip N) (r_faults N) (r_order N) (r_now N (trace w1)) (r_today N (trace w1)) cfg conn userSQL names isMariaDB w1 of
           (Inl e, w2) \<Rightarrow> apfst Some (give_up N cfg ''email.subject.dump'' (r_errtext N e) (Err ''err.backup'' [] (Some e)) w2)
         | (Inr _, w2) \<Rightarrow>
             (case Sync (r_ssh N) (r_faults N) cfg (BackupDir cfg) (apply_retention N cfg w2) of
                (Some e, w3) \<Rightarrow> apfst Some (give_up N cfg ''email.subject.remote'' (r_errtext N e) (Err ''err.remote_sync'' [] (Some e)) w3)
              | (None, w3) \<Rightarrow> (None, w3))))"

definition stop_mysql :: "runenv \<Rightarrow> Config \<Rightarrow> bool \<Rightarrow> 'a sysworld_scheme \<Rightarrow> 'a sysworld_scheme" where
  "stop_mysql N cfg weStarted w =
     (if weStarted \<and> MySQLAutoStartStop cfg \<and> MySQLStopCmd cfg \<noteq> [] then
        (case runMySQLLifecycleCmd (r_ext N) (MySQLStopCmd cfg) True
                (log_msg INFO ''log.msg.mysql_stopping'' [MySQLStopCmd cfg] w) of
           (Some e, w1) \<Rightarrow> log_msg WARN ''log.warn.mysql_stop'' [r_errtext N e] w1
         | (None, w1) \<Rightarrow> w1)
      else w)"

definition run_Backup :: "runenv \<Rightarrow> Config \<Rightarrow> 'a rworld_scheme \<Rightarrow> (goerr option \<times> 'a rworld_scheme) option" where
  "run_Backup N cfg w =
     (case check_disk N cfg w of
        (Some e, w1) \<Rightarrow> Some (Some e, w1)
      | (None, w1) \<Rightarrow>
          (case ensure_mysql N cfg (conn_of cfg) w1 of
             None \<Rightarrow> None
           | Some (Inl e, w2) \<Rightarrow> Some (Some e, w2)
           | Some (Inr weStarted, w2) \<Rightarrow>
               (case query_server N cfg (conn_of cfg) w2 of
                  (Inl e, w3) \<Rightarrow> Some (Some e, w3)
                | (Inr (isMariaDB, names), w3) \<Rightarrow>
                    if names = [] then Some (None, log_msg INFO ''log.msg.no_user_dbs'' [] w3)
                    else (case backup_all N cfg (conn_of cfg) isMariaDB names w3 of
                            (Some e, w4) \<Rightarrow> Some (Some e, w4)
                          | (None, w4) \<Rightarrow> Some (None, stop_mysql N cfg weStarted w4)))))"

text \<open>
  \<open>CaptureLogExcerpt\<close>: the end of the log file. A read that fails leaves the zero bytes of
  the new slice.
\<close>

definition CaptureLogExcerpt :: "faults \<Rightarrow> fs \<Rightarrow> string \<Rightarrow> int \<Rightarrow> bytes" where
  "CaptureLogExcerpt F f logPath maxBytes =
     (if logPath = [] \<or> maxBytes \<le> 0 then []
      else
        let p = FromSlash logPath in
        if F f (OpReadFile p) \<or> F f (OpStat p) then []
        else (case map_of f p of
                None \<Rightarrow> []
              | Some n \<Rightarrow>
                  let size = node_size n;
                      len = nat (min size maxBytes)
                  in case n of
                       File c _ \<Rightarrow> if F f (OpRead p) then replicate len (CHR 0x00) else drop (length c - len) c
                     | Directory \<Rightarrow> replicate len (CHR 0x00)))"

subsection \<open>What a step keeps\<close>

text \<open>
  A well-formed state: one node per path, and no directory with the name of a backup. A step
  keeps it, removes no directory, and leaves the files of the other host alone; most steps
  change no file at all. No step takes back an event.
\<close>

definition fine :: "'a world_scheme \<Rightarrow> bool" where
  "fine w \<longleftrightarrow> fs_ok (files w) \<and> nodirs (look w)"

definition keeps :: "'a rworld_scheme \<Rightarrow> 'a rworld_scheme \<Rightarrow> bool" where
  "keeps w w' \<longleftrightarrow> rfiles w' = rfiles w \<and> extends (trace w) (trace w') \<and>
     (fine w \<longrightarrow> fine w' \<and> (\<forall>d. look w d = Some Directory \<longrightarrow> look w' d = Some Directory))"

definition same :: "'a rworld_scheme \<Rightarrow> 'a rworld_scheme \<Rightarrow> bool" where
  "same w w' \<longleftrightarrow> rfiles w' = rfiles w \<and> files w' = files w \<and> extends (trace w) (trace w')"

lemma same_keeps: "same w w' \<Longrightarrow> keeps w w'"
  by (simp add: same_def keeps_def fine_def)

lemma same_refl [simp]: "same w w" and keeps_refl [simp]: "keeps w w"
  by (simp_all add: same_def keeps_def)

lemma same_trans: "same a b \<Longrightarrow> same b c \<Longrightarrow> same a c" and keeps_trans: "keeps a b \<Longrightarrow> keeps b c \<Longrightarrow> keeps a c"
  by (auto simp: same_def keeps_def intro: extends_trans)

lemma same_log_msg [simp]: "same a (log_msg l k x b) = same a b" and keeps_log_msg [simp]: "keeps a (log_msg l k x b) = keeps a b"
  by (simp_all add: same_def keeps_def fine_def log_msg_def)

lemma same_emit [simp]: "same a b \<Longrightarrow> same a (emit e b)"
  by (simp add: same_def emit_def)

lemma rfiles_simps [simp]: "rfiles (log_msg l k x w) = rfiles w" "rfiles (emit e w) = rfiles w" "rfiles (put_file p c now w) = rfiles w"
  by (simp_all add: log_msg_def emit_def put_file_def)

subsubsection \<open>Mail and commands\<close>

named_theorems samei

lemma same_then_do [samei]:
  "same w (snd r) \<Longrightarrow> (\<And>w1. same w w1 \<Longrightarrow> same w (snd (k w1))) \<Longrightarrow> same w (snd (then_do r k))"
  by (auto simp: then_do_def split: prod.splits option.splits)

lemma same_smtp_call [samei]: "same a w \<Longrightarrow> same a (snd (smtp_call X op w))"
  by (simp add: smtp_call_def Let_def)

text \<open>A call and a case for its failure and its success.\<close>

lemma same_call_case [samei]:
  "same a w \<Longrightarrow> (\<And>e w1. same a w1 \<Longrightarrow> same a (snd (f e w1))) \<Longrightarrow> (\<And>w1. same a w1 \<Longrightarrow> same a (snd (g w1))) \<Longrightarrow>
     same a (snd (case smtp_call X op w of (Some e, w1) \<Rightarrow> f e w1 | (None, w1) \<Rightarrow> g w1))"
  by (simp add: smtp_call_def Let_def)

lemma same_client_Auth [samei]: "same a w \<Longrightarrow> same a (snd (client_Auth X tls n au w))"
  by (simp add: client_Auth_def same_smtp_call)

lemma same_transmit [samei]: "same a w \<Longrightarrow> same a (snd (transmit X cfg msg w))"
  unfolding transmit_def by (intro samei) (simp_all add: samei)

lemma same_deliver [samei]: "same a w \<Longrightarrow> same a (snd (deliver X cfg tls au msg w))"
  unfolding deliver_def by (intro samei)

lemma same_Send [samei]: "same a w \<Longrightarrow> same a (snd (Send X cfg subject body w))"
proof -
  assume w: "same a w"
  have "same a (snd (sendTLS X cfg addr au msg w))" for addr au msg
    unfolding sendTLS_def by (intro samei w) simp_all
  moreover have "same a (snd (sendSTARTTLS X cfg addr au msg w))" for addr au msg
    unfolding sendSTARTTLS_def by (intro samei w) simp_all
  moreover have "same a (snd (smtp_SendMail X cfg addr au msg w))" for addr au msg
    unfolding smtp_SendMail_def Let_def using w by (cases "validateLine (AdminEmail cfg)") (simp, intro samei w, simp_all)
  ultimately show ?thesis using w by (simp add: Send_def Let_def)
qed

lemma same_sendErrorEmail: "same a w \<Longrightarrow> same a (sendErrorEmail N cfg s d l w)"
proof -
  assume "same a w"
  then have "same a (snd (Send (r_ext N) cfg s body w))" for body by (rule same_Send)
  then have "same a (case Send (r_ext N) cfg s body w of (Some e, w1) \<Rightarrow> log_msg WARN ''log.warn.email'' [r_errtext N e] w1
      | (None, w1) \<Rightarrow> w1)" for body
    by (auto simp: prod.case_eq_if split: option.split prod.split)
  then show ?thesis by (simp add: sendErrorEmail_def Let_def)
qed

lemma same_give_up [samei]: "same a w \<Longrightarrow> same a (snd (give_up N cfg s d e w))"
  by (simp add: give_up_def same_sendErrorEmail)

lemma same_run_cmd [samei]: "same a w \<Longrightarrow> same a (snd (run_cmd X n as i w))"
  by simp

lemma same_Reachable [samei]: "same a w \<Longrightarrow> same a (snd (Reachable X c w))"
  and same_IsMariaDB [samei]: "same a w \<Longrightarrow> same a (snd (IsMariaDB X c w))"
  and same_ListDatabases [samei]: "same a w \<Longrightarrow> same a (snd (ListDatabases X c w))"
  and same_portReachable [samei]: "same a w \<Longrightarrow> same a (snd (portReachable X h p w))"
  by (simp_all add: Reachable_def IsMariaDB_def ListDatabases_def portReachable_def case_prod_beta)

lemma same_lifecycle [samei]: "same a w \<Longrightarrow> same a (snd (runMySQLLifecycleCmd X c b w))"
  by (simp add: runMySQLLifecycleCmd_def start_background_def Let_def case_prod_beta split: option.split)

lemma same_user_rows [samei]: "same a w \<Longrightarrow> same a (snd (user_rows X c ls w))"
  by (induction ls arbitrary: w) (simp_all add: Let_def case_prod_beta)

lemma same_ExportUsers [samei]: "same a w \<Longrightarrow> same a (snd (ExportUsers X c m w))"
  by (simp add: ExportUsers_def exportUsersMariaDB_def exportUsersMariaDBFallback_def Let_def case_prod_beta same_user_rows)

lemma same_export_users [samei]: "same a w \<Longrightarrow> same a (snd (export_users N c m w))"
  using same_ExportUsers [of a w "r_ext N" c m] unfolding export_users_def by (auto split: prod.split sum.split)

lemma same_poll_mysql: "poll_mysql X conn deadline interval w = Some r \<Longrightarrow> same a w \<Longrightarrow> same a (snd r)"
proof -
  assume "poll_mysql X conn deadline interval w = Some r" "same a w"
  moreover have "poll_mysql X conn deadline interval w = Some r \<Longrightarrow> same w (snd r)"
    by (erule poll_mysql.raw_induct [where P = "\<lambda>X conn deadline interval w r. same w (snd r)", rotated])
      (auto simp: same_def extends_iff Let_def time_Sleep_def Reachable_def case_prod_beta split: if_splits, fastforce)
  ultimately show ?thesis by (blast intro: same_trans)
qed

lemma same_check_disk [samei]: "same w (snd (check_disk N cfg w))"
  by (simp add: check_disk_def Let_def samei split: option.split)

lemma same_query_server [samei]: "same w (snd (query_server N cfg conn w))"
proof -
  obtain r1 w1 where 1: "IsMariaDB (r_ext N) conn w = (r1, w1)" by fastforce
  obtain r2 w2 where 2: "ListDatabases (r_ext N) conn w1 = (r2, w2)" by fastforce
  have w1: "same w w1" using same_IsMariaDB [OF same_refl, of w "r_ext N" conn] 1 by simp
  have w2: "same w w2" using same_ListDatabases [OF w1, of "r_ext N" conn] 2 by simp
  show ?thesis using w1 w2 by (simp add: query_server_def 1 2 samei split: sum.split)
qed

lemma same_ensure_mysql: "ensure_mysql N cfg conn w = Some r \<Longrightarrow> same w (snd r)"
proof -
  assume E: "ensure_mysql N cfg conn w = Some r"
  obtain e1 w1 where 1: "Reachable (r_ext N) conn w = (e1, w1)" by fastforce
  obtain b w2 where 2: "portReachable (r_ext N) (Host conn) (Port conn) w1 = (b, w2)" by fastforce
  obtain e3 w3 where 3: "runMySQLLifecycleCmd (r_ext N) (MySQLStartCmd cfg) False
      (log_msg INFO ''log.msg.mysql_starting'' [MySQLStartCmd cfg] w2) = (e3, w3)" by fastforce
  have w1: "same w w1" using same_Reachable [OF same_refl, of w "r_ext N" conn] 1 by simp
  have w2: "same w w2" using same_portReachable [OF w1, of "r_ext N" "Host conn" "Port conn"] 2 by simp
  have w3: "same w w3"
    using same_lifecycle [of w "log_msg INFO ''log.msg.mysql_starting'' [MySQLStartCmd cfg] w2" "r_ext N" "MySQLStartCmd cfg" False] 3 w2 by simp
  have w4: "same w w4" if "waitForMySQL (r_ext N) conn (60 * Second) (2 * Second) w3 = Some (b, w4)" for b w4
    using that same_poll_mysql [OF _ w3] unfolding waitForMySQL_def by fastforce
  show ?thesis using E w1 w2 w3 w4 unfolding ensure_mysql_def 1 2 3
    by (auto simp: 2 3 samei split: if_splits option.splits bool.splits)
qed

lemma same_stop_mysql: "same w (stop_mysql N cfg b w)"
proof -
  obtain e w1 where 1: "runMySQLLifecycleCmd (r_ext N) (MySQLStopCmd cfg) True
      (log_msg INFO ''log.msg.mysql_stopping'' [MySQLStopCmd cfg] w) = (e, w1)" by fastforce
  have "same w (snd (runMySQLLifecycleCmd (r_ext N) (MySQLStopCmd cfg) True
      (log_msg INFO ''log.msg.mysql_stopping'' [MySQLStopCmd cfg] w)))"
    by (intro samei) simp
  then show ?thesis unfolding stop_mysql_def 1 by (simp split: option.split)
qed

subsubsection \<open>Files\<close>

lemma backup_not_dir: "nodirs m \<Longrightarrow> backup_suffix p \<Longrightarrow> m p = Some Directory \<longleftrightarrow> False"
  by (simp add: nodirs_def)

lemma keeps_put_file: "backup_suffix p \<Longrightarrow> keeps w (put_file p c now w)"
  by (auto simp: keeps_def fine_def put_file_def backup_not_dir)

lemma keeps_Rename:
  "backup_suffix a \<Longrightarrow> Rename F (files w) a b = Inr f \<Longrightarrow> keeps w (w\<lparr>files := f\<rparr>)"
  by (auto simp: keeps_def fine_def nodirs_def Rename_def split: if_splits option.splits node.splits)

lemma keeps_Remove: "backup_suffix p \<Longrightarrow> Remove F (files w) p = Inr f \<Longrightarrow> keeps w (w\<lparr>files := f\<rparr>)"
  by (auto simp: keeps_def fine_def backup_not_dir Remove_def split: if_splits option.splits node.splits)

lemma keeps_Create: "Create F (files w) p now = Inr f \<Longrightarrow> keeps w (w\<lparr>files := f\<rparr>)"
  by (auto simp: keeps_def fine_def Create_def split: if_splits)

lemma keeps_MkdirAll: "\<not> backup_suffix d \<Longrightarrow> MkdirAll F (files w) d = Inr f \<Longrightarrow> keeps w (w\<lparr>files := f\<rparr>)"
  by (auto simp: keeps_def fine_def nodirs_def MkdirAll_def split: if_splits option.splits node.splits)

lemma keeps_restore [simp]:
  "backup_suffix a \<Longrightarrow> keeps w (restore_sav F a b w)" "backup_suffix a \<Longrightarrow> keeps w (restore_sav_quiet F a b w)"
  "backup_suffix p \<Longrightarrow> keeps w (remove_quiet F p w)"
  by (auto simp: restore_sav_def restore_sav_quiet_def remove_quiet_def keeps_Rename keeps_Remove split: sum.splits)

text \<open>A writer for a backup; the steps of one backup.\<close>

definition writer_ok :: "zipw \<Rightarrow> bool" where
  "writer_ok h \<longleftrightarrow> backup_suffix (zpath h) \<and> backup_suffix (zsav h)"

lemma keeps_entry_write: "entry_write Z F now h d w = (e, h', w') \<Longrightarrow> writer_ok h \<Longrightarrow> keeps w w' \<and> writer_ok h'"
  by (auto simp: entry_write_def writer_ok_def Let_def keeps_put_file split: if_splits)

lemma keeps_write_all: "write_all Z F now ds h w = (e, h', w') \<Longrightarrow> writer_ok h \<Longrightarrow> keeps w w' \<and> writer_ok h'"
proof (induction ds arbitrary: h w)
  case (Cons d ds)
  obtain e1 h1 w1 where 1: "entry_write Z F now h d w = (e1, h1, w1)" by (cases "entry_write Z F now h d w")
  then show ?case using keeps_entry_write [OF 1] Cons by (cases e1) (auto intro: keeps_trans)
qed simp

lemma keeps_zip_close: "zip_close Z F now h w = (e, h', w') \<Longrightarrow> writer_ok h \<Longrightarrow> keeps w w' \<and> writer_ok h'"
  by (auto simp: zip_close_def writer_ok_def Let_def keeps_put_file split: if_splits)

lemma keeps_finish: "finish Z F now h w = (e, h', w') \<Longrightarrow> writer_ok h \<Longrightarrow> keeps w w' \<and> writer_ok h'"
proof -
  assume f: "finish Z F now h w = (e, h', w')" and h: "writer_ok h"
  obtain e1 h1 w1 where 1: "zip_close Z F now h w = (e1, h1, w1)" by (cases "zip_close Z F now h w")
  have "keeps w1 (remove_quiet F (zsav h) w1)" using h by (simp add: writer_ok_def)
  then show ?thesis using keeps_zip_close [OF 1 h] f keeps_trans 1
    by (cases e1) (auto simp: finish_def split: if_splits)
qed

lemma keeps_cancel: "writer_ok h \<Longrightarrow> keeps w (cancel Z F now h w)"
proof -
  assume h: "writer_ok h"
  obtain e1 h1 w1 where 1: "zip_close Z F now h w = (e1, h1, w1)" by (cases "zip_close Z F now h w")
  have "keeps w w1" using keeps_zip_close [OF 1 h] by simp
  moreover have "keeps w1 (remove_quiet F (zpath h) w1)" using h by (simp add: writer_ok_def)
  moreover have "keeps (remove_quiet F (zpath h) w1) (restore_sav F (zsav h) (zpath h) (remove_quiet F (zpath h) w1))"
    using h by (simp add: writer_ok_def)
  ultimately show ?thesis unfolding cancel_def 1 prod.case by (blast intro: keeps_trans)
qed

lemma keeps_open:
  assumes "safeWriteZIPStreaming Z F now zp en w = (r, w')" "backup_suffix zp" "backup_suffix (savPath_of zp)"
  shows "keeps w w' \<and> (\<forall>h. r = Inr h \<longrightarrow> writer_ok h)"
proof -
  define ren where "ren = (case Stat F (files w) zp of Inr _ \<Rightarrow> Rename F (files w) zp (savPath_of zp) | Inl _ \<Rightarrow> Inr (files w))"
  show ?thesis
  proof (cases ren)
    case (Inl e)
    then show ?thesis using assms(1) by (auto simp: safeWriteZIPStreaming_def ren_def Let_def)
  next
    case (Inr f1)
    define w1 where "w1 = w\<lparr>files := f1\<rparr>"
    have 1: "keeps w w1" using Inr keeps_Rename [OF assms(2)] unfolding ren_def w1_def by (auto split: sum.splits)
    show ?thesis
    proof (cases "Create F f1 zp now")
      case (Inl e)
      then have "w' = restore_sav_quiet F (savPath_of zp) zp w1" "r = Inl (OSErr e)"
        using assms(1) Inr by (simp_all add: safeWriteZIPStreaming_def ren_def [symmetric] w1_def Let_def)
      then show ?thesis using keeps_trans [OF 1] assms(3) by simp
    next
      case f2: (Inr f2)
      define w2 where "w2 = w1\<lparr>files := f2\<rparr>"
      have "keeps w1 w2" using keeps_Create [of F w1 zp now f2] f2 unfolding w2_def by (simp add: w1_def)
      then have 2: "keeps w w2" using keeps_trans [OF 1] by blast
      have r: "keeps w2 (restore_sav_quiet F (savPath_of zp) zp (remove_quiet F zp w2))"
        using keeps_trans keeps_restore(2) [OF assms(3)] keeps_restore(3) [OF assms(2)] by blast
      have "(r, w') = (if F f2 (OpZipCreate zp) then (Inl (OSErr ErrOther), restore_sav_quiet F (savPath_of zp) zp (remove_quiet F zp w2))
          else (Inr \<lparr>zpath = zp, zsav = savPath_of zp, zentry = en, zdata = [], zclosed = False, zbroken = False\<rparr>,
                put_file zp (zip_partial Z en []) now w2))"
        using assms(1) Inr f2 by (auto simp: safeWriteZIPStreaming_def ren_def [symmetric] w2_def w1_def Let_def split: if_splits)
      then show ?thesis using keeps_trans [OF 2] r assms(2,3) keeps_put_file [OF assms(2)] by (auto simp: writer_ok_def split: if_splits)
    qed
  qed
qed

lemma keeps_emit [simp]: "keeps a b \<Longrightarrow> keeps a (emit e b)"
  by (simp add: keeps_def fine_def emit_def)

lemma keeps_backup_db:
  assumes "backup_db X Z F now conn m dir today (hostnameForFile h) us db w = (r, w')"
    and "is_clean dir" "date_ok today" "db_name db"
  shows "keeps w w'"
proof -
  let ?zp = "Join dir (zipName_of today (hostnameForFile h) db)"
  obtain a where a: "?zp = a @ ''.zip''" "savPath_of ?zp = a @ ''.sav''" using zip_sav_paths [OF assms(2-4)] by blast
  have bs: "backup_suffix ?zp" "backup_suffix (savPath_of ?zp)" unfolding a(2) by (simp_all add: a(1) backup_suffix_def)
  obtain r0 w1 where o: "safeWriteZIPStreaming Z F now ?zp (db @ ''.sql'') w = (r0, w1)" by fastforce
  note O = keeps_open [OF o bs]
  show ?thesis
  proof (cases r0)
    case (Inl e)
    then show ?thesis using assms(1) o O by (auto simp: backup_db_def Let_def)
  next
    case (Inr hd)
    obtain e2 h2 w2 where d: "DumpDatabase X conn db m (entry_write Z F now hd) w1 = (e2, h2, w2)"
      by (cases "DumpDatabase X conn db m (entry_write Z F now hd) w1")
    have D: "keeps w1 w2" "writer_ok h2"
    proof -
      obtain e3 where "entry_write Z F now hd (stdout (process X (trace w1 @ [Exec (binPath conn ''mysqldump'') (dump_args conn db m) []])))
          (emit (Exec (binPath conn ''mysqldump'') (dump_args conn db m) []) w1) = (e3, h2, w2)"
        using d by (auto simp: DumpDatabase_simp Let_def split: prod.splits)
      from keeps_entry_write [OF this] have "keeps (emit (Exec (binPath conn ''mysqldump'') (dump_args conn db m) []) w1) w2"
        "writer_ok h2" using O Inr by blast+
      moreover have "keeps w1 (emit (Exec (binPath conn ''mysqldump'') (dump_args conn db m) []) w1)" by simp
      ultimately show "keeps w1 w2" "writer_ok h2" using O Inr keeps_trans by blast+
    qed
    then have w2: "keeps w w2" using O keeps_trans by blast
    define w3 where "w3 = log_msg INFO ''log.msg.dumped_db'' [db] w2"
    define ub where "ub = (case us db of None \<Rightarrow> [] | Some s \<Rightarrow> s)"
    obtain e4 h4 w4 where 4: "write_all Z F now (user_writes ub) h2 w3 = (e4, h4, w4)" by (cases "write_all Z F now (user_writes ub) h2 w3")
    have w4: "keeps w w4" "writer_ok h4"
      using keeps_write_all [OF 4 D(2)] w2 keeps_trans [of w w3 w4] by (auto simp: w3_def)
    obtain e5 h5 w5 where 5: "finish Z F now h4 w4 = (e5, h5, w5)" by (cases "finish Z F now h4 w4")
    have w5: "keeps w w5" "writer_ok h5" using keeps_finish [OF 5 w4(2)] w4 keeps_trans [of w w4 w5] by auto
    have C: "keeps w v \<Longrightarrow> writer_ok x \<Longrightarrow> keeps w (cancel Z F now x v)" for x v using keeps_cancel keeps_trans by blast
    have "backup_db X Z F now conn m dir today (hostnameForFile h) us db w =
      (case e2 of Some e \<Rightarrow> (Inl (Err ''err.dump_db'' [db] (Some e)), cancel Z F now h2 w2)
       | None \<Rightarrow> (case e4 of Some e \<Rightarrow> (Inl (Err ''err.zip_user_block'' [db] (Some (OSErr e))), cancel Z F now h4 w4)
         | None \<Rightarrow> (case e5 of Some e \<Rightarrow> (Inl (Err ''err.zip_db'' [db] (Some e)), cancel Z F now h5 w5)
            | None \<Rightarrow> (Inr ?zp, log_msg INFO ''log.msg.created_zip'' [zipName_of today (hostnameForFile h) db] w5))))"
      using o Inr d 4 5 by (simp add: backup_db_def Let_def w3_def [symmetric] ub_def [symmetric] split: option.split)
    then show ?thesis using assms(1) C [OF w2 D(2)] C [OF w4] C [OF w5] w5(1) by (auto split: option.splits)
  qed
qed

lemma keeps_backup_dbs:
  assumes "backup_dbs (backup_db X Z F now conn m dir today (hostnameForFile h) us) names acc w = (r, w')"
    and "is_clean dir" "date_ok today" "list_all db_name names"
  shows "keeps w w'"
  using assms(1,4)
proof (induction names arbitrary: acc w)
  case (Cons db names)
  obtain r1 w1 where 1: "backup_db X Z F now conn m dir today (hostnameForFile h) us db w = (r1, w1)"
    by (cases "backup_db X Z F now conn m dir today (hostnameForFile h) us db w")
  have "keeps w w1" using keeps_backup_db [OF 1 assms(2,3)] Cons.prems by simp
  then show ?case using Cons 1 by (cases r1) (auto intro: keeps_trans)
qed simp

lemma keeps_replace:
  assumes "Remove F (files w) z = Inr f" "Rename F f a b = Inr f'" "backup_suffix a" "backup_suffix z"
  shows "keeps w (w\<lparr>files := f'\<rparr>)"
  using keeps_trans [OF keeps_Remove [OF assms(4,1)] keeps_Rename [OF assms(3), of F "w\<lparr>files := f\<rparr>" b f']] assms(2) by simp

lemma keeps_recover_entry:
  assumes "HasSuffix name ''.sav''" "is_clean dir" "entry_name name" shows "keeps w (recover_entry F dir name w)"
proof -
  obtain n where n: "name = n @ ''.sav''" using assms(1) by (auto simp: HasSuffix_iff)
  with assms(2,3) obtain a where "Join dir name = a @ ''.sav''" using Join_suffix [of dir n "''.sav''"] by blast
  then have bs: "backup_suffix (Join dir name)" by (simp add: backup_suffix_def)
  have "entry_name (n @ ''.zip'')" using assms(3) n by (auto simp: entry_name_def)
  with assms(2) obtain z where "Join dir (n @ ''.zip'') = z @ ''.zip''" using Join_suffix [of dir n "''.zip''"] by blast
  then have bz: "backup_suffix (Join dir (TrimSuffix name ''.sav'' @ ''.zip''))" by (simp add: n backup_suffix_def)
  show ?thesis
    unfolding recover_entry_def Let_def
    by (auto simp: keeps_Rename [OF bs] keeps_replace [OF _ _ bs bz] keeps_Remove [OF bs] keeps_Remove [OF bz] split: sum.split oserr.split)
qed

lemma keeps_recover_loop:
  "is_clean dir \<Longrightarrow> \<forall>(n, _) \<in> set es. entry_name n \<Longrightarrow> keeps w (recover_loop F dir es w)"
proof (induction es arbitrary: w)
  case (Cons e es)
  obtain name n where e: "e = (name, n)" by (cases e)
  then have "keeps w (recover_entry F dir name w)" if "HasSuffix name ''.sav''"
    using keeps_recover_entry [OF that Cons.prems(1)] Cons.prems(2) by simp
  then show ?case using Cons e by (auto intro: keeps_trans)
qed simp

lemma keeps_recoverSavFiles: "is_clean dir \<Longrightarrow> keeps w (recoverSavFiles F dir w)"
proof (cases "ReadDir F (files w) dir")
  case (Inr es)
  assume "is_clean dir"
  moreover have "\<forall>(n, _) \<in> set es. entry_name n" using set_ReadDir [OF Inr] by (auto simp: entries_iff)
  ultimately show ?thesis using Inr keeps_recover_loop by (simp add: recoverSavFiles_def)
qed (simp add: recoverSavFiles_def)

lemma keeps_Run:
  assumes "Run X Z F ord now today cfg conn userSQL names m w = (r, w')"
    and "is_clean (BackupDir cfg)" "\<not> backup_suffix (BackupDir cfg)" "date_ok today" "list_all db_name names"
  shows "keeps w w' \<and> (fine w \<longrightarrow> (\<forall>created. r = Inr created \<longrightarrow> look w' (BackupDir cfg) = Some Directory))"
proof (cases "MkdirAll F (files w) (BackupDir cfg)")
  case (Inl e)
  with assms(1) show ?thesis by (auto simp: Run_def Let_def FromSlash_def)
next
  case (Inr f)
  define w0 where "w0 = w\<lparr>files := f\<rparr>"
  define w1 where "w1 = recoverSavFiles F (BackupDir cfg) w0"
  define w3 where "w3 = (let p = ParseUserSQL ord userSQL; w2 = log_warnings (warnings p) w1 in if userNames p \<noteq> []
      then log_msg INFO ''log.msg.users_found'' [Itoa (int (length (userNames p))), strings_Join (userNames p) '', ''] w2 else w2)"
  have w0: "keeps w w0" "look w0 (BackupDir cfg) = Some Directory"
    using keeps_MkdirAll [OF assms(3) Inr] Inr by (auto simp: w0_def MkdirAll_def split: option.splits node.splits if_splits)
  have "keeps w0 w1" unfolding w1_def by (rule keeps_recoverSavFiles [OF assms(2)])
  then have w3: "keeps w0 w3" by (simp add: w3_def Let_def log_warnings_def keeps_def fine_def)
  have "backup_dbs (backup_db X Z F now conn m (BackupDir cfg) today (hostnameForFile (HostnameForBackup cfg))
       (dbToSQL (ParseUserSQL ord userSQL))) names [] w3 = (r, w')"
    using Inr assms(1) unfolding w3_def w1_def w0_def Let_def by (simp add: Run_def Let_def FromSlash_def split del: if_split)
  from keeps_trans [OF w3 keeps_backup_dbs [OF this assms(2,4,5)]] have w': "keeps w0 w'" .
  then show ?thesis using keeps_trans [OF w0(1) w'] w0 by (auto simp: keeps_def)
qed

lemma keeps_delete_loop: "list_all (\<lambda>g. backup_suffix (Path g)) fls \<Longrightarrow> keeps w (delete_loop i F ws fls w)"
proof (induction fls arbitrary: w)
  case (Cons g fls)
  have step: "keeps w (delete_loop i F ws fls (log_msg l k x v))" if "keeps w v" for v l k x
    using keeps_trans [OF _ Cons.IH, of w "log_msg l k x v"] that Cons.prems by simp
  show ?case
  proof (cases "Remove F (files w) (Path g)")
    case (Inl e)
    then show ?thesis using Cons step [OF keeps_refl] by simp
  next
    case (Inr f)
    then show ?thesis using Cons step [OF keeps_Remove [OF _ Inr]] by simp
  qed
qed simp

lemma keeps_Apply:
  assumes "slice_sort s" "is_clean dir" shows "keeps w (snd (Apply i s F today dir rd rw rm ry w))"
proof (cases "ListBackups s F (files w) dir")
  case (Inr fls)
  have "backup_suffix (Path g)" if g: "g \<in> set fls" for g
  proof -
    from Inr g obtain es where es: "ReadDir F (files w) dir = Inr es" "g \<in> set (list_loop F (files w) dir es)"
      by (cases rule: slice_sort.ListBackups_cases [OF assms(1)]) auto
    then obtain name c m t where n: "(name, File c m) \<in> set es" "backup_name_date name = Some t" "Path g = Join dir name"
      by (auto simp: set_list_loop)
    then obtain u where u: "name = u @ ''.zip''" unfolding backup_name_date_iff by (metis append_assoc)
    have "entry_name name" using n(1) set_ReadDir [OF es(1)] by (auto simp: entries_iff)
    then obtain a where "Path g = a @ ''.zip''" using Join_suffix [OF assms(2), of u "''.zip''"] u n(3) by metis
    then show ?thesis by (simp add: backup_suffix_def)
  qed
  then show ?thesis using Inr by (simp add: Apply_def keeps_delete_loop list_all_iff)
qed (simp add: Apply_def)

lemma keeps_ApplyToDirs:
  assumes "slice_sort s" "is_clean d1" "is_clean d2"
  shows "keeps w (snd (ApplyToDirs i s F today d1 d2 rd rw rm ry w))"
proof -
  obtain e1 w1 where 1: "Apply i s F today d1 rd rw rm ry w = (e1, w1)" by fastforce
  obtain e2 w2 where 2: "Apply i s F today d2 rd rw rm ry w1 = (e2, w2)" by fastforce
  have "keeps w w1" "keeps w1 w2" using keeps_Apply [OF assms(1,2), of w] keeps_Apply [OF assms(1,3), of w1] 1 2 by (metis snd_conv)+
  then show ?thesis using keeps_trans [of w w1 w2] by (simp add: ApplyToDirs_def 1 2 split: option.split)
qed

lemma keeps_apply_retention:
  assumes "slice_sort (r_sort N)" "is_clean (BackupDir cfg)" "is_clean (RemoteBackupDir cfg)"
  shows "keeps w (apply_retention N cfg w)"
proof -
  obtain e w1 where 1: "ApplyToDirs (r_i18n N) (r_sort N) (r_faults N) (r_today N (trace w)) (BackupDir cfg) (RemoteBackupDir cfg)
      (RetainDaily cfg) (RetainWeekly cfg) (RetainMonthly cfg) (RetainYearly cfg) w = (e, w1)" by fastforce
  then have "keeps w w1" using keeps_ApplyToDirs [OF assms, of w] by (metis snd_conv)
  then show ?thesis by (simp add: apply_retention_def 1 split: option.split)
qed

end
