(* ===== verification/Run_Secured.thy ===== *)
theory Run_Secured
  imports Run_Backup
begin

text \<open>
  What a whole run of \<open>internal/run/run.go\<close> achieves: how it ends, that a run that reports
  success has secured every database here and on the other host, that a run that fails has
  reported the error, that it keeps the file system well formed, and that it ends.
\<close>

subsection \<open>The whole run\<close>

lemma upload_loop_files:
  "files (snd (upload_loop E F d enc pw rs ls w)) = files w \<and> trace (snd (upload_loop E F d enc pw rs ls w)) = trace w"
proof (induction ls arbitrary: w)
  case (Cons loc ls)
  obtain e r where "uploadFile E F (files w) (lPath loc) (d @ [slash] @ Name loc) enc pw (rfiles w) = (e, r)" by fastforce
  then show ?case using Cons by (cases e) simp_all
qed simp

lemma remove_loop_files: "files (remove_loop E d ls rs w) = files w \<and> trace (remove_loop E d ls rs w) = trace w"
proof (induction rs arbitrary: w)
  case (Cons rem rs)
  obtain b r where "sftp_Remove E (rfiles w) (d @ [slash] @ rName rem) = (b, r)" by fastforce
  then show ?case using Cons by (cases b) simp_all
qed simp

text \<open>\<open>Sync\<close> changes no local file, whatever happens.\<close>

lemma Sync_files:
  fixes w :: "'a rworld_scheme"
  shows "files (snd (Sync E F cfg dir w)) = files w" "trace (snd (Sync E F cfg dir w)) = trace w"
proof -
  have up: "files (snd (case upload_loop E F d enc pw rs ls v of (Some e, v1) \<Rightarrow> (Some e, v1) | (None, v1) \<Rightarrow> (None, remove_loop E d ls rs v1)))
      = files v \<and> trace (snd (case upload_loop E F d enc pw rs ls v of (Some e, v1) \<Rightarrow> (Some e, v1) | (None, v1) \<Rightarrow> (None, remove_loop E d ls rs v1)))
      = trace v" for d enc pw rs ls and v :: "'a rworld_scheme"
    using upload_loop_files [of E F d enc pw rs ls v] by (auto simp: remove_loop_files split: prod.split option.split)
  obtain ok r where 1: "sftp_MkdirAll E (rfiles w) (ToSlash (RemoteBackupDir cfg)) = (ok, r)" by fastforce
  show "files (snd (Sync E F cfg dir w)) = files w" "trace (snd (Sync E F cfg dir w)) = trace w"
    unfolding Sync_def Let_def 1 prod.case by (simp_all add: up split: sum.split option.split)
qed

text \<open>
  The names a server gives for its databases: each once, with no slash and no line end.
\<close>

definition sane_server :: "extenv \<Rightarrow> bool" where
  "sane_server X \<longleftrightarrow> (\<forall>c tr ls.
     ScanLines MaxScanTokenSize (combined (process X (tr @ [Exec (binPath c ''mysql'') (baseArgs c @ [''-e'', ''SHOW DATABASES'']) []])))
       = (ls, False) \<longrightarrow> distinct (db_lines ls) \<and> list_all (\<lambda>db. db_name db \<and> NL \<notin> set db) (db_lines ls))"

lemma ListDatabases_sane:
  "sane_server X \<Longrightarrow> ListDatabases X c w = (Inr names, w') \<Longrightarrow> distinct names \<and> list_all (\<lambda>db. db_name db \<and> NL \<notin> set db) names"
  by (auto simp: ListDatabases_def run_cmd_def Let_def sane_server_def split: if_splits prod.splits)

lemma query_server_sane:
  assumes "sane_server (r_ext N)" "query_server N cfg c w = (Inr (m, names), w')"
  shows "distinct names" "list_all db_name names" "list_all (\<lambda>db. NL \<notin> set db) names"
proof -
  obtain v where "ListDatabases (r_ext N) c v = (Inr names, w')"
    using assms(2) by (auto simp: query_server_def give_up_def split: prod.splits sum.splits)
  from ListDatabases_sane [OF assms(1) this] show "distinct names" "list_all db_name names" "list_all (\<lambda>db. NL \<notin> set db) names"
    by (auto simp: list_all_iff)
qed

text \<open>How a run ends.\<close>

lemma run_Backup_cases:
  fixes w :: "'a rworld_scheme"
  assumes "run_Backup N cfg w = Some (r, w')"
  obtains
    (early) e where "r = Some e" "same w w'"
  | (no_databases) v :: "'a rworld_scheme" and v' m where "r = None" "same w w'" "same w v"
      "query_server N cfg (conn_of cfg) v = (Inr (m, []), v')" "same v' w'"
  | (backup) b and v :: "'a rworld_scheme" and names m w3 e w4 where "same w v" "query_server N cfg (conn_of cfg) v = (Inr (m, names), w3)"
      "same w w3" "backup_all N cfg (conn_of cfg) m names w3 = (e, w4)" "r = e" "w' = (if e = None then stop_mysql N cfg b w4 else w4)"
proof -
  obtain e1 w1 where 1: "check_disk N cfg w = (e1, w1)" by fastforce
  have w1: "same w w1" using same_check_disk [of w N cfg] 1 by simp
  show thesis
  proof (cases e1)
    case (Some e)
    then show thesis using early assms 1 w1 by (auto simp: run_Backup_def)
  next
    case e1: None
    then obtain r2 w2 where 2: "ensure_mysql N cfg (conn_of cfg) w1 = Some (r2, w2)"
      using assms 1 by (cases "ensure_mysql N cfg (conn_of cfg) w1") (auto simp: run_Backup_def)
    have w2: "same w w2" using same_trans [OF w1] same_ensure_mysql [OF 2] by simp
    show thesis
    proof (cases r2)
      case (Inl e)
      then show thesis using early assms 1 e1 2 w2 by (auto simp: run_Backup_def)
    next
      case (Inr b)
      obtain r3 w3 where 3: "query_server N cfg (conn_of cfg) w2 = (r3, w3)" by fastforce
      have w3: "same w w3" using same_trans [OF w2] same_query_server [of w2 N cfg "conn_of cfg"] 3 by simp
      show thesis
      proof (cases r3)
        case Inl
        then show thesis using early assms 1 e1 2 Inr 3 w3 by (auto simp: run_Backup_def)
      next
        case r3: (Inr q)
        obtain m names where q: "q = (m, names)" by fastforce
        have v: "query_server N cfg (conn_of cfg) w2 = (Inr (m, names), w3)" using 3 r3 q by simp
        show thesis
        proof (cases "names = []")
          case True
          then show thesis using no_databases [of w2 m w3] assms 1 e1 2 Inr 3 w2 w3 r3 q v by (auto simp: run_Backup_def)
        next
          case False
          obtain e4 w4 where 4: "backup_all N cfg (conn_of cfg) m names w3 = (e4, w4)" by fastforce
          then show thesis using backup [OF w2 v w3 4] assms 1 e1 2 Inr 3 r3 q False
            by (cases e4) (auto simp: run_Backup_def)
        qed
      qed
    qed
  qed
qed

lemma backup_all_cases:
  assumes "backup_all N cfg conn m names w = (e, w')"
  obtains
    (failed) u w1 e2 w2 where "export_users N conn m w = (u, w1)"
      "Run (r_ext N) (r_zip N) (r_faults N) (r_order N) (r_now N (trace w1)) (r_today N (trace w1)) cfg conn u names m w1 = (Inl e2, w2)"
      "e \<noteq> None" "same w2 w'"
  | (made) u w1 created w2 e3 w3 where "export_users N conn m w = (u, w1)"
      "Run (r_ext N) (r_zip N) (r_faults N) (r_order N) (r_now N (trace w1)) (r_today N (trace w1)) cfg conn u names m w1 = (Inr created, w2)"
      "Sync (r_ssh N) (r_faults N) cfg (BackupDir cfg) (apply_retention N cfg w2) = (e3, w3)" "e = None \<longleftrightarrow> e3 = None"
      "if e = None then w' = w3 else same w3 w'"
proof -
  obtain u w1 where 1: "export_users N conn m w = (u, w1)" by fastforce
  obtain r2 w2 where 2: "Run (r_ext N) (r_zip N) (r_faults N) (r_order N) (r_now N (trace w1)) (r_today N (trace w1)) cfg conn u names m w1 = (r2, w2)"
    by fastforce
  show thesis
  proof (cases r2)
    case (Inl e2)
    have "same w2 (snd (give_up N cfg s d x w2))" for s d x by (intro samei) simp
    then show thesis using failed [OF 1 2 [unfolded Inl]] assms 1 2 Inl by (auto simp: backup_all_def give_up_def)
  next
    case (Inr created)
    obtain e3 w3 where 3: "Sync (r_ssh N) (r_faults N) cfg (BackupDir cfg) (apply_retention N cfg w2) = (e3, w3)" by fastforce
    have "same w3 (snd (give_up N cfg s d x w3))" for s d x by (intro samei) simp
    then show thesis using made [OF 1 2 [unfolded Inr] 3] assms 1 2 3 Inr by (cases e3) (auto simp: backup_all_def give_up_def)
  qed
qed

text \<open>What a run needs to know of its configuration and its surroundings.\<close>

definition run_ok :: "runenv \<Rightarrow> Config \<Rightarrow> bool" where
  "run_ok N cfg \<longleftrightarrow> is_clean (BackupDir cfg) \<and> is_clean (RemoteBackupDir cfg) \<and> \<not> backup_suffix (BackupDir cfg)
     \<and> slice_sort (r_sort N) \<and> sane_server (r_ext N) \<and> (\<forall>tr. date_ok (r_today N tr))"

lemma keeps_files: "keeps w v \<Longrightarrow> files w' = files v \<Longrightarrow> fine w \<Longrightarrow>
   fine w' \<and> (\<forall>d. look w d = Some Directory \<longrightarrow> look w' d = Some Directory)"
  by (simp add: keeps_def fine_def)

lemma same_files: "same w w' \<Longrightarrow> files w' = files w"
  by (simp add: same_def)

lemma run_Backup_keeps:
  assumes "run_Backup N cfg w = Some (r, w')" "run_ok N cfg" "fine w"
  shows "fine w' \<and> (\<forall>d. look w d = Some Directory \<longrightarrow> look w' d = Some Directory)"
  using assms(1)
proof (cases rule: run_Backup_cases)
  case (backup b v names m w3 e w4)
  have ok: "is_clean (BackupDir cfg)" "\<not> backup_suffix (BackupDir cfg)" "date_ok (r_today N tr)" "list_all db_name names"
      "slice_sort (r_sort N)" "is_clean (RemoteBackupDir cfg)" for tr
    using assms(2) query_server_sane [OF _ backup(2)] by (auto simp: run_ok_def)
  have s: "files w' = files w4" using same_files [OF same_stop_mysql] backup(6) by auto
  from backup(4) show ?thesis
  proof (cases rule: backup_all_cases)
    case (failed u w1 e2 w2)
    have "same w w1" using same_trans [OF backup(3)] same_export_users [OF same_refl, of w3 N "conn_of cfg" m] failed(1) by simp
    then have "keeps w w2" using keeps_trans [OF same_keeps] keeps_Run [OF failed(2) ok(1-4)] by blast
    then show ?thesis using keeps_files [of w w2 w'] same_files [OF failed(4)] s assms(3) by simp
  next
    case (made u w1 created w2 e3 w5)
    have "same w w1" using same_trans [OF backup(3)] same_export_users [OF same_refl, of w3 N "conn_of cfg" m] made(1) by simp
    then have "keeps w w2" using keeps_trans [OF same_keeps] keeps_Run [OF made(2) ok(1-4)] by blast
    then have "keeps w (apply_retention N cfg w2)" using keeps_trans keeps_apply_retention [OF ok(5,1,6)] by blast
    moreover have "files w5 = files (apply_retention N cfg w2)"
      using Sync_files [of "r_ssh N" "r_faults N" cfg "BackupDir cfg" "apply_retention N cfg w2"] made(3) by simp
    moreover have "files w4 = files w5" using made(5) by (auto simp: same_files split: if_splits)
    ultimately show ?thesis using keeps_files [of w _ w'] s assms(3) by simp
  qed
qed (use assms(3) in \<open>auto simp: same_def fine_def\<close>)

lemma retention_keeps_today:
  fixes w :: "'a sysworld_scheme"
  assumes "run_ok N cfg" "r_today N (trace w) = today" "0 \<le> RetainDaily cfg" "db_name db"
    and "n = zipName_of today (hostnameForFile h) db"
  shows "look (apply_retention N cfg w) (Join (BackupDir cfg) n) = look w (Join (BackupDir cfg) n)"
proof -
  let ?p = "Join (BackupDir cfg) n"
  have ok: "is_clean (BackupDir cfg)" "is_clean (RemoteBackupDir cfg)" "slice_sort (r_sort N)" "date_ok today"
    using assms(1,2) by (auto simp: run_ok_def)
  have n: "entry_name n" "backup_name_date n = Some today"
    using zipName_entry [OF ok(4) assms(4)] zipName_date [OF ok(4)] assms(5) by simp_all
  have A: "look w2 ?p = look w1 ?p" if "Apply (r_i18n N) (r_sort N) (r_faults N) today dir rd rw rm ry w1 = (e, w2)" "is_clean dir" "0 \<le> rd"
    for dir rd rw rm ry e and w1 w2 :: "'a sysworld_scheme"
  proof (rule ccontr)
    assume "look w2 ?p \<noteq> look w1 ?p"
    from slice_sort.Apply_changes [OF ok(3) that(1) this] obtain name c m t where
      x: "(name, File c m) \<in> set (entries (files w1) dir)" "?p = Join dir name" "backup_name_date name = Some t"
        "\<not> keep (retention_windows today rd rw rm ry) t" by blast
    have "entry_name name" using x(1) by (auto simp: entries_iff)
    then have "name = n" using x(2) Base_Join [OF that(2)] Base_Join [OF ok(1) n(1)] by metis
    then show False using x(3,4) n(2) keep_daily [of today today rd] that(3) ok(4) by (simp add: date_ok_def)
  qed
  obtain e1 w1 where 1: "Apply (r_i18n N) (r_sort N) (r_faults N) today (BackupDir cfg) (RetainDaily cfg) (RetainWeekly cfg)
      (RetainMonthly cfg) (RetainYearly cfg) w = (e1, w1)" by fastforce
  obtain e2 w2 where 2: "Apply (r_i18n N) (r_sort N) (r_faults N) today (RemoteBackupDir cfg) (RetainDaily cfg) (RetainWeekly cfg)
      (RetainMonthly cfg) (RetainYearly cfg) w1 = (e2, w2)" by fastforce
  show ?thesis using A [OF 1 ok(1) assms(3)] A [OF 2 ok(2) assms(3)]
    by (auto simp: apply_retention_def ApplyToDirs_def assms(2) 1 2 split: option.split)
qed

lemma listed_backup:
  assumes "listLocalBackups F f dir = Inr ls" "map_of f dir = Some Directory" "map_of f (Join dir n) = Some (File c t)"
    and "is_clean dir" "entry_name n" "is_backup_zip n" "\<not> F f (OpStat (Join dir n))"
  shows "localListByName ls n = Some \<lparr>Name = n, lModTime = t, lSize = int (length c), lPath = Join dir n\<rparr>"
proof -
  let ?l = "\<lparr>Name = n, lModTime = t, lSize = int (length c), lPath = Join dir n\<rparr>"
  obtain es where es: "ReadDir F f dir = Inr es"
    using assms(1,2) by (cases "F f (OpReadDir dir)") (auto simp: listLocalBackups_def Let_def FromSlash_def ReadDir_def)
  have "(n, File c t) \<in> set es"
    using set_ReadDir [OF es] assms(3-5) Base_Join [OF assms(4,5)] by (auto simp: entries_iff dest!: map_of_SomeD)
  moreover have "(n, File c t) \<in> set es \<Longrightarrow> ?l \<in> set (local_loop F f dir es)" for es
    using assms(3,6,7) by (induction es) (auto simp: Stat_def split: sum.splits node.splits)
  moreover have "ls = local_loop F f dir es" using assms(1) es by (simp add: listLocalBackups_def Let_def FromSlash_def)
  ultimately show ?thesis using localListByName_in [OF assms(1), of ?l] by simp
qed

text \<open>The name of a new backup is one that \<open>Sync\<close> copies.\<close>

lemma zipName_backup_zip:
  assumes "date_ok today" "NL \<notin> set db"
  shows "is_backup_zip (zipName_of today (hostnameForFile h) db)"
proof -
  have "NL \<notin> set (hostnameForFile h)" using hostnameForFile_chars [of h] by (auto simp: list_all_iff host_char_def in_range_def)
  then have "NL \<notin> set (hostnameForFile h @ ''_'' @ db)" using assms(2) by simp
  moreover have "length (Format today) = 8" "list_all is_digit (Format today)"
    using assms(1) Format_digits by (simp_all add: date_ok_def)
  ultimately show ?thesis using backup_zip_name [of "Format today" "hostnameForFile h @ ''_'' @ db"] by (simp add: zipName_of_def)
qed

text \<open>
  A backup that a run has made is on this machine, complete, and on the other host.
\<close>

definition secured ::
  "runenv \<Rightarrow> Config \<Rightarrow> date \<Rightarrow> int \<Rightarrow> bool \<Rightarrow> (string \<rightharpoonup> string) \<Rightarrow> event list \<Rightarrow> 'a rworld_scheme \<Rightarrow> string \<Rightarrow> bool"
where
  "secured N cfg today t m us evs w db \<longleftrightarrow>
     (let n = zipName_of today (hostnameForFile (HostnameForBackup cfg)) db;
          pw = TrimSpace (RemoteAESPassword cfg)
      in backed_up (r_ext N) (r_zip N) evs (trace w) t (conn_of cfg) m us db (look w (Join (BackupDir cfg) n))
         \<and> (RemoteBackupDir cfg \<noteq> [] \<and> RemoteSSHHost cfg \<noteq> [] \<longrightarrow>
             (\<exists>c. look w (Join (BackupDir cfg) n) = Some (File c t)
                \<and> holds_copy (r_ssh N) (pw \<noteq> []) pw c (map_of (rfiles w) (rpath (RemoteBackupDir cfg) n)))))"

text \<open>The SQL of the users per database, as a run asks the server for it.\<close>

definition user_sql :: "runenv \<Rightarrow> Config \<Rightarrow> bool \<Rightarrow> 'a sysworld_scheme \<Rightarrow> (string \<rightharpoonup> string)" where
  "user_sql N cfg m v = dbToSQL (ParseUserSQL (r_order N) (fst (export_users N (conn_of cfg) m v)))"

lemma run_Backup_secured:
  fixes w :: "'a rworld_scheme"
  assumes "run_Backup N cfg w = Some (None, w')" "run_ok N cfg" "fine w" "cleanup_ok (r_faults N)" "sftp_server (r_ssh N)"
    and "\<forall>tr. r_today N tr = today" "0 \<le> RetainDaily cfg"
    and "\<forall>tr q c s. map_of (rfiles w) q = Some (File c s) \<longrightarrow> s < r_now N tr"
  shows "\<exists>(v :: 'a rworld_scheme) v' m names t. extends (trace w) (trace v) \<and> query_server N cfg (conn_of cfg) v = (Inr (m, names), v')
     \<and> extends (trace v') (trace w') \<and> list_all (secured N cfg today t m (user_sql N cfg m v') (trace v') w') names"
  using assms(1)
proof (cases rule: run_Backup_cases)
  case (no_databases v v' m)
  then show ?thesis by (intro exI [of _ v] exI [of _ v'] exI [of _ m] exI [of _ "[]"]) (simp add: same_def)
next
  case (backup b v names m w3 e w4)
  have e: "e = None" using backup(5) by simp
  have D: "distinct names" "list_all db_name names" "list_all (\<lambda>db. NL \<notin> set db) names"
    using query_server_sane [OF _ backup(2)] assms(2) by (auto simp: run_ok_def)
  have ok: "is_clean (BackupDir cfg)" "\<not> backup_suffix (BackupDir cfg)" "date_ok today"
      "slice_sort (r_sort N)" "is_clean (RemoteBackupDir cfg)"
    using assms(2,6) by (auto simp: run_ok_def)
  have "same w4 w'" using same_stop_mysql backup(6) e by simp
  then have w': "files w' = files w4" "rfiles w' = rfiles w4" "extends (trace w4) (trace w')" by (simp_all add: same_def)
  from backup(4) show ?thesis
  proof (cases rule: backup_all_cases)
    case (made u w1 created w2 e3 w5)
    have w31: "same w3 w1" using same_export_users [OF same_refl, of w3 N "conn_of cfg" m] made(1) by simp
    have w1: "same w w1" using same_trans [OF backup(3) w31] .
    have w5: "e3 = None" "w4 = w5" using made(4,5) e by auto
    note R = made(2) [unfolded assms(6) [rule_format]]
    have us: "dbToSQL (ParseUserSQL (r_order N) u) = user_sql N cfg m w3" using made(1) by (simp add: user_sql_def)
    let ?t = "r_now N (trace w1)" and ?us = "user_sql N cfg m w3"
    let ?w7 = "apply_retention N cfg w2"
    have K: "keeps w1 w2" "look w2 (BackupDir cfg) = Some Directory"
      using keeps_Run [OF R ok(1-3) D(2)] w1 assms(3) by (auto simp: same_def fine_def)
    have K7: "keeps w2 ?w7" by (rule keeps_apply_retention [OF ok(4,1,5)])
    have f2: "fine w2" using K(1) w1 assms(3) by (auto simp: keeps_def same_def fine_def)
    have d7: "look ?w7 (BackupDir cfg) = Some Directory" using K7 K(2) f2 by (simp add: keeps_def)
    have r7: "rfiles ?w7 = rfiles w" using K7 K(1) w1 by (simp add: keeps_def same_def)
    have f7: "files w' = files ?w7"
      using Sync_files [of "r_ssh N" "r_faults N" cfg "BackupDir cfg" ?w7] made(3) w5 w' by simp
    have ext: "extends (trace w3) (trace w1)" "extends (trace w1) (trace w2)" "extends (trace w2) (trace w')"
      using w31 K(1) K7 Sync_files(2) [of "r_ssh N" "r_faults N" cfg "BackupDir cfg" ?w7] made(3) w5 w'(3)
      by (auto simp: same_def keeps_def intro: extends_trans)
    have B: "backed_up (r_ext N) (r_zip N) (trace w3) (trace w') ?t (conn_of cfg) m ?us db
        (look w2 (Join (BackupDir cfg) (zipName_of today (hostnameForFile (HostnameForBackup cfg)) db)))" if "db \<in> set names" for db
      using Run_success [OF R ok(1) _ ok(2) assms(4) ok(3) D(1,2)] w1 assms(3) that backed_up_later [OF _ ext(1,3)]
      unfolding us by (auto simp: same_def fine_def)
    have "secured N cfg today ?t m ?us (trace w3) w' db" if db: "db \<in> set names" for db
    proof -
      define n where "n = zipName_of today (hostnameForFile (HostnameForBackup cfg)) db"
      define pw where "pw = TrimSpace (RemoteAESPassword cfg)"
      have nm: "db_name db" "NL \<notin> set db" using D(2,3) db by (auto simp: list_all_iff)
      have lk: "look w' (Join (BackupDir cfg) n) = look w2 (Join (BackupDir cfg) n)"
        using retention_keeps_today [OF assms(2) _ assms(7) nm(1) n_def, of w2] assms(6) f7 by simp
      have bu: "backed_up (r_ext N) (r_zip N) (trace w3) (trace w') ?t (conn_of cfg) m ?us db (look w' (Join (BackupDir cfg) n))"
        using B [OF db] lk by (simp add: n_def)
      then obtain c where c: "look w' (Join (BackupDir cfg) n) = Some (File c ?t)" by (auto simp: backed_up_def)
      have "holds_copy (r_ssh N) (pw \<noteq> []) pw c (map_of (rfiles w') (rpath (RemoteBackupDir cfg) n))"
        if remote: "RemoteBackupDir cfg \<noteq> []" "RemoteSSHHost cfg \<noteq> []"
      proof -
        have S: "Sync (r_ssh N) (r_faults N) cfg (BackupDir cfg) ?w7 = (None, w4)" using made(3) w5 by simp
        obtain ls where ls: "listLocalBackups (r_faults N) (files ?w7) (BackupDir cfg) = Inr ls"
          using sftp_server.Sync_cases [OF assms(5) S remote] by metis
        have n: "entry_name n" "is_backup_zip n"
          using zipName_entry [OF ok(3) nm(1)] zipName_backup_zip [OF ok(3) nm(2)] by (simp_all add: n_def)
        define loc where "loc = \<lparr>Name = n, lModTime = ?t, lSize = int (length c), lPath = Join (BackupDir cfg) n\<rparr>"
        have c7: "look ?w7 (Join (BackupDir cfg) n) = Some (File c ?t)" using c f7 by simp
        have loc: "localListByName ls n = Some loc" unfolding loc_def
          using listed_backup [OF ls d7 c7 ok(1) n] assms(4) by (simp add: cleanup_ok_def)
        have "need_upload (pw \<noteq> []) (entry_of n (map_of (rfiles ?w7) (rpath (RemoteBackupDir cfg) n))) loc"
          using assms(8) r7 by (auto simp: need_upload_def entry_of_def loc_def split: option.splits node.splits)
        then obtain c' where "ReadFile (r_faults N) (files ?w7) (lPath loc) = Inr c'"
            "holds_copy (r_ssh N) (pw \<noteq> []) pw c' (map_of (rfiles w4) (rpath (RemoteBackupDir cfg) n))"
          using sftp_server.Sync_result [OF assms(5) S remote ls n(2,1) refl refl refl] loc by (auto simp: pw_def)
        moreover from this have "c' = c" using c7 by (auto simp: ReadFile_def loc_def split: if_splits)
        ultimately show ?thesis using w'(2) by simp
      qed
      then show ?thesis unfolding secured_def Let_def n_def [symmetric] pw_def [symmetric] using bu c by blast
    qed
    then have "list_all (secured N cfg today ?t m ?us (trace w3) w') names" by (simp add: list_all_iff)
    moreover have "extends (trace w) (trace v)" "extends (trace w3) (trace w')"
      using backup(1) ext extends_trans by (auto simp: same_def)
    ultimately show ?thesis using backup(2) by blast
  qed (use e in simp)
qed simp

subsection \<open>Errors are reported\<close>

text \<open>
  The detail of a mail about an error: the text of the error or of the error it wraps; a server
  that does not come up has a text of its own.
\<close>

definition reports :: "runenv \<Rightarrow> goerr \<Rightarrow> string \<Rightarrow> bool" where
  "reports N e detail \<longleftrightarrow> detail = r_errtext N e \<or> (\<exists>k e0. e = Err k [] (Some e0) \<and> detail = r_errtext N e0)
     \<or> (e = Err ''err.mysql_timeout'' [] None \<and> detail = T (r_i18n N) ''email.body.mysql_timeout'')"

definition mailed :: "runenv \<Rightarrow> Config \<Rightarrow> goerr \<Rightarrow> 'a sysworld_scheme \<Rightarrow> bool" where
  "mailed N cfg e w' \<longleftrightarrow> (\<exists>key detail v. reports N e detail \<and> w' = sendErrorEmail N cfg (T (r_i18n N) key) detail [] v)"

lemma mailed_give_up: "give_up N cfg s d e0 v = (e, w') \<Longrightarrow> reports N e0 d \<Longrightarrow> mailed N cfg e w'"
  by (auto simp: give_up_def mailed_def)

lemma check_disk_mailed: "check_disk N cfg w = (Some e, w') \<Longrightarrow> mailed N cfg e w'"
  by (auto simp: check_disk_def Let_def reports_def give_up_def mailed_def split: option.splits if_splits)

lemma query_server_mailed: "query_server N cfg conn w = (Inl e, w') \<Longrightarrow> mailed N cfg e w'"
  by (auto simp: query_server_def reports_def give_up_def mailed_def split: prod.splits sum.splits)

lemma backup_all_mailed:
  assumes "backup_all N cfg conn m names w = (Some e, w')" shows "mailed N cfg e w'"
proof -
  obtain u w1 where 1: "export_users N conn m w = (u, w1)" by fastforce
  obtain r2 w2 where 2: "Run (r_ext N) (r_zip N) (r_faults N) (r_order N) (r_now N (trace w1)) (r_today N (trace w1)) cfg conn u names m w1 = (r2, w2)"
    by fastforce
  obtain e3 w3 where 3: "Sync (r_ssh N) (r_faults N) cfg (BackupDir cfg) (apply_retention N cfg w2) = (e3, w3)" by fastforce
  show ?thesis using assms 1 2 3
    by (auto simp: backup_all_def reports_def give_up_def mailed_def split: sum.splits option.splits)
qed

lemma ensure_mysql_mailed:
  assumes "ensure_mysql N cfg conn w = Some (Inl e, w')" shows "mailed N cfg e w'"
proof -
  obtain e1 w1 where 1: "Reachable (r_ext N) conn w = (e1, w1)" by fastforce
  obtain b w2 where 2: "portReachable (r_ext N) (Host conn) (Port conn) w1 = (b, w2)" by fastforce
  obtain e3 w3 where 3: "runMySQLLifecycleCmd (r_ext N) (MySQLStartCmd cfg) False
      (log_msg INFO ''log.msg.mysql_starting'' [MySQLStartCmd cfg] w2) = (e3, w3)" by fastforce
  show ?thesis using assms
    by (auto simp: ensure_mysql_def 1 2 3 reports_def give_up_def mailed_def split: if_splits option.splits bool.splits prod.splits)
qed

lemma run_Backup_mailed:
  assumes "run_Backup N cfg w = Some (Some e, w')" shows "mailed N cfg e w'"
proof -
  obtain e1 w1 where 1: "check_disk N cfg w = (e1, w1)" by fastforce
  show ?thesis
  proof (cases e1)
    case (Some x)
    then show ?thesis using assms 1 check_disk_mailed [of N cfg w] by (simp add: run_Backup_def)
  next
    case e1: None
    then obtain r2 w2 where 2: "ensure_mysql N cfg (conn_of cfg) w1 = Some (r2, w2)"
      using assms 1 by (cases "ensure_mysql N cfg (conn_of cfg) w1") (auto simp: run_Backup_def)
    obtain r3 w3 where 3: "query_server N cfg (conn_of cfg) w2 = (r3, w3)" by fastforce
    show ?thesis using assms 1 e1 2 3 ensure_mysql_mailed [of N cfg "conn_of cfg" w1] query_server_mailed [of N cfg "conn_of cfg" w2]
        backup_all_mailed [of N cfg "conn_of cfg" _ _ w3]
      by (auto simp: run_Backup_def split: sum.splits if_splits prod.splits option.splits)
  qed
qed

lemma sendErrorEmail_result:
  assumes "AdminEmail cfg \<noteq> []" "AdminSMTPServer cfg \<noteq> []" "w' = sendErrorEmail N cfg subject detail [] v"
  shows "(\<exists>x. (WARN, ''log.warn.email'', x) \<in> set (logs w')) \<or>
    (\<exists>es. trace w' = trace v @ es \<and> handed_over cfg (mail_text cfg subject (FormatErrorBody subject detail [])) es)"
proof -
  obtain e w1 where 1: "Send (r_ext N) cfg subject (FormatErrorBody subject detail []) v = (e, w1)" by fastforce
  show ?thesis
  proof (cases e)
    case None
    then have "w' = w1" using 1 assms(3) by (simp add: sendErrorEmail_def Let_def)
    then show ?thesis using Send_handed_over [OF 1 [unfolded None] assms(1,2)] by simp
  next
    case (Some x)
    then have "w' = log_msg WARN ''log.warn.email'' [r_errtext N x] w1" using 1 assms(3) by (simp add: sendErrorEmail_def Let_def)
    then show ?thesis by auto
  qed
qed

lemma ensure_mysql_ends:
  assumes "moving_clock (r_ext N)" shows "\<exists>r. ensure_mysql N cfg conn w = Some r"
proof -
  have "\<exists>b v'. waitForMySQL (r_ext N) conn (60 * Second) (2 * Second) v = Some (b, v')" for v :: "'a sysworld_scheme"
    using moving_clock.poll_mysql_ends [OF assms, of "2 * Second" conn] unfolding waitForMySQL_def Second_def by fastforce
  then show ?thesis unfolding ensure_mysql_def
    by (auto split: prod.splits option.splits bool.splits) (metis option.distinct(1))+
qed

subsection \<open>Properties\<close>

text \<open>
  C3. A run that reports success has asked the server for its databases and has secured every
  one of them: after retention and synchronisation, the zip file of the day is in the backup
  directory with the complete output of a \<open>mysqldump\<close> that ran in between, and the SQL of the
  users of the database as the server gave it; and, where another host is configured, that host holds a copy, in
  plain or encrypted. (The run does not go past midnight, the files of the other host are older
  than the run, and checking for, moving and removing local files works.)
\<close>

theorem run_Backup_secures:
  fixes w :: "'a rworld_scheme"
  assumes "run_Backup N cfg w = Some (None, w')" "run_ok N cfg" "fine w" "cleanup_ok (r_faults N)" "sftp_server (r_ssh N)"
    and "\<forall>tr. r_today N tr = today" "0 \<le> RetainDaily cfg"
    and "\<forall>tr q c s. map_of (rfiles w) q = Some (File c s) \<longrightarrow> s < r_now N tr"
  shows "\<exists>(v :: 'a rworld_scheme) v' m names t. extends (trace w) (trace v) \<and> query_server N cfg (conn_of cfg) v = (Inr (m, names), v')
     \<and> extends (trace v') (trace w') \<and> list_all (secured N cfg today t m (user_sql N cfg m v') (trace v') w') names"
  using assms by (rule run_Backup_secured)

text \<open>
  C4. Every run that fails, wherever it fails, reports the error: where mail is configured, a
  message with the text of the error has been handed to the mail server, or the log has a warning
  that the mail could not be sent.
\<close>

theorem run_Backup_reports:
  assumes "run_Backup N cfg w = Some (Some e, w')" "AdminEmail cfg \<noteq> []" "AdminSMTPServer cfg \<noteq> []"
  shows "(\<exists>x. (WARN, ''log.warn.email'', x) \<in> set (logs w')) \<or>
    (\<exists>subject detail pre es. reports N e detail \<and> trace w' = pre @ es
       \<and> handed_over cfg (mail_text cfg subject (FormatErrorBody subject detail [])) es)"
proof -
  obtain key detail v where "reports N e detail" "w' = sendErrorEmail N cfg (T (r_i18n N) key) detail [] v"
    using run_Backup_mailed [OF assms(1)] by (auto simp: mailed_def)
  with sendErrorEmail_result [OF assms(2,3) this(2)] show ?thesis by metis
qed


text \<open>C6. A run ends if the clock moves on.\<close>

theorem run_Backup_ends:
  assumes "moving_clock (r_ext N)" shows "\<exists>r w'. run_Backup N cfg w = Some (r, w')"
proof -
  have "\<exists>r2 w2. ensure_mysql N cfg (conn_of cfg) w1 = Some (r2, w2)" for w1 :: "'a rworld_scheme"
    using ensure_mysql_ends [OF assms, of cfg "conn_of cfg" w1] by auto
  then show ?thesis unfolding run_Backup_def
    by (auto split: prod.splits option.splits sum.splits if_splits) (metis option.distinct(1))+
qed

subsection \<open>Examples\<close>

text \<open>A server with one database \<open>db\<close> that answers every command.\<close>

definition ex_answers :: extenv where
  "ex_answers = with_sleep_clock \<lparr>process = \<lambda>_. \<lparr>combined = ''db'', stdout = ''dump'', stderr = [], status = ExitOK, eaten = True\<rparr>,
     listens = \<lambda>_. True, smtp_ok = \<lambda>_. True, clock = \<lambda>_. 0\<rparr>"

definition ex_env_run :: runenv where
  "ex_env_run = \<lparr>r_ext = ex_answers, r_zip = ex_zip, r_ssh = file_server (\<lambda>_ _. False) 9 ''S'', r_statfs = \<lambda>_. Some (1000000, 4096),
     r_proc = \<lparr>Executable = None, Getwd = Some ''/'', UserHomeDir = None\<rparr>, r_faults = \<lambda>_ _. False, r_order = insertion_order,
     r_i18n = ex_i18n, r_errtext = \<lambda>_. ''text'', r_sort = insertionSort, r_now = \<lambda>_. 9, r_today = \<lambda>_. YMD 2025 1 11\<rparr>"

definition ex_run_cfg :: Config where
  "ex_run_cfg = DefaultConfig\<lparr>MySQLHost := ''h'', BackupDir := ''b'', RemoteBackupDir := ''r'', RemoteSSHHost := ''h'',
     RemoteSSHPassword := ''p'', RemoteAESPassword := ''k'', AdminEmail := ''a@b'', AdminSMTPServer := ''m''\<rparr>"

definition ex_start :: rworld where
  "ex_start = \<lparr>files = [(''b'', Directory)], logs = [], trace = [], rfiles = [(''r'', Directory)]\<rparr>"

definition ex_done :: "(goerr option \<times> rworld) option" where
  "ex_done = run_Backup ex_env_run ex_run_cfg ex_start"

lemma ex_done: "run_Backup ex_env_run ex_run_cfg ex_start = Some (None, snd (the ex_done))"
proof -
  have "map_option fst ex_done = Some None" by code_simp
  then show ?thesis unfolding ex_done_def by (auto simp: prod_eq_iff)
qed

lemma ex_run_ok: "run_ok ex_env_run ex_run_cfg"
proof -
  have "ScanLines MaxScanTokenSize ''db'' = ([''db''], False)" by code_simp
  moreover have "db_lines [''db''] = [''db'']" by code_simp
  ultimately have "sane_server ex_answers" by (auto simp: sane_server_def ex_answers_def with_sleep_clock_def db_name_def)
  moreover have "is_clean (BackupDir ex_run_cfg)" "is_clean (RemoteBackupDir ex_run_cfg)" "\<not> backup_suffix (BackupDir ex_run_cfg)"
    by code_simp+
  moreover have "date_ok (YMD 2025 1 11)" by code_simp
  ultimately show ?thesis using go_sort.slice_sort_axioms by (simp add: run_ok_def ex_env_run_def)
qed

lemma ex_fine: "fine ex_start"
  by (simp add: fine_def ex_start_def fs_ok_def nodirs_def backup_suffix_def HasSuffix_def)

theorem run_Backup_secures_witness:
  "\<exists>(v :: rworld) v' m names t. extends (trace ex_start) (trace v)
     \<and> query_server ex_env_run ex_run_cfg (conn_of ex_run_cfg) v = (Inr (m, names), v') \<and> extends (trace v') (trace (snd (the ex_done)))
     \<and> list_all (secured ex_env_run ex_run_cfg (YMD 2025 1 11) t m (user_sql ex_env_run ex_run_cfg m v') (trace v') (snd (the ex_done))) names"
proof (rule run_Backup_secures [OF ex_done ex_run_ok ex_fine])
  show "cleanup_ok (r_faults ex_env_run)" by (simp add: cleanup_ok_def ex_env_run_def)
  show "sftp_server (r_ssh ex_env_run)" using server.sftp_server_axioms by (simp add: ex_env_run_def)
  show "\<forall>tr. r_today ex_env_run tr = YMD 2025 1 11" by (simp add: ex_env_run_def)
  show "0 \<le> RetainDaily ex_run_cfg" by code_simp
qed (simp add: ex_start_def)


theorem run_Backup_ends_witness: "\<exists>r w'. run_Backup ex_env_run ex_run_cfg ex_start = Some (r, w')"
proof (rule run_Backup_ends)
  show "moving_clock (r_ext ex_env_run)"
    using sleeping.moving_clock_axioms by (simp add: ex_env_run_def ex_answers_def)
qed

text \<open>A run on a full disk.\<close>

definition ex_full :: runenv where
  "ex_full = ex_env_run\<lparr>r_statfs := \<lambda>_. Some (1, 1)\<rparr>"

theorem run_Backup_reports_witness:
  "(\<exists>x. (WARN, ''log.warn.email'', x) \<in> set (logs (snd (the (run_Backup ex_full ex_run_cfg ex_start))))) \<or>
    (\<exists>subject detail pre es. reports ex_full (the (fst (the (run_Backup ex_full ex_run_cfg ex_start)))) detail
       \<and> trace (snd (the (run_Backup ex_full ex_run_cfg ex_start))) = pre @ es
       \<and> handed_over ex_run_cfg (mail_text ex_run_cfg subject (FormatErrorBody subject detail [])) es)"
proof (rule run_Backup_reports)
  have "map_option (\<lambda>r. fst r \<noteq> None) (run_Backup ex_full ex_run_cfg ex_start) = Some True" by code_simp
  then show "run_Backup ex_full ex_run_cfg ex_start =
      Some (Some (the (fst (the (run_Backup ex_full ex_run_cfg ex_start)))), snd (the (run_Backup ex_full ex_run_cfg ex_start)))"
    by (auto simp: prod_eq_iff)
qed code_simp+

text \<open>
  A server that the run has started is not stopped again where the run ends early: here it has
  no databases, and the stop command is never run.
\<close>

definition ex_stopped_server :: extenv where
  "ex_stopped_server = with_sleep_clock \<lparr>process = \<lambda>tr. \<lparr>combined = ''Database'', stdout = [], stderr = [],
       status = (if Start ''start'' [] \<in> set tr then ExitOK else ExitStatus 1), eaten = True\<rparr>,
     listens = \<lambda>_. False, smtp_ok = \<lambda>_. True, clock = \<lambda>_. 0\<rparr>"

lemma started_server_left_running:
  "map_option (\<lambda>(r, w). (r, Start ''start'' [] \<in> set (trace w), list_ex (\<lambda>e. case e of Exec n a i \<Rightarrow> n = ''stop'' | _ \<Rightarrow> False) (trace w)))
     (run_Backup (ex_env_run\<lparr>r_ext := ex_stopped_server\<rparr>)
        (ex_run_cfg\<lparr>MySQLAutoStartStop := True, MySQLStartCmd := ''start'', MySQLStopCmd := ''stop''\<rparr>) ex_start)
   = Some (None, True, False)"
  by code_simp

end
