(* ===== verification/Restore.thy ===== *)
theory Restore
  imports Lifecycle Retention Config
begin

text \<open>
  \<open>internal/restore/restore.go\<close>: the import of backup files, and the replacement of the data
  directory of the server by the template of its installation.

  Reading a zip file is a parameter: it gives the entries of an archive in order, with what can
  be read of each. The model of the file system has no symbolic links, so the branch of
  \<open>copyDir\<close> for them is left out, and files have no permissions.
\<close>

subsection \<open>Importing\<close>

datatype zentry = Readable bytes | Unopenable | Corrupt bytes

type_synonym zipreader = "bytes \<Rightarrow> (string \<times> zentry) list option"

definition sql_entry :: "(string \<times> zentry) list \<Rightarrow> zentry option" where
  "sql_entry es = map_option snd (find (\<lambda>(n, _). EqualFold (Ext n) ''.sql'') es)"

text \<open>
  \<open>restoreZip\<close>. The entry is copied through a pipe to the import. The error of the copy is
  reported first: a read error of the archive, or a closed pipe where the import did not take
  everything.
\<close>

definition restoreZip ::
  "extenv \<Rightarrow> zipreader \<Rightarrow> faults \<Rightarrow> Conn \<Rightarrow> string \<Rightarrow> 'a sysworld_scheme \<Rightarrow> goerr option \<times> 'a sysworld_scheme"
where
  "restoreZip X ZR F conn zipPath w =
     (case ReadFile F (files w) zipPath of
        Inl e \<Rightarrow> (Some (OSErr e), w)
      | Inr c \<Rightarrow>
          (case ZR c of
             None \<Rightarrow> (Some (Text ''zip''), w)
           | Some es \<Rightarrow>
               (case sql_entry es of
                  None \<Rightarrow> (Some (Err ''err.restore_sql_missing'' [Base zipPath] None), w)
                | Some Unopenable \<Rightarrow> (Some (Text ''zip''), w)
                | Some (Corrupt d) \<Rightarrow> (Some (Text ''zip''), snd (ImportSQL X conn d w))
                | Some (Readable d) \<Rightarrow>
                    (case ImportSQL X conn d w of (e, w1) \<Rightarrow>
                       (if d \<noteq> [] \<and> \<not> eaten (process X (trace w1)) then Some (Text ''closed pipe'') else e, w1)))))"

fun restore_loop ::
  "extenv \<Rightarrow> zipreader \<Rightarrow> faults \<Rightarrow> Conn \<Rightarrow> BackupFile list \<Rightarrow> 'a sysworld_scheme \<Rightarrow> goerr option \<times> 'a sysworld_scheme"
where
  "restore_loop X ZR F conn [] w = (None, w)"
| "restore_loop X ZR F conn (f # fls) w =
     (case restoreZip X ZR F conn (Path f) (log_msg INFO ''log.msg.restore_zip'' [Base (Path f)] w) of
        (Some e, w1) \<Rightarrow> (Some (Err ''err.restore_zip'' [Base (Path f)] (Some e)), w1)
      | (None, w1) \<Rightarrow> restore_loop X ZR F conn fls w1)"

definition RestoreFromZips ::
  "extenv \<Rightarrow> zipreader \<Rightarrow> faults \<Rightarrow> Conn \<Rightarrow> BackupFile list \<Rightarrow> 'a sysworld_scheme \<Rightarrow> goerr option \<times> 'a sysworld_scheme"
where
  "RestoreFromZips X ZR F conn fls w =
     (if fls = [] then (Some (Err ''err.restore_no_backups'' [] None), w)
      else (case restore_loop X ZR F conn fls w of
              (Some e, w1) \<Rightarrow> (Some e, w1)
            | (None, w1) \<Rightarrow> (None, log_msg INFO ''log.msg.restore_done'' [Itoa (int (length fls))] w1)))"

subsection \<open>Copying a directory\<close>

text \<open>
  \<open>filepath.WalkDir\<close>: what is below a directory, a directory before its entries and the entries
  of one directory by name. That is the order of the lists of path elements.
\<close>

definition dir_prefix :: "string \<Rightarrow> string" where
  "dir_prefix d = (if d = ''.'' then [] else if d = [slash] then [slash] else d @ [slash])"

definition is_below :: "string \<Rightarrow> string \<Rightarrow> bool" where
  "is_below d p \<longleftrightarrow> p \<noteq> d \<and> HasPrefix p (dir_prefix d) \<and> (d = ''.'' \<longrightarrow> \<not> rooted p)"

text \<open>
  The walk lists everything once. The source reads a directory when it comes to it, which is
  the same unless the target lies below the source.
\<close>

definition walk :: "fs \<Rightarrow> string \<Rightarrow> (string \<times> node) list" where
  "walk f d = sort_key (\<lambda>(p, _). elements p) (filter (\<lambda>(p, _). is_below d p) f)"

text \<open>\<open>filepath.Rel\<close> of a path below the directory.\<close>

definition Rel :: "string \<Rightarrow> string \<Rightarrow> string" where
  "Rel d p = drop (length (dir_prefix d)) p"

text \<open>A failed copy leaves an empty file here, in the source any part of the content.\<close>

definition copyFile :: "faults \<Rightarrow> int \<Rightarrow> string \<Rightarrow> string \<Rightarrow> fs \<Rightarrow> oserr option \<times> fs" where
  "copyFile F now src dst f =
     (case ReadFile F f src of
        Inl e \<Rightarrow> (Some e, f)
      | Inr c \<Rightarrow>
          (case Create F f dst now of
             Inl e \<Rightarrow> (Some e, f)
           | Inr f1 \<Rightarrow>
               if F f1 (OpRead src) then (Some ErrOther, f1)
               else (case WriteFile F f1 dst c now of
                  Inl e \<Rightarrow> (Some e, f1)
                | Inr f2 \<Rightarrow> if F f2 (OpClose dst) then (Some ErrOther, f2) else (None, f2))))"

text \<open>The function called for every path; listing a directory on the way may fail.\<close>

definition copy_item :: "faults \<Rightarrow> int \<Rightarrow> string \<Rightarrow> string \<Rightarrow> string \<times> node \<Rightarrow> fs \<Rightarrow> oserr option \<times> fs" where
  "copy_item F now srcDir dstDir = (\<lambda>(path, n) f.
     (let target = Join dstDir (Rel srcDir path) in
      if F f (OpStat path) then (Some ErrOther, f)
      else if n = Directory then
        (case MkdirAll F f target of
           Inl e \<Rightarrow> (Some e, f)
         | Inr f1 \<Rightarrow> if F f1 (OpReadDir path) then (Some ErrOther, f1) else (None, f1))
      else copyFile F now path target f))"

fun copy_items ::
  "faults \<Rightarrow> int \<Rightarrow> string \<Rightarrow> string \<Rightarrow> (string \<times> node) list \<Rightarrow> fs \<Rightarrow> oserr option \<times> fs"
where
  "copy_items F now srcDir dstDir [] f = (None, f)"
| "copy_items F now srcDir dstDir (x # xs) f =
     (case copy_item F now srcDir dstDir x f of
        (Some e, f1) \<Rightarrow> (Some e, f1)
      | (None, f1) \<Rightarrow> copy_items F now srcDir dstDir xs f1)"

definition copyDir :: "faults \<Rightarrow> int \<Rightarrow> string \<Rightarrow> string \<Rightarrow> fs \<Rightarrow> oserr option \<times> fs" where
  "copyDir F now srcDir dstDir f =
     (case MkdirAll F f dstDir of
        Inl e \<Rightarrow> (Some e, f)
      | Inr f1 \<Rightarrow>
          if F f1 (OpStat srcDir) \<or> F f1 (OpReadDir srcDir) then (Some ErrOther, f1)
          else copy_items F now srcDir dstDir (walk f1 srcDir) f1)"

subsection \<open>Replacing the data directory\<close>

text \<open>The checks of \<open>FullReinit\<close> before it touches anything.\<close>

definition reinit_checks :: "faults \<Rightarrow> fs \<Rightarrow> string \<Rightarrow> string \<Rightarrow> string \<Rightarrow> goerr option" where
  "reinit_checks F f dataDir backupDir dataOldDir =
     (case Stat F f backupDir of
        Inl e \<Rightarrow> Some (Err ''err.restorefull_backup_dir'' [] (Some (OSErr e)))
      | Inr (File _ _) \<Rightarrow> Some (Err ''err.restorefull_backup_dir'' [] (Some (Text ''not a directory'')))
      | Inr Directory \<Rightarrow>
          (case Stat F f dataOldDir of
             Inr _ \<Rightarrow> Some (Err ''err.restorefull_data_old_exists'' [dataOldDir] None)
           | Inl ErrOther \<Rightarrow> Some (Err ''err.restorefull_data_old_stat'' [] (Some (OSErr ErrOther)))
           | Inl ErrNotExist \<Rightarrow>
               (case Stat F f dataDir of
                  Inl e \<Rightarrow> Some (Err ''err.restorefull_data_dir_missing'' [] (Some (OSErr e)))
                | Inr _ \<Rightarrow> None)))"

text \<open>Stopping a running server. \<^const>\<open>None\<close> stands for not returning.\<close>

definition reinit_stop ::
  "extenv \<Rightarrow> Config \<Rightarrow> 'a sysworld_scheme \<Rightarrow> (goerr option \<times> 'a sysworld_scheme) option"
where
  "reinit_stop X cfg w =
     (case portReachable X (MySQLHost cfg) (MySQLPort cfg) w of
        (False, w1) \<Rightarrow> Some (None, w1)
      | (True, w1) \<Rightarrow>
          if TrimSpace (MySQLStopCmd cfg) = [] then Some (Some (Err ''err.restorefull_stop_required'' [] None), w1)
          else
            let w2 = log_msg INFO ''log.msg.mysql_stopping'' [MySQLStopCmd cfg] w1 in
            (case restore_lifecycle_cmd X (MySQLStopCmd cfg) True w2 of
               (Some e, w3) \<Rightarrow> Some (Some (Err ''err.restorefull_stop'' [] (Some e)), w3)
             | (None, w3) \<Rightarrow>
                 (case waitForPortState X (MySQLHost cfg) (MySQLPort cfg) False (30 * Second) Second w3 of
                    None \<Rightarrow> None
                  | Some (ok, w4) \<Rightarrow>
                      Some (if ok then None else Some (Err ''err.restorefull_stop_timeout'' [] None), w4))))"

definition reinit_start ::
  "extenv \<Rightarrow> Config \<Rightarrow> 'a sysworld_scheme \<Rightarrow> (goerr option \<times> 'a sysworld_scheme) option"
where
  "reinit_start X cfg w =
     (if TrimSpace (MySQLStartCmd cfg) = [] then Some (Some (Err ''err.restorefull_start_required'' [] None), w)
      else
        let w1 = log_msg INFO ''log.msg.mysql_starting'' [MySQLStartCmd cfg] w in
        (case restore_lifecycle_cmd X (MySQLStartCmd cfg) False w1 of
           (Some e, w2) \<Rightarrow> Some (Some (Err ''err.restorefull_start'' [] (Some e)), w2)
         | (None, w2) \<Rightarrow>
             (case waitForPortState X (MySQLHost cfg) (MySQLPort cfg) True (60 * Second) (2 * Second) w2 of
                None \<Rightarrow> None
              | Some (ok, w3) \<Rightarrow>
                  Some (if ok then None else Some (Err ''err.restorefull_start_timeout'' [] None), w3))))"

text \<open>Moving the data away and copying the template.\<close>

definition reinit_swap ::
  "faults \<Rightarrow> int \<Rightarrow> string \<Rightarrow> string \<Rightarrow> string \<Rightarrow> 'a sysworld_scheme \<Rightarrow> goerr option \<times> 'a sysworld_scheme"
where
  "reinit_swap F now dataDir backupDir dataOldDir w =
     (let w1 = log_msg INFO ''log.msg.restorefull_rename'' [dataDir, dataOldDir] w in
      case Rename F (files w1) dataDir dataOldDir of
        Inl e \<Rightarrow> (Some (Err ''err.restorefull_rename'' [] (Some (OSErr e))), w1)
      | Inr f \<Rightarrow>
          let w2 = log_msg INFO ''log.msg.restorefull_copy'' [backupDir, dataDir] (w1\<lparr>files := f\<rparr>) in
          (case copyDir F now backupDir dataDir f of
             (Some e, f1) \<Rightarrow> (Some (Err ''err.restorefull_copy'' [] (Some (OSErr e))), w2\<lparr>files := f1\<rparr>)
           | (None, f1) \<Rightarrow> (None, w2\<lparr>files := f1\<rparr>)))"

definition data_dir :: "Config \<Rightarrow> string" where
  "data_dir cfg = FromSlash (Clean (TrimSpace (MySQLDataDir cfg)))"

definition template_dir :: "Config \<Rightarrow> string" where
  "template_dir cfg =
     (let b = TrimSpace (MySQLBackupDir cfg) in
      FromSlash (Clean (if b = [] then Join (Dir (TrimSpace (MySQLDataDir cfg))) ''backup'' else b)))"

definition FullReinit ::
  "extenv \<Rightarrow> faults \<Rightarrow> int \<Rightarrow> Config \<Rightarrow> 'a sysworld_scheme \<Rightarrow> (goerr option \<times> 'a sysworld_scheme) option"
where
  "FullReinit X F now cfg w =
     (if TrimSpace (MySQLDataDir cfg) = [] then Some (Some (Err ''err.restorefull_data_dir'' [] None), w)
      else
        let dataDir = data_dir cfg; backupDir = template_dir cfg; dataOldDir = dataDir @ ''.old'' in
        (case reinit_checks F (files w) dataDir backupDir dataOldDir of
           Some e \<Rightarrow> Some (Some e, w)
         | None \<Rightarrow>
             (case reinit_stop X cfg w of
                None \<Rightarrow> None
              | Some (Some e, w1) \<Rightarrow> Some (Some e, w1)
              | Some (None, w1) \<Rightarrow>
                  (case reinit_swap F now dataDir backupDir dataOldDir w1 of
                     (Some e, w2) \<Rightarrow> Some (Some e, w2)
                   | (None, w2) \<Rightarrow> reinit_start X cfg w2))))"

subsection \<open>What is imported\<close>

text \<open>The SQL a restore reads from a file, where it can.\<close>

definition sql_of :: "zipreader \<Rightarrow> fs \<Rightarrow> string \<Rightarrow> bytes option" where
  "sql_of ZR f p =
     (case map_of f p of
        Some (File c _) \<Rightarrow>
          (case ZR c of
             Some es \<Rightarrow> (case sql_entry es of Some (Readable d) \<Rightarrow> Some d | _ \<Rightarrow> None)
           | None \<Rightarrow> None)
      | _ \<Rightarrow> None)"

definition import_events :: "Conn \<Rightarrow> bytes list \<Rightarrow> event list" where
  "import_events conn ds = map (Exec (binPath conn ''mysql'') (baseArgs conn)) ds"

lemma import_events_simps [simp]:
  "import_events conn [] = []"
  "import_events conn (d # ds) = Exec (binPath conn ''mysql'') (baseArgs conn) d # import_events conn ds"
  by (simp_all add: import_events_def)

lemma ImportSQL_simps:
  "snd (ImportSQL X conn d w) = emit (Exec (binPath conn ''mysql'') (baseArgs conn) d) w"
  "fst (ImportSQL X conn d w) = None \<longleftrightarrow> status (process X (trace w @ import_events conn [d])) = ExitOK"
  by (simp_all add: ImportSQL_def run_cmd_def Let_def)

lemma restoreZip_result:
  assumes "restoreZip X ZR F conn p w = (e, w')"
  shows "files w' = files w"
    "\<exists>ds. length ds \<le> 1 \<and> trace w' = trace w @ import_events conn ds"
    "e = None \<Longrightarrow> \<exists>d. sql_of ZR (files w) p = Some d \<and> trace w' = trace w @ import_events conn [d]
       \<and> status (process X (trace w')) = ExitOK"
proof -
  have "e = fst (restoreZip X ZR F conn p w)" "w' = snd (restoreZip X ZR F conn p w)" using assms by simp_all
  moreover have "files (snd (restoreZip X ZR F conn p w)) = files w \<and>
     (\<exists>ds. length ds \<le> 1 \<and> trace (snd (restoreZip X ZR F conn p w)) = trace w @ import_events conn ds) \<and>
     (fst (restoreZip X ZR F conn p w) = None \<longrightarrow>
       (\<exists>d. sql_of ZR (files w) p = Some d \<and> trace (snd (restoreZip X ZR F conn p w)) = trace w @ import_events conn [d]
         \<and> status (process X (trace (snd (restoreZip X ZR F conn p w)))) = ExitOK))"
    unfolding restoreZip_def
    by (auto simp: ReadFile_def sql_of_def ImportSQL_simps case_prod_beta intro: exI [of _ "[]"] exI [of _ "[_]"]
        split: sum.split option.split node.split zentry.split)
  ultimately show "files w' = files w"
    "\<exists>ds. length ds \<le> 1 \<and> trace w' = trace w @ import_events conn ds"
    "e = None \<Longrightarrow> \<exists>d. sql_of ZR (files w) p = Some d \<and> trace w' = trace w @ import_events conn [d]
       \<and> status (process X (trace w')) = ExitOK"
    by auto
qed

text \<open>
  How a restore of several files goes: some of them, from the first on, were imported one after
  the other without error; then all are done, or the next one failed.
\<close>

definition restore_outcome ::
  "extenv \<Rightarrow> zipreader \<Rightarrow> Conn \<Rightarrow> BackupFile list \<Rightarrow> 'a sysworld_scheme \<Rightarrow> goerr option \<Rightarrow> 'a sysworld_scheme \<Rightarrow> bool"
where
  "restore_outcome X ZR conn fls w r w' \<longleftrightarrow>
     files w' = files w \<and>
     (\<exists>pre post ds ds'. fls = pre @ post \<and> map (\<lambda>f. sql_of ZR (files w) (Path f)) pre = map Some ds
        \<and> trace w' = trace w @ import_events conn ds @ import_events conn ds'
        \<and> (\<forall>k < length ds. status (process X (trace w @ import_events conn (take (Suc k) ds))) = ExitOK)
        \<and> (case r of
             None \<Rightarrow> post = [] \<and> ds' = []
           | Some e \<Rightarrow> length ds' \<le> 1 \<and> (\<exists>f rest e'. post = f # rest \<and> e = Err ''err.restore_zip'' [Base (Path f)] (Some e'))))"

lemma restore_loop_outcome:
  "restore_loop X ZR F conn fls w = (r, w') \<Longrightarrow> restore_outcome X ZR conn fls w r w'"
proof (induction fls arbitrary: w)
  case Nil
  then show ?case by (auto simp: restore_outcome_def)
next
  case (Cons f fls)
  define w0 where "w0 = log_msg INFO ''log.msg.restore_zip'' [Base (Path f)] w"
  have w0: "files w0 = files w" "trace w0 = trace w" by (simp_all add: w0_def)
  obtain e1 w1 where 1: "restoreZip X ZR F conn (Path f) w0 = (e1, w1)" by fastforce
  note R = restoreZip_result [OF 1, unfolded w0]
  show ?case
  proof (cases e1)
    case (Some e)
    with Cons.prems 1 have r: "r = Some (Err ''err.restore_zip'' [Base (Path f)] (Some e))" "w' = w1"
      by (simp_all add: w0_def)
    obtain ds' where "length ds' \<le> 1" "trace w1 = trace w @ import_events conn ds'" using R(2) by blast
    then show ?thesis
      unfolding restore_outcome_def r using R(1)
      by (intro conjI exI [of _ "[]"] exI [of _ "f # fls"] exI [of _ ds']) auto
  next
    case None
    then obtain d where d: "sql_of ZR (files w) (Path f) = Some d" "trace w1 = trace w @ import_events conn [d]"
        "status (process X (trace w1)) = ExitOK"
      using R(3) by blast
    have "restore_loop X ZR F conn fls w1 = (r, w')" using Cons.prems 1 None by (simp add: w0_def)
    from Cons.IH [OF this] obtain pre post ds ds' where
      IH: "files w' = files w1" "fls = pre @ post" "map (\<lambda>f. sql_of ZR (files w1) (Path f)) pre = map Some ds"
        "trace w' = trace w1 @ import_events conn ds @ import_events conn ds'"
        "\<forall>k < length ds. status (process X (trace w1 @ import_events conn (take (Suc k) ds))) = ExitOK"
        "case r of None \<Rightarrow> post = [] \<and> ds' = []
         | Some e \<Rightarrow> length ds' \<le> 1 \<and> (\<exists>f rest e'. post = f # rest \<and> e = Err ''err.restore_zip'' [Base (Path f)] (Some e'))"
      unfolding restore_outcome_def by blast
    have "status (process X (trace w @ import_events conn (take (Suc k) (d # ds)))) = ExitOK" if "k < length (d # ds)" for k
      using that IH(5) d(2,3) by (cases k) auto
    then show ?thesis
      unfolding restore_outcome_def using IH R(1) d
      by (intro conjI exI [of _ "f # pre"] exI [of _ post] exI [of _ "d # ds"] exI [of _ ds']) auto
  qed
qed

lemma RestoreFromZips_outcome:
  "RestoreFromZips X ZR F conn fls w = (r, w') \<Longrightarrow> fls \<noteq> [] \<Longrightarrow> restore_outcome X ZR conn fls w r w'"
proof -
  have l: "restore_outcome X ZR conn fls w r (log_msg l k a v) = restore_outcome X ZR conn fls w r v" for r l k a v
    by (simp add: restore_outcome_def)
  assume "RestoreFromZips X ZR F conn fls w = (r, w')" "fls \<noteq> []"
  then show ?thesis using restore_loop_outcome [of X ZR F conn fls w]
    by (auto simp: RestoreFromZips_def l split: prod.splits option.splits)
qed

text \<open>
  C28. A restore that reports no error has imported the SQL of every file, in the order of the
  files, each with a \<open>mysql\<close> that ended without error, and has changed no file.
\<close>

theorem RestoreFromZips_imports:
  assumes "RestoreFromZips X ZR F conn fls w = (None, w')"
  shows "\<exists>ds. map (\<lambda>f. sql_of ZR (files w) (Path f)) fls = map Some ds \<and> ds \<noteq> []
    \<and> trace w' = trace w @ import_events conn ds \<and> files w' = files w
    \<and> (\<forall>k < length ds. status (process X (trace w @ import_events conn (take (Suc k) ds))) = ExitOK)"
proof -
  have "fls \<noteq> []" using assms by (auto simp: RestoreFromZips_def)
  from RestoreFromZips_outcome [OF assms this] this show ?thesis by (auto simp: restore_outcome_def)
qed

text \<open>
  C29. A restore that fails names the file it failed on, has imported all files before it and
  has not begun with any file after it.
\<close>

theorem RestoreFromZips_stops:
  assumes "RestoreFromZips X ZR F conn fls w = (Some e, w')" "fls \<noteq> []"
  shows "restore_outcome X ZR conn fls w (Some e) w'"
  using assms by (rule RestoreFromZips_outcome)

definition ex_zipreader :: zipreader where
  "ex_zipreader c = (if c = ''PKa'' then Some [(''db.sql'', Readable ''SQL'')] else None)"

definition ex_zips :: sysworld where
  "ex_zips = \<lparr>files = [(''b/a.zip'', File ''PKa'' 1), (''b/b.zip'', File ''??'' 1)], logs = [], trace = []\<rparr>"

definition ex_backup :: "string \<Rightarrow> BackupFile" where
  "ex_backup p = \<lparr>Path = p, Date = YMD 2025 1 11, ModTime = 0, Size = 3\<rparr>"

definition ex_import :: "exit \<Rightarrow> bool \<Rightarrow> extenv" where
  "ex_import s e = \<lparr>process = (\<lambda>_. \<lparr>combined = [], stdout = [], stderr = ''ERROR 1064'', status = s, eaten = e\<rparr>),
     listens = (\<lambda>_. True), smtp_ok = (\<lambda>_. True), clock = (\<lambda>_. 0)\<rparr>"

definition ex_restored :: "string list \<Rightarrow> goerr option \<times> sysworld" where
  "ex_restored ps = RestoreFromZips (ex_import ExitOK True) ex_zipreader (\<lambda>_ _. False) ex_local (map ex_backup ps) ex_zips"

theorem RestoreFromZips_imports_witness:
  "\<exists>ds. map (\<lambda>f. sql_of ex_zipreader (files ex_zips) (Path f)) (map ex_backup [''b/a.zip'']) = map Some ds \<and> ds \<noteq> []
    \<and> trace (snd (ex_restored [''b/a.zip''])) = trace ex_zips @ import_events ex_local ds
    \<and> files (snd (ex_restored [''b/a.zip''])) = files ex_zips
    \<and> (\<forall>k < length ds. status (process (ex_import ExitOK True) (trace ex_zips @ import_events ex_local (take (Suc k) ds))) = ExitOK)"
proof (rule RestoreFromZips_imports)
  have "fst (ex_restored [''b/a.zip'']) = None" by code_simp
  then show "RestoreFromZips (ex_import ExitOK True) ex_zipreader (\<lambda>_ _. False) ex_local (map ex_backup [''b/a.zip'']) ex_zips
     = (None, snd (ex_restored [''b/a.zip'']))"
    unfolding ex_restored_def by (simp add: prod_eq_iff)
qed

theorem RestoreFromZips_stops_witness:
  "restore_outcome (ex_import ExitOK True) ex_zipreader ex_local (map ex_backup [''b/a.zip'', ''b/b.zip'']) ex_zips
     (Some (Err ''err.restore_zip'' [''b.zip''] (Some (Text ''zip'')))) (snd (ex_restored [''b/a.zip'', ''b/b.zip'']))"
proof (rule RestoreFromZips_stops)
  have "fst (ex_restored [''b/a.zip'', ''b/b.zip'']) = Some (Err ''err.restore_zip'' [''b.zip''] (Some (Text ''zip'')))" by code_simp
  then show "RestoreFromZips (ex_import ExitOK True) ex_zipreader (\<lambda>_ _. False) ex_local (map ex_backup [''b/a.zip'', ''b/b.zip'']) ex_zips
     = (Some (Err ''err.restore_zip'' [''b.zip''] (Some (Text ''zip''))), snd (ex_restored [''b/a.zip'', ''b/b.zip'']))"
    unfolding ex_restored_def by (simp add: prod_eq_iff)
qed simp

text \<open>
  A \<open>mysql\<close> that stops at an error before it took all its input: the error that is reported is
  the one of the closed pipe, and what \<open>mysql\<close> said is lost.
\<close>

lemma import_error_masked:
  "fst (restoreZip (ex_import (ExitStatus 1) False) ex_zipreader (\<lambda>_ _. False) ex_local ''b/a.zip'' ex_zips)
     = Some (Text ''closed pipe'')"
  "fst (restoreZip (ex_import (ExitStatus 1) True) ex_zipreader (\<lambda>_ _. False) ex_local ''b/a.zip'' ex_zips)
     = Some (Err ''err.mysql_import'' [''ERROR 1064''] (Some (ExitErr (ExitStatus 1))))"
  by code_simp+

subsection \<open>Paths below a directory\<close>

definition inside :: "string \<Rightarrow> string \<Rightarrow> bool" where
  "inside d p \<longleftrightarrow> p = d \<or> HasPrefix p (d @ [slash])"

text \<open>The rest of a path below a directory: nothing, or a slash and more.\<close>

definition slashy :: "string \<Rightarrow> bool" where
  "slashy s \<longleftrightarrow> s = [] \<or> hd s = slash"

lemma inside_iff: "inside d p \<longleftrightarrow> (\<exists>s. p = d @ s \<and> slashy s)"
proof
  assume "\<exists>s. p = d @ s \<and> slashy s"
  then obtain s where "p = d @ s" "slashy s" by blast
  then show "inside d p" by (cases s) (auto simp: inside_def slashy_def HasPrefix_iff)
qed (auto simp: inside_def slashy_def HasPrefix_iff)

lemma inside_append [simp]: "slashy s \<Longrightarrow> inside d (d @ s)"
  by (auto simp: inside_iff)

lemma rename_key_inside: "rename_key a b p = (if inside a p then b @ drop (length a) p else p)"
  by (auto simp: rename_key_def inside_def)

lemma slashy_drop: "inside b q \<Longrightarrow> slashy (drop (length b) q)"
  by (auto simp: inside_iff)

text \<open>A directory that moves where nothing was: its files are at their new places.\<close>

lemma map_of_rename:
  assumes "\<forall>p \<in> fst ` set f. \<not> inside b p"
  shows "map_of (map (\<lambda>(p, n). (rename_key a b p, n)) f) q =
    (if inside b q then map_of f (a @ drop (length b) q) else if inside a q then None else map_of f q)"
  using assms
proof (induction f)
  case (Cons x f)
  obtain p n where x: "x = (p, n)" by fastforce
  have IH: "map_of (map (\<lambda>(p, n). (rename_key a b p, n)) f) q =
    (if inside b q then map_of f (a @ drop (length b) q) else if inside a q then None else map_of f q)"
    using Cons by simp
  show ?case
  proof (cases "inside a p")
    case True
    then obtain s where s: "p = a @ s" "slashy s" by (auto simp: inside_iff)
    then have k: "rename_key a b p = b @ s" by (simp add: rename_key_inside)
    have "q = b @ s \<longleftrightarrow> inside b q \<and> a @ drop (length b) q = p" using s by (auto simp: inside_iff)
    then show ?thesis using IH k True by (auto simp: x)
  next
    case False
    have np: "\<not> inside b p" using Cons.prems by (simp add: x)
    have "inside b q \<Longrightarrow> a @ drop (length b) q \<noteq> p" using slashy_drop [of b q] False by auto
    then show ?thesis using IH False np by (auto simp: x rename_key_inside)
  qed
qed simp

lemma Rename_Directory:
  assumes "Rename F f a b = Inr f'" "map_of f a = Some Directory" "a \<noteq> b" "\<forall>p \<in> fst ` set f. \<not> inside b p"
  shows "map_of f' q = (if inside b q then map_of f (a @ drop (length b) q) else if inside a q then None else map_of f q)"
    "set f' = (\<lambda>(p, n). (rename_key a b p, n)) ` set f"
proof -
  have f': "f' = map (\<lambda>(p, n). (rename_key a b p, n)) f"
    using assms(1-3) by (auto simp: Rename_def split: if_splits)
  show "map_of f' q = (if inside b q then map_of f (a @ drop (length b) q) else if inside a q then None else map_of f q)"
    unfolding f' by (rule map_of_rename [OF assms(4)])
  show "set f' = (\<lambda>(p, n). (rename_key a b p, n)) ` set f" by (simp add: f')
qed

lemma fs_ok_Rename:
  assumes "Rename F f a b = Inr f'" "map_of f a = Some Directory" "a \<noteq> b" "\<forall>p \<in> fst ` set f. \<not> inside b p" "fs_ok f"
  shows "fs_ok f'"
proof -
  have f': "f' = map (\<lambda>(p, n). (rename_key a b p, n)) f"
    using assms(1-3) by (auto simp: Rename_def split: if_splits)
  have "inj_on (rename_key a b) (fst ` set f)"
  proof (rule inj_onI)
    fix p q assume "p \<in> fst ` set f" "q \<in> fst ` set f" and eq: "rename_key a b p = rename_key a b q"
    with assms(4) have nb: "\<not> inside b p" "\<not> inside b q" by blast+
    have u: "inside b (b @ drop (length a) x)" if "inside a x" for x using slashy_drop [OF that] by simp
    show "p = q"
    proof (cases "inside a p"; cases "inside a q")
      assume "inside a p" "inside a q"
      with eq show ?thesis by (auto simp: rename_key_inside inside_iff)
    qed (use eq nb u in \<open>auto simp: rename_key_inside\<close>)
  qed
  then have "distinct (map (rename_key a b) (map fst f))"
    using assms(5) by (simp add: fs_ok_def distinct_map del: map_map)
  moreover have "map fst f' = map (rename_key a b) (map fst f)" by (simp add: f' case_prod_beta)
  ultimately show ?thesis by (simp add: fs_ok_def)
qed

subsection \<open>Copying\<close>

text \<open>A relative path all of whose elements are names.\<close>

definition rel_path :: "string \<Rightarrow> bool" where
  "rel_path r \<longleftrightarrow> list_all entry_name (Split r slash)"

lemma foldl_clean_names: "list_all entry_name cs \<Longrightarrow> foldl (clean_step r) st cs = rev cs @ st"
  by (induction cs arbitrary: st) (auto simp: clean_step_def entry_name_def)

lemma strings_Join_append:
  "xs \<noteq> [] \<Longrightarrow> ys \<noteq> [] \<Longrightarrow> strings_Join (xs @ ys) sep = strings_Join xs sep @ sep @ strings_Join ys sep"
proof (induction xs rule: induct_list012)
  case (2 x)
  then show ?case by (cases ys) auto
qed auto

lemma Join_Split: "strings_Join (Split r c) [c] = r"
proof (induction r)
  case (Cons x r)
  then show ?case by (cases "Split r c"; cases "tl (Split r c)") (auto split: if_splits)
qed simp

lemma Join_rel:
  assumes "is_clean d" "rel_path r" shows "Join d r = dir_prefix d @ r"
proof -
  have d: "d = path_of (rooted d) (elements d)" "d \<noteq> []"
    using assms(1) Clean_not_Nil [of d] by (auto simp: is_clean_def Clean_def)
  have "elements (d @ [slash] @ r) = elements d @ Split r slash"
    using assms(2) d(2) by (simp add: elements_def Split_append_sep foldl_clean_names rel_path_def)
  then have J: "Join d r = path_of (rooted d) (elements d @ Split r slash)"
    using d(2) by (simp add: Join_def Clean_def)
  show ?thesis
  proof (cases "elements d = []")
    case True
    with d(1) J show ?thesis by (cases "rooted d") (auto simp: path_of_def Join_Split dir_prefix_def)
  next
    case False
    with d(1) have "d \<noteq> ''.''" "d \<noteq> [slash]"
      using strings_Join_not_dot [OF elements_ok [of d]] strings_Join_not_rooted [OF elements_ok [of d]]
        strings_Join_eq_Nil [OF elements_ok [of d]]
      by (auto simp: path_of_def split: if_splits)
    moreover have "Join d r = d @ slash # r"
      using J False by (subst d(1)) (simp add: path_of_def strings_Join_append Join_Split)
    ultimately show ?thesis by (simp add: dir_prefix_def)
  qed
qed

definition copied :: "int \<Rightarrow> node \<Rightarrow> node" where
  "copied now n = (case n of File c _ \<Rightarrow> File c now | Directory \<Rightarrow> Directory)"

lemma copyFile_result:
  assumes "copyFile F now src dst f = (e, f')"
  shows "q \<noteq> dst \<Longrightarrow> map_of f' q = map_of f q"
    "e = None \<Longrightarrow> map_of f src = Some n \<Longrightarrow> map_of f' dst = Some (copied now n)"
  using assms
  by (auto simp: copyFile_def ReadFile_def Create_def WriteFile_def copied_def
      split: sum.splits if_splits option.splits node.splits)

lemma copy_item_result:
  assumes "copy_item F now src dst (p, n) f = (e, f')"
  shows "q \<noteq> Join dst (Rel src p) \<Longrightarrow> map_of f' q = map_of f q"
    "e = None \<Longrightarrow> map_of f p = Some n \<Longrightarrow> map_of f' (Join dst (Rel src p)) = Some (copied now n)"
proof -
  show "map_of f' q = map_of f q" if "q \<noteq> Join dst (Rel src p)"
    using assms that copyFile_result(1)
    by (auto simp: copy_item_def Let_def MkdirAll_def split: if_splits sum.splits option.splits node.splits)
  show "map_of f' (Join dst (Rel src p)) = Some (copied now n)" if "e = None" "map_of f p = Some n"
    using assms that copyFile_result(2)
    by (auto simp: copy_item_def Let_def MkdirAll_def copied_def split: if_splits sum.splits option.splits node.splits)
qed

text \<open>Items whose sources and targets are apart.\<close>

lemma copy_items_result:
  assumes "copy_items F now src dst xs f = (e, f')" "target = (\<lambda>p. Join dst (Rel src p))"
    and "\<forall>(p, n) \<in> set xs. map_of f p = Some n" "distinct (map fst xs)"
    and "inj_on target (fst ` set xs)" "\<forall>p \<in> fst ` set xs. \<forall>q \<in> fst ` set xs. p \<noteq> target q"
  shows "(\<forall>q. q \<notin> target ` fst ` set xs \<longrightarrow> map_of f' q = map_of f q)
    \<and> (e = None \<longrightarrow> (\<forall>(p, n) \<in> set xs. map_of f' (target p) = Some (copied now n)))"
  using assms(1,3-6)
proof (induction xs arbitrary: f)
  case (Cons x xs)
  obtain p n where x: "x = (p, n)" by fastforce
  obtain e1 f1 where 1: "copy_item F now src dst (p, n) f = (e1, f1)" by fastforce
  note I = copy_item_result [OF 1, folded fun_cong [OF assms(2)]]
  show ?case
  proof (cases e1)
    case (Some a)
    with Cons.prems(1) 1 x show ?thesis using I(1) by auto
  next
    case None
    have rest: "copy_items F now src dst xs f1 = (e, f')" using Cons.prems(1) 1 x None by simp
    have keep: "map_of f1 q = map_of f q" if "q \<in> fst ` set xs" for q
      using Cons.prems(5) that by (intro I(1)) (auto simp: x)
    then have "\<forall>(p, n) \<in> set xs. map_of f1 p = Some n" using Cons.prems(2) by force
    from Cons.IH [OF rest this] Cons.prems(3-5) have
      IH: "q \<notin> target ` fst ` set xs \<Longrightarrow> map_of f' q = map_of f1 q"
        "e = None \<Longrightarrow> \<forall>(p, n) \<in> set xs. map_of f' (target p) = Some (copied now n)" for q
      by (auto simp: x)
    have "target p \<notin> target ` fst ` set xs" using Cons.prems(3,4) by (auto simp: x inj_on_def)
    then have "map_of f' (target p) = map_of f1 (target p)" by (rule IH(1))
    moreover have "map_of f1 (target p) = Some (copied now n)" using I(2) None Cons.prems(2) by (simp add: x)
    ultimately have "map_of f' (target p) = Some (copied now n)" by simp
    then show ?thesis using IH I(1) by (auto simp: x)
  qed
qed simp

text \<open>A directory other than \<open>.\<close> and the root, and everything in it under a name.\<close>

definition plain_dir :: "string \<Rightarrow> bool" where
  "plain_dir d \<longleftrightarrow> is_clean d \<and> d \<noteq> ''.'' \<and> d \<noteq> [slash]"

definition tree_names :: "fs \<Rightarrow> string \<Rightarrow> bool" where
  "tree_names f d \<longleftrightarrow> list_all (\<lambda>(p, _). inside d p \<longrightarrow> p = d \<or> rel_path (drop (Suc (length d)) p)) f"

lemma set_walk: "plain_dir d \<Longrightarrow> set (walk f d) = {(p, n) \<in> set f. inside d p \<and> p \<noteq> d}"
  by (auto simp: walk_def is_below_def inside_def plain_dir_def dir_prefix_def)

lemma distinct_walk: "fs_ok f \<Longrightarrow> distinct (map fst (walk f d))"
proof -
  assume "fs_ok f"
  then have "distinct (map fst (filter (\<lambda>(p, _). is_below d p) f))" by (simp add: fs_ok_def distinct_map_filter)
  moreover have "mset (map fst (walk f d)) = mset (map fst (filter (\<lambda>(p, _). is_below d p) f))"
    by (simp add: walk_def)
  ultimately show ?thesis by (metis mset_eq_imp_distinct_iff)
qed

lemma target_below:
  assumes "plain_dir src" "plain_dir dst" "tree_names f src" "(src @ s, n) \<in> set f" "slashy s" "s \<noteq> []"
  shows "Join dst (Rel src (src @ s)) = dst @ s"
proof -
  from assms(5,6) obtain r where s: "s = slash # r" by (cases s) (auto simp: slashy_def)
  have "inside src (src @ s)" "src @ s \<noteq> src" using assms(5,6) by auto
  then have "rel_path (drop (Suc (length src)) (src @ s))"
    using assms(3,4) unfolding tree_names_def list_all_iff by fastforce
  then have "rel_path r" by (simp add: s)
  then show ?thesis
    using Join_rel [of dst r] assms(1,2) by (simp add: Rel_def plain_dir_def dir_prefix_def s)
qed

lemma inside_append_iff:
  assumes "inside t (b @ s)" "slashy s" shows "inside t b \<or> inside b t"
proof -
  obtain u where u: "b @ s = t @ u" "slashy u" using assms(1) by (auto simp: inside_iff)
  then consider v where "b = t @ v" "v @ s = u" | v where "b @ v = t" "s = v @ u"
    by (auto simp: append_eq_append_conv2)
  then show ?thesis
  proof cases
    case 1
    then have "slashy v" using u(2) by (cases v) (auto simp: slashy_def)
    then show ?thesis using 1 by (auto simp: inside_iff)
  next
    case 2
    then have "slashy v" using assms(2) by (cases v) (auto simp: slashy_def)
    then show ?thesis using 2 by (auto simp: inside_iff)
  qed
qed

lemma copyDir_result:
  assumes "copyDir F now src dst f = (e, f')"
    and "plain_dir src" "plain_dir dst" "tree_names f src" "fs_ok f"
    and "\<not> inside src dst" "\<not> inside dst src"
  shows "(\<forall>q. \<not> inside dst q \<longrightarrow> map_of f' q = map_of f q)
    \<and> (e = None \<longrightarrow> (\<forall>s. slashy s \<longrightarrow> s \<noteq> [] \<longrightarrow> map_of f (dst @ s) = None \<longrightarrow>
         map_of f' (dst @ s) = map_option (copied now) (map_of f (src @ s))))"
proof -
  define f1 where "f1 = (case MkdirAll F f dst of Inl _ \<Rightarrow> f | Inr f1 \<Rightarrow> f1)"
  have f1: "f1 = f \<or> f1 = fs_update dst Directory f"
    by (auto simp: f1_def MkdirAll_def split: sum.splits option.splits node.splits if_splits)
  then have m1: "q \<noteq> dst \<Longrightarrow> map_of f1 q = map_of f q" for q by auto
  have ok1: "fs_ok f1" "tree_names f1 src"
  proof -
    show "fs_ok f1" using f1 assms(5) by auto
    show "tree_names f1 src" using f1 assms(4,6) by (auto simp: tree_names_def fs_update_def list_all_iff)
  qed
  define xs where "xs = walk f1 src"
  have xs: "set xs = {(p, n) \<in> set f1. inside src p \<and> p \<noteq> src}" by (simp add: xs_def set_walk [OF assms(2)])
  define target where "target = (\<lambda>p. Join dst (Rel src p))"
  have P: "\<exists>s. p = src @ s \<and> slashy s \<and> s \<noteq> [] \<and> target p = dst @ s" if p: "p \<in> fst ` set xs" for p
  proof -
    from p obtain n where n: "(p, n) \<in> set f1" "inside src p" "p \<noteq> src" by (auto simp: xs)
    then obtain s where s: "p = src @ s" "slashy s" by (auto simp: inside_iff)
    with n target_below [OF assms(2,3) ok1(2), of s n] show ?thesis by (auto simp: target_def)
  qed
  show ?thesis
  proof (cases "\<exists>f2. MkdirAll F f dst = Inr f2 \<and> \<not> F f2 (OpStat src) \<and> \<not> F f2 (OpReadDir src)")
    case False
    then have "e \<noteq> None" "f' = f1"
      using assms(1) by (auto simp: copyDir_def f1_def split: sum.splits if_splits)
    moreover have "map_of f1 q = map_of f q" if "\<not> inside dst q" for q
      using that by (intro m1) (auto simp: inside_def)
    ultimately show ?thesis by auto
  next
    case True
    then have C: "copy_items F now src dst xs f1 = (e, f')"
      using assms(1) by (auto simp: copyDir_def f1_def xs_def)
    have "\<forall>(p, n) \<in> set xs. map_of f1 p = Some n" using ok1(1) by (auto simp: xs fs_ok_def)
    moreover have "distinct (map fst xs)" unfolding xs_def by (rule distinct_walk [OF ok1(1)])
    moreover have "inj_on target (fst ` set xs)" by (rule inj_onI) (metis P append_eq_append_conv)
    moreover have "\<forall>p \<in> fst ` set xs. \<forall>q \<in> fst ` set xs. p \<noteq> target q"
    proof (intro ballI notI)
      fix p q assume "p \<in> fst ` set xs" "q \<in> fst ` set xs" "p = target q"
      then obtain s t where "src @ s = dst @ t" "slashy s" "slashy t" using P by metis
      then have "inside src (dst @ t)" by (metis inside_append)
      then show False using inside_append_iff [OF _ \<open>slashy t\<close>] assms(6,7) by blast
    qed
    ultimately have R: "(\<forall>q. q \<notin> target ` fst ` set xs \<longrightarrow> map_of f' q = map_of f1 q)
        \<and> (e = None \<longrightarrow> (\<forall>(p, n) \<in> set xs. map_of f' (target p) = Some (copied now n)))"
      by (rule copy_items_result [OF C target_def])
    have "map_of f' q = map_of f q" if q: "\<not> inside dst q" for q
    proof -
      have "q \<notin> target ` fst ` set xs" using q P by force
      moreover have "q \<noteq> dst" using q by (auto simp: inside_def)
      ultimately show ?thesis using R m1 by simp
    qed
    moreover have "map_of f' (dst @ s) = map_option (copied now) (map_of f (src @ s))"
      if "e = None" "slashy s" "s \<noteq> []" "map_of f (dst @ s) = None" for s
    proof -
      have "src @ s \<noteq> dst" using assms(6) that(2) by auto
      then have look: "map_of f1 (src @ s) = map_of f (src @ s)" "map_of f1 (dst @ s) = None"
        using m1 that(3,4) by auto
      show ?thesis
      proof (cases "map_of f (src @ s)")
        case None
        then have "src @ s \<notin> fst ` set f1" using look(1) by (metis map_of_eq_None_iff)
        moreover have "fst ` set xs \<subseteq> fst ` set f1" by (auto simp: xs)
        ultimately have nin: "src @ s \<notin> fst ` set xs" by blast
        have "dst @ s \<notin> target ` fst ` set xs"
        proof
          assume "dst @ s \<in> target ` fst ` set xs"
          then obtain p where p: "p \<in> fst ` set xs" "dst @ s = target p" by (elim imageE) blast
          from P [OF p(1)] obtain s' where "p = src @ s'" "target p = dst @ s'" by blast
          with p(2) have "p = src @ s" by simp
          with p(1) nin show False by (simp only:)
        qed
        then show ?thesis using R None look(2) by simp
      next
        case (Some n)
        then have "(src @ s, n) \<in> set xs" using look(1) that(2,3) by (auto simp: xs map_of_SomeD)
        moreover have "target (src @ s) = dst @ s" 
          using P [of "src @ s"] imageI [OF \<open>(src @ s, n) \<in> set xs\<close>, of fst] by auto
        moreover have "\<forall>(p, n) \<in> set xs. map_of f' (target p) = Some (copied now n)" using R that(1) by blast
        ultimately show ?thesis using Some by fastforce
      qed
    qed
    ultimately show ?thesis by blast
  qed
qed

subsection \<open>The data directory\<close>

lemma poll_port_files: "poll_port X host port want deadline interval w = Some r \<Longrightarrow> files (snd r) = files w"
  by (erule poll_port.raw_induct [where P = "\<lambda>X host port want deadline interval w r. files (snd r) = files w", rotated])
    (auto simp: Let_def portReachable_def time_Sleep_def split: if_splits)

lemma lifecycle_files [simp]: "files (snd (restore_lifecycle_cmd X c b w)) = files w"
  by (auto simp: restore_lifecycle_cmd_def start_background_def Let_def case_prod_beta run_cmd_def start_cmd_def split: option.split)

lemma reinit_stop_files: "reinit_stop X cfg w = Some r \<Longrightarrow> files (snd r) = files w"
proof -
  assume r: "reinit_stop X cfg w = Some r"
  obtain b w1 where 1: "portReachable X (MySQLHost cfg) (MySQLPort cfg) w = (b, w1)" by fastforce
  then have f1: "files w1 = files w" by (auto simp: portReachable_def dest!: arg_cong [where f = snd])
  define w2 where "w2 = log_msg INFO ''log.msg.mysql_stopping'' [MySQLStopCmd cfg] w1"
  obtain e w3 where 3: "restore_lifecycle_cmd X (MySQLStopCmd cfg) True w2 = (e, w3)" by fastforce
  then have f3: "files w3 = files w" using lifecycle_files [of X "MySQLStopCmd cfg" True w2] f1 by (simp add: w2_def)
  show ?thesis
    using r f1 f3 3 [unfolded w2_def] poll_port_files [of X "MySQLHost cfg" "MySQLPort cfg" False _ Second w3]
    unfolding reinit_stop_def 1 Let_def
    by (cases b; cases e) (auto simp: waitForPortState_def split: option.splits if_splits)
qed

lemma reinit_start_files: "reinit_start X cfg w = Some r \<Longrightarrow> files (snd r) = files w"
proof -
  assume r: "reinit_start X cfg w = Some r"
  define w1 where "w1 = log_msg INFO ''log.msg.mysql_starting'' [MySQLStartCmd cfg] w"
  obtain e w2 where 2: "restore_lifecycle_cmd X (MySQLStartCmd cfg) False w1 = (e, w2)" by fastforce
  then have f2: "files w2 = files w" using lifecycle_files [of X "MySQLStartCmd cfg" False w1] by (simp add: w1_def)
  show ?thesis
    using r f2 2 poll_port_files [of X "MySQLHost cfg" "MySQLPort cfg" True _ "2 * Second" w2]
    unfolding reinit_start_def Let_def w1_def [symmetric]
    by (cases e) (auto simp: waitForPortState_def split: option.splits if_splits)
qed

text \<open>What a re-initialisation is run on: two directories apart from each other, and no left-overs.\<close>

definition reinit_ready :: "Config \<Rightarrow> fs \<Rightarrow> bool" where
  "reinit_ready cfg f \<longleftrightarrow>
     plain_dir (data_dir cfg) \<and> plain_dir (template_dir cfg) \<and> fs_ok f
     \<and> map_of f (data_dir cfg) = Some Directory \<and> tree_names f (template_dir cfg)
     \<and> \<not> inside (data_dir cfg) (template_dir cfg) \<and> \<not> inside (template_dir cfg) (data_dir cfg)
     \<and> \<not> inside (template_dir cfg) (data_dir cfg @ ''.old'') \<and> \<not> inside (data_dir cfg @ ''.old'') (template_dir cfg)
     \<and> list_all (\<lambda>(p, _). \<not> inside (data_dir cfg @ ''.old'') p) f"

lemma old_apart: "slashy s \<Longrightarrow> \<not> inside d (d @ ''.old'' @ s)" "slashy s \<Longrightarrow> \<not> inside (d @ ''.old'') (d @ s)"
  by (auto simp: inside_iff slashy_def)

lemma tree_names_Rename:
  assumes "Rename F f a b = Inr f'" "map_of f a = Some Directory" "a \<noteq> b" "\<forall>p \<in> fst ` set f. \<not> inside b p"
    and "tree_names f t" "\<not> inside t b" "\<not> inside b t"
  shows "tree_names f' t"
proof -
  have "q = t \<or> rel_path (drop (Suc (length t)) q)" if q: "(q, n) \<in> set f'" "inside t q" for q n
  proof -
    obtain p where p: "(p, n) \<in> set f" "q = rename_key a b p" using Rename_Directory(2) [OF assms(1-4)] q(1) by auto
    have "\<not> inside a p"
      using p(2) q(2) assms(6,7) inside_append_iff [of t b "drop (length a) p"] slashy_drop [of a p]
      by (auto simp: rename_key_inside)
    then show ?thesis using p q(2) assms(5) by (auto simp: rename_key_inside tree_names_def list_all_iff)
  qed
  then show ?thesis by (auto simp: tree_names_def list_all_iff)
qed

lemma reinit_swap_result:
  assumes "reinit_swap F now (data_dir cfg) (template_dir cfg) (data_dir cfg @ ''.old'') w = (e, w')" "reinit_ready cfg (files w)"
  shows "files w' = files w \<or> (\<forall>s. slashy s \<longrightarrow> map_of (files w') (data_dir cfg @ ''.old'' @ s) = map_of (files w) (data_dir cfg @ s))"
    "e = None \<Longrightarrow> slashy s \<Longrightarrow> s \<noteq> [] \<Longrightarrow>
       map_of (files w') (data_dir cfg @ s) = map_option (copied now) (map_of (files w) (template_dir cfg @ s))"
    "e = None \<Longrightarrow> slashy s \<Longrightarrow> map_of (files w') (data_dir cfg @ ''.old'' @ s) = map_of (files w) (data_dir cfg @ s)"
proof -
  define a b t where "a = data_dir cfg" and "b = a @ ''.old''" and "t = template_dir cfg"
  have R: "plain_dir a" "plain_dir t" "fs_ok (files w)" "map_of (files w) a = Some Directory" "tree_names (files w) t"
      "\<not> inside a t" "\<not> inside t a" "\<not> inside t b" "\<not> inside b t" "\<forall>p \<in> fst ` set (files w). \<not> inside b p" "a \<noteq> b"
    using assms(2) by (auto simp: reinit_ready_def a_def b_def t_def list_all_iff)
  define w1 where "w1 = log_msg INFO ''log.msg.restorefull_rename'' [a, b] w"
  have swap: "reinit_swap F now a t b w = (e, w')" using assms(1) by (simp add: a_def b_def t_def)
  consider (kept) "files w' = files w" "e \<noteq> None"
    | (moved) f where "Rename F (files w) a b = Inr f" "copyDir F now t a f = (fst (copyDir F now t a f), files w')"
        "(e = None) = (fst (copyDir F now t a f) = None)"
  proof (cases "Rename F (files w) a b")
    case (Inl x)
    with swap show thesis by (intro kept) (auto simp: reinit_swap_def Let_def)
  next
    case (Inr f)
    obtain e1 f1 where "copyDir F now t a f = (e1, f1)" by fastforce
    with swap Inr show thesis by (intro moved [of f]) (auto simp: reinit_swap_def Let_def split: option.splits)
  qed
  then have "(files w' = files w \<and> e \<noteq> None) \<or>
    (\<forall>s. slashy s \<longrightarrow> map_of (files w') (b @ s) = map_of (files w) (a @ s)
        \<and> (e = None \<longrightarrow> s \<noteq> [] \<longrightarrow> map_of (files w') (a @ s) = map_option (copied now) (map_of (files w) (t @ s))))"
  proof cases
    case (moved f)
    note D = Rename_Directory(1) [OF moved(1) R(4) R(11) R(10)]
    have "fs_ok f" "tree_names f t"
      by (rule fs_ok_Rename [OF moved(1) R(4) R(11) R(10) R(3)], rule tree_names_Rename [OF moved(1) R(4) R(11) R(10) R(5) R(8,9)])
    note C = copyDir_result [OF moved(2) R(2,1) this(2,1) R(7,6)]
    have "map_of (files w') (b @ s) = map_of (files w) (a @ s)
        \<and> (e = None \<longrightarrow> s \<noteq> [] \<longrightarrow> map_of (files w') (a @ s) = map_option (copied now) (map_of (files w) (t @ s)))"
      if s: "slashy s" for s
    proof -
      have apart: "\<not> inside a (b @ s)" "\<not> inside b (a @ s)" using old_apart [OF s, of a] by (simp_all add: b_def)
      have "\<not> inside a (t @ s)" "\<not> inside b (t @ s)"
        using inside_append_iff [OF _ s] R(6-9) by blast+
      then have "map_of f (t @ s) = map_of (files w) (t @ s)" by (simp add: D)
      moreover have "map_of f (a @ s) = None" using s apart(2) by (simp add: D)
      moreover have "map_of f (b @ s) = map_of (files w) (a @ s)" using s by (simp add: D)
      ultimately show ?thesis using C apart(1) s moved(3) by simp
    qed
    then show ?thesis by blast
  qed blast
  then show "files w' = files w \<or> (\<forall>s. slashy s \<longrightarrow> map_of (files w') (data_dir cfg @ ''.old'' @ s) = map_of (files w) (data_dir cfg @ s))"
    "e = None \<Longrightarrow> slashy s \<Longrightarrow> s \<noteq> [] \<Longrightarrow>
       map_of (files w') (data_dir cfg @ s) = map_option (copied now) (map_of (files w) (template_dir cfg @ s))"
    "e = None \<Longrightarrow> slashy s \<Longrightarrow> map_of (files w') (data_dir cfg @ ''.old'' @ s) = map_of (files w) (data_dir cfg @ s)"
    by (auto simp: a_def b_def t_def)
qed

lemma FullReinit_files:
  fixes w :: "'a sysworld_scheme"
  assumes "FullReinit X F now cfg w = Some (r, w')"
  shows "(files w' = files w \<and> r \<noteq> None) \<or>
    (\<exists>e (w1 :: 'a sysworld_scheme) w2. files w1 = files w \<and> files w' = files w2 \<and> (r = None \<longrightarrow> e = None) \<and>
       reinit_swap F now (data_dir cfg) (template_dir cfg) (data_dir cfg @ ''.old'') w1 = (e, w2))"
proof (cases "TrimSpace (MySQLDataDir cfg) = [] \<or>
    reinit_checks F (files w) (data_dir cfg) (template_dir cfg) (data_dir cfg @ ''.old'') \<noteq> None")
  case True
  then obtain e where "FullReinit X F now cfg w = Some (Some e, w)"
    unfolding FullReinit_def Let_def by (cases "TrimSpace (MySQLDataDir cfg) = []") auto
  then have "files w' = files w \<and> r \<noteq> None" using assms by auto
  then show ?thesis by blast
next
  case False
  then obtain e w1 where 1: "reinit_stop X cfg w = Some (e, w1)"
    using assms unfolding FullReinit_def Let_def by (cases "reinit_stop X cfg w") auto
  then have f1: "files w1 = files w" using reinit_stop_files by fastforce
  obtain e2 w2 where 2: "reinit_swap F now (data_dir cfg) (template_dir cfg) (data_dir cfg @ ''.old'') w1 = (e2, w2)" by fastforce
  show ?thesis
  proof (cases e)
    case (Some a)
    then have "files w' = files w \<and> r \<noteq> None" using assms False 1 f1 unfolding FullReinit_def Let_def by auto
    then show ?thesis by blast
  next
    case None
    then have "(case e2 of Some e \<Rightarrow> Some (Some e, w2) | None \<Rightarrow> reinit_start X cfg w2) = Some (r, w')"
      using assms False 1 2 unfolding FullReinit_def Let_def by auto
    then have "files w' = files w2 \<and> (r = None \<longrightarrow> e2 = None)"
      using reinit_start_files [of X cfg w2 "(r, w')"] by (auto split: option.splits)
    then show ?thesis using f1 2 by blast
  qed
qed

text \<open>
  C30. A re-initialisation never loses the data directory, whatever fails and when: either no
  file has changed, or all of it is in the directory with the suffix \<open>.old\<close>.
\<close>

theorem FullReinit_keeps_data:
  fixes w :: "'a sysworld_scheme"
  assumes "FullReinit X F now cfg w = Some (r, w')" "reinit_ready cfg (files w)"
  shows "files w' = files w
    \<or> (\<forall>s. slashy s \<longrightarrow> map_of (files w') (data_dir cfg @ ''.old'' @ s) = map_of (files w) (data_dir cfg @ s))"
  using FullReinit_files [OF assms(1)]
proof (elim disjE exE conjE)
  fix e and w1 w2 :: "'a sysworld_scheme"
  assume "files w1 = files w" "files w' = files w2"
    and "reinit_swap F now (data_dir cfg) (template_dir cfg) (data_dir cfg @ ''.old'') w1 = (e, w2)"
  with reinit_swap_result(1) [of F now cfg w1 e w2] assms(2) show ?thesis by simp
qed blast

text \<open>
  C31. A re-initialisation without error leaves in the data directory a copy of the template,
  file for file, and nothing else.
\<close>

theorem FullReinit_installs_template:
  fixes w :: "'a sysworld_scheme"
  assumes "FullReinit X F now cfg w = Some (None, w')" "reinit_ready cfg (files w)" "slashy s" "s \<noteq> []"
  shows "map_of (files w') (data_dir cfg @ s) = map_option (copied now) (map_of (files w) (template_dir cfg @ s))"
  using FullReinit_files [OF assms(1)]
proof (elim disjE exE conjE)
  fix e and w1 w2 :: "'a sysworld_scheme"
  assume "files w1 = files w" "files w' = files w2" "None = None \<longrightarrow> e = None"
    and "reinit_swap F now (data_dir cfg) (template_dir cfg) (data_dir cfg @ ''.old'') w1 = (e, w2)"
  with reinit_swap_result(2) [of F now cfg w1 e w2 s] assms(2-4) show ?thesis by simp
qed blast

text \<open>C32. A re-initialisation always ends if the clock moves on.\<close>

theorem FullReinit_ends:
  fixes w :: "'a sysworld_scheme"
  assumes "moving_clock X"
  shows "\<exists>r. FullReinit X F now cfg w = Some r"
proof -
  have wait: "\<exists>r. waitForPortState X host port want t i v = Some r" if "0 < i" for host port want t i and v :: "'a sysworld_scheme"
    using moving_clock.poll_port_ends [OF assms that, of host port want "time_Now X v + t" v]
    unfolding waitForPortState_def by blast
  have stop: "reinit_stop X cfg v \<noteq> None" for v :: "'a sysworld_scheme"
  proof -
    obtain b v1 where 1: "portReachable X (MySQLHost cfg) (MySQLPort cfg) v = (b, v1)" by fastforce
    obtain e v3 where 3: "restore_lifecycle_cmd X (MySQLStopCmd cfg) True
        (log_msg INFO ''log.msg.mysql_stopping'' [MySQLStopCmd cfg] v1) = (e, v3)" by fastforce
    obtain r where "waitForPortState X (MySQLHost cfg) (MySQLPort cfg) False (30 * Second) Second v3 = Some r"
      using wait [of Second] unfolding Second_def by fastforce
    with 1 3 show ?thesis by (cases b; cases e; cases r) (simp_all add: reinit_stop_def Let_def)
  qed
  have start: "reinit_start X cfg v \<noteq> None" for v :: "'a sysworld_scheme"
  proof -
    obtain e v2 where 2: "restore_lifecycle_cmd X (MySQLStartCmd cfg) False
        (log_msg INFO ''log.msg.mysql_starting'' [MySQLStartCmd cfg] v) = (e, v2)" by fastforce
    obtain r where "waitForPortState X (MySQLHost cfg) (MySQLPort cfg) True (60 * Second) (2 * Second) v2 = Some r"
      using wait [of "2 * Second"] unfolding Second_def by fastforce
    with 2 show ?thesis by (cases e; cases r) (simp_all add: reinit_start_def Let_def)
  qed
  have "FullReinit X F now cfg w \<noteq> None"
    using stop [of w] start unfolding FullReinit_def Let_def by (auto split: prod.splits option.splits)
  then show ?thesis by blast
qed

definition ex_starts :: extenv where
  "ex_starts = with_sleep_clock \<lparr>process = (\<lambda>_. \<lparr>combined = [], stdout = [], stderr = [], status = ExitOK, eaten = True\<rparr>),
     listens = (\<lambda>tr. Start ''start'' [] \<in> set tr), smtp_ok = (\<lambda>_. True), clock = (\<lambda>_. 0)\<rparr>"

definition ex_datadir :: sysworld where
  "ex_datadir = \<lparr>files = [(''/d'', Directory), (''/d/a'', File ''data'' 1), (''/t'', Directory), (''/t/a'', File ''empty'' 1)],
     logs = [], trace = []\<rparr>"

definition ex_reinit_cfg :: Config where
  "ex_reinit_cfg = DefaultConfig\<lparr>MySQLDataDir := ''/d'', MySQLBackupDir := ''/t'', MySQLStartCmd := ''start''\<rparr>"

definition ex_reinit :: "(goerr option \<times> sysworld) option" where
  "ex_reinit = FullReinit ex_starts (\<lambda>_ _. False) 7 ex_reinit_cfg ex_datadir"

lemma ex_reinit_ready: "reinit_ready ex_reinit_cfg (files ex_datadir)"
  by code_simp

lemma ex_reinit_ok: "FullReinit ex_starts (\<lambda>_ _. False) 7 ex_reinit_cfg ex_datadir = Some (None, snd (the ex_reinit))"
proof -
  have "map_option fst ex_reinit = Some None" by code_simp
  then show ?thesis unfolding ex_reinit_def by (auto simp: prod_eq_iff)
qed

theorem FullReinit_keeps_data_witness:
  "files (snd (the ex_reinit)) = files ex_datadir
    \<or> (\<forall>s. slashy s \<longrightarrow> map_of (files (snd (the ex_reinit))) (data_dir ex_reinit_cfg @ ''.old'' @ s)
         = map_of (files ex_datadir) (data_dir ex_reinit_cfg @ s))"
  by (rule FullReinit_keeps_data [OF ex_reinit_ok ex_reinit_ready])

theorem FullReinit_installs_template_witness:
  "map_of (files (snd (the ex_reinit))) (data_dir ex_reinit_cfg @ ''/a'')
     = map_option (copied 7) (map_of (files ex_datadir) (template_dir ex_reinit_cfg @ ''/a''))"
  by (rule FullReinit_installs_template [OF ex_reinit_ok ex_reinit_ready]) (simp_all add: slashy_def)

theorem FullReinit_ends_witness:
  "\<exists>r. FullReinit ex_starts (\<lambda>_ _. False) 7 ex_reinit_cfg ex_datadir = Some r"
  unfolding ex_starts_def by (rule FullReinit_ends [OF sleeping.moving_clock_axioms])

end
