(* ===== verification/Logger.thy ===== *)
theory Logger
  imports Go_OS
begin

text \<open>
  \<open>internal/logger/logger.go\<close>: the log file. The text of a line, that is the time and the
  formatted message, is given by the caller (\<open>time.Now\<close>, \<open>fmt.Sprintf\<close>); the lock around a
  write makes it one step. The other components use the log lines themselves
  (\<open>logs\<close> of the state) and not the file.
\<close>

text \<open>\<open>lfile\<close> is \<^const>\<open>None\<close> after \<open>Close\<close>. \<open>out\<close> is what was echoed to standard output.\<close>

record Logger =
  lfile :: "string option"
  lecho :: bool
  Verbose :: bool

record logstate =
  lfiles :: fs
  out :: string

definition New :: "faults \<Rightarrow> int \<Rightarrow> string \<Rightarrow> logstate \<Rightarrow> (oserr, Logger) result \<times> logstate" where
  "New F now path0 st =
     (let path = FromSlash path0 in
      case MkdirAll F (lfiles st) (Dir path) of
        Inl e \<Rightarrow> (Inl e, st)
      | Inr f \<Rightarrow>
          (case OpenAppend F f path now of
             Inl e \<Rightarrow> (Inl e, st\<lparr>lfiles := f\<rparr>)
           | Inr f' \<Rightarrow> (Inr \<lparr>lfile = Some path, lecho = True, Verbose = False\<rparr>, st\<lparr>lfiles := f'\<rparr>)))"

definition level_name :: "level \<Rightarrow> string" where
  "level_name l = (case l of INFO \<Rightarrow> ''INFO'' | WARN \<Rightarrow> ''WARN'' | ERROR \<Rightarrow> ''ERROR'' | DEBUG \<Rightarrow> ''DEBUG'')"

definition log_text :: "string \<Rightarrow> level \<Rightarrow> string \<Rightarrow> string" where
  "log_text timestamp l msg = timestamp @ '' ['' @ level_name l @ ''] '' @ msg @ [NL]"

text \<open>Appending to an open file; a failed write is ignored.\<close>

definition append_file :: "faults \<Rightarrow> int \<Rightarrow> string \<Rightarrow> string \<Rightarrow> fs \<Rightarrow> fs" where
  "append_file F now path text f =
     (if F f (OpWriteFile path) then f
      else (case map_of f path of
              Some (File c _) \<Rightarrow> fs_update path (File (c @ text) now) f
            | _ \<Rightarrow> f))"

definition logger_write :: "faults \<Rightarrow> int \<Rightarrow> string \<Rightarrow> Logger \<Rightarrow> level \<Rightarrow> string \<Rightarrow> logstate \<Rightarrow> logstate" where
  "logger_write F now timestamp l lvl msg st =
     (let line = log_text timestamp lvl msg;
          st1 = (case lfile l of None \<Rightarrow> st | Some path \<Rightarrow> st\<lparr>lfiles := append_file F now path line (lfiles st)\<rparr>)
      in if lecho l then st1\<lparr>out := out st1 @ line\<rparr> else st1)"

definition Info :: "faults \<Rightarrow> int \<Rightarrow> string \<Rightarrow> Logger \<Rightarrow> string \<Rightarrow> logstate \<Rightarrow> logstate" where
  "Info F now ts l msg st = logger_write F now ts l INFO msg st"

definition Warn :: "faults \<Rightarrow> int \<Rightarrow> string \<Rightarrow> Logger \<Rightarrow> string \<Rightarrow> logstate \<Rightarrow> logstate" where
  "Warn F now ts l msg st = logger_write F now ts l WARN msg st"

definition Error :: "faults \<Rightarrow> int \<Rightarrow> string \<Rightarrow> Logger \<Rightarrow> string \<Rightarrow> logstate \<Rightarrow> logstate" where
  "Error F now ts l msg st = logger_write F now ts l ERROR msg st"

definition Debug :: "faults \<Rightarrow> int \<Rightarrow> string \<Rightarrow> Logger \<Rightarrow> string \<Rightarrow> logstate \<Rightarrow> logstate" where
  "Debug F now ts l msg st = (if Verbose l then logger_write F now ts l DEBUG msg st else st)"

definition Close :: "faults \<Rightarrow> Logger \<Rightarrow> logstate \<Rightarrow> oserr option \<times> Logger" where
  "Close F l st =
     (case lfile l of
        None \<Rightarrow> (None, l)
      | Some p \<Rightarrow> (if F (lfiles st) (OpClose p) then Some ErrOther else None, l\<lparr>lfile := None\<rparr>))"

text \<open>
  The log file only grows: opening it keeps what it holds, and every line is added at its
  end, after which the file holds the old content and the line; other files do not change. A
  debug message changes nothing unless the logger is verbose, and a closed logger changes no
  file.
\<close>

theorem log_appends:
  assumes "map_of (lfiles st) path = Some (File c t)"
  shows "(New F now path st = (Inr l, st') \<longrightarrow> map_of (lfiles st') path = Some (File c t))
    \<and> (lfile l = Some path \<longrightarrow> \<not> F (lfiles st) (OpWriteFile path) \<longrightarrow>
         map_of (lfiles (logger_write F now ts l lvl msg st)) = (map_of (lfiles st))(path \<mapsto> File (c @ log_text ts lvl msg) now))
    \<and> (\<not> Verbose l \<longrightarrow> Debug F now ts l msg st = st)
    \<and> lfiles (logger_write F now ts (snd (Close F l st)) lvl msg st) = lfiles st"
proof -
  have "map_of (lfiles st') path = Some (File c t)" if "New F now path st = (Inr l, st')"
  proof -
    from that obtain f where f: "MkdirAll F (lfiles st) (Dir path) = Inr f" "OpenAppend F f path now = Inr (lfiles st')"
      by (auto simp: New_def FromSlash_def Let_def split: sum.splits)
    then have "map_of f path = Some (File c t)"
      using assms by (auto simp: MkdirAll_def split: option.splits node.splits if_splits)
    with f(2) show ?thesis by (auto simp: OpenAppend_def split: if_splits)
  qed
  moreover have "map_of (lfiles (logger_write F now ts l lvl msg st)) = (map_of (lfiles st))(path \<mapsto> File (c @ log_text ts lvl msg) now)"
    if "lfile l = Some path" "\<not> F (lfiles st) (OpWriteFile path)"
    using assms that by (simp add: logger_write_def append_file_def Let_def)
  moreover have "lfiles (logger_write F now ts (snd (Close F l st)) lvl msg st) = lfiles st"
    by (simp add: logger_write_def Close_def Let_def split: option.split)
  ultimately show ?thesis by (simp add: Debug_def)
qed

definition ex_logfile :: logstate where
  "ex_logfile = \<lparr>lfiles = [(''log'', File ''a'' 1)], out = []\<rparr>"

theorem log_appends_witness:
  "map_of (lfiles (logger_write (\<lambda>_ _. False) 2 ''T'' \<lparr>lfile = Some ''log'', lecho = True, Verbose = False\<rparr> INFO ''m'' ex_logfile))
     = (map_of (lfiles ex_logfile))(''log'' \<mapsto> File (''a'' @ log_text ''T'' INFO ''m'') 2)"
  using log_appends [of ex_logfile "''log''" "''a''" 1 "\<lambda>_ _. False" 2
      "\<lparr>lfile = Some ''log'', lecho = True, Verbose = False\<rparr>" ex_logfile "''T''" INFO "''m''"]
  by (simp add: ex_logfile_def)

end
