(* ===== verification/Schedule.thy ===== *)
theory Schedule
  imports Go_Exec Config
begin

text \<open>
  \<open>internal/schedule/schedule.go\<close> on Unix: the daily backup as a systemd timer of the user, as
  a line of the crontab of the user, or as a line of the crontab of the system; its status and
  its removal. The programs \<open>systemctl\<close> and \<open>crontab\<close> are part of the outside world. The part
  for Windows is in \<open>Schedule_Windows\<close>.
\<close>

subsection \<open>Commands\<close>

definition serviceName :: string where
  "serviceName = ''mysqlbackup''"

definition cronMarker :: string where
  "cronMarker = ''mysqlbackup-schedule''"

definition systemCrontabUser :: string where
  "systemCrontabUser = ''root''"

definition systemCrontabPaths :: "string list" where
  "systemCrontabPaths = [''/etc/crontab'', ''/usr/etc/crontab'']"

text \<open>
  The logger of a function: \<^const>\<open>None\<close> is the nil pointer, \<^term>\<open>Some verbose\<close> a logger. An
  error of a command is logged without its text.
\<close>

type_synonym log_arg = "bool option"

definition runWithDebug ::
  "extenv \<Rightarrow> log_arg \<Rightarrow> string \<Rightarrow> string list \<Rightarrow> 'a sysworld_scheme \<Rightarrow> reply \<times> 'a sysworld_scheme"
where
  "runWithDebug X log name args w =
     (let w1 = (if log = Some True then log_msg DEBUG ''exec: %s %v'' (name # args) w else w)
      in case run_cmd X name args [] w1 of (r, w2) \<Rightarrow>
           (r, if log = Some True then
                 (let w3 = (if combined r \<noteq> [] then log_msg DEBUG ''output: %s'' [combined r] w2 else w2)
                  in if status r \<noteq> ExitOK then log_msg DEBUG ''exit: %v'' [] w3 else w3)
               else w2))"

subsection \<open>The crontab\<close>

text \<open>\<open>getCrontab\<close>: exit status 1 is an empty crontab.\<close>

definition getCrontab :: "extenv \<Rightarrow> 'a sysworld_scheme \<Rightarrow> (exit, bytes) result \<times> 'a sysworld_scheme" where
  "getCrontab X w =
     (case run_cmd X ''crontab'' [''-l''] [] w of (r, w1) \<Rightarrow>
        (if status r = ExitOK then Inr (stdout r)
         else if status r = ExitStatus 1 then Inr []
         else Inl (status r), w1))"

definition setCrontab :: "extenv \<Rightarrow> bytes \<Rightarrow> 'a sysworld_scheme \<Rightarrow> exit \<times> 'a sysworld_scheme" where
  "setCrontab X data w = (case run_cmd X ''crontab'' [''-''] data w of (r, w1) \<Rightarrow> (status r, w1))"

text \<open>
  The loop over the lines of a crontab: \<^const>\<open>None\<close> where the line is there already, otherwise
  the two flags and the new text.
\<close>

fun cron_loop :: "string \<Rightarrow> bool \<Rightarrow> bool \<Rightarrow> bytes \<Rightarrow> string list \<Rightarrow> (bool \<times> bool \<times> bytes) option" where
  "cron_loop cronLine foundMarker replaced buf [] = Some (foundMarker, replaced, buf)"
| "cron_loop cronLine foundMarker replaced buf (line # ls) =
     (let lineStr = TrimSpace line in
      if Contains lineStr cronMarker then
        (if lineStr = cronLine then None
         else if \<not> replaced then cron_loop cronLine True True (buf @ cronLine @ [NL]) ls
         else cron_loop cronLine True replaced buf ls)
      else cron_loop cronLine foundMarker replaced (buf @ line @ [NL]) ls)"

datatype cron_change = Present | ScanErr | Unchanged | NewTable bytes

definition cron_update :: "string \<Rightarrow> bytes \<Rightarrow> cron_change" where
  "cron_update cronLine existing =
     (case ScanLines MaxScanTokenSize existing of (ls, tooLong) \<Rightarrow>
        (case cron_loop cronLine False False [] ls of
           None \<Rightarrow> Present
         | Some (foundMarker, replaced, buf) \<Rightarrow>
             if tooLong then ScanErr
             else if \<not> foundMarker then NewTable (buf @ cronLine @ [NL])
             else if \<not> replaced then Unchanged
             else NewTable buf))"

text \<open>\<open>strconv.Atoi\<close> for 64-bit integers.\<close>

definition Atoi :: "string \<Rightarrow> int option" where
  "Atoi s =
     (let neg = HasPrefix s ''-'';
          ds = (if neg \<or> HasPrefix s ''+'' then tl s else s);
          v = (if neg then - digits_val ds else digits_val ds)
      in if ds \<noteq> [] \<and> list_all is_digit ds \<and> - (2 ^ 63) \<le> v \<and> v < 2 ^ 63 then Some v else None)"

definition quoteForCron :: "string \<Rightarrow> string" where
  "quoteForCron s = [squote] @ ReplaceAll s squote [backslash, squote] @ [squote]"

text \<open>The hour and the minute of a crontab line.\<close>

definition cron_time :: "string \<Rightarrow> int \<times> int" where
  "cron_time start =
     (let t = TrimSpace start; parts = SplitN t (CHR '':'') 2 in
      if t \<noteq> [] \<and> 2 \<le> length parts then
        ((case Atoi (TrimSpace (parts ! 0)) of Some h \<Rightarrow> if 0 \<le> h \<and> h \<le> 23 then h else 22 | None \<Rightarrow> 22),
         (case Atoi (TrimSpace (parts ! 1)) of Some m \<Rightarrow> if 0 \<le> m \<and> m \<le> 59 then m else 0 | None \<Rightarrow> 0))
      else (22, 0))"

definition cronLineUser :: "int \<Rightarrow> int \<Rightarrow> string \<Rightarrow> string \<Rightarrow> string" where
  "cronLineUser hour minute exe configPath =
     Itoa minute @ '' '' @ Itoa hour @ '' * * * '' @ quoteForCron exe @ '' --backup -config '' @ quoteForCron configPath
     @ '' # '' @ cronMarker"

definition cronLineSystem :: "int \<Rightarrow> int \<Rightarrow> string \<Rightarrow> string \<Rightarrow> string" where
  "cronLineSystem hour minute exe configPath =
     Itoa minute @ '' '' @ Itoa hour @ '' * * * '' @ systemCrontabUser @ '' '' @ quoteForCron exe @ '' --backup -config ''
     @ quoteForCron configPath @ '' # '' @ cronMarker"

text \<open>The first of the files that can be read, or the error of the last.\<close>

fun first_readable :: "faults \<Rightarrow> fs \<Rightarrow> string list \<Rightarrow> oserr \<Rightarrow> (oserr, string \<times> bytes) result" where
  "first_readable F f [] e = Inl e"
| "first_readable F f (p # ps) e =
     (case ReadFile F f p of Inr data \<Rightarrow> Inr (p, data) | Inl e' \<Rightarrow> first_readable F f ps e')"

definition ensureUnixCronSystemFile ::
  "faults \<Rightarrow> int \<Rightarrow> int \<Rightarrow> int \<Rightarrow> string \<Rightarrow> 'a sysworld_scheme \<Rightarrow> goerr option \<times> 'a sysworld_scheme"
where
  "ensureUnixCronSystemFile F now hour minute cronLine w =
     (case first_readable F (files w) systemCrontabPaths ErrOther of
        Inl e \<Rightarrow> (Some (Err ''err.crontab_manual'' [cronLine] (Some (OSErr e))), w)
      | Inr (path, data) \<Rightarrow>
          (case cron_update cronLine data of
             Present \<Rightarrow> (None, log_msg INFO ''log.msg.cron_present_file'' [path] w)
           | ScanErr \<Rightarrow> (Some (Err ''err.crontab_manual'' [cronLine] (Some TooLong)), w)
           | Unchanged \<Rightarrow> (None, w)
           | NewTable c \<Rightarrow>
               (case WriteFile F (files w) path c now of
                  Inl e \<Rightarrow> (Some (Err ''err.write_cron_need_root'' [path, cronLine] (Some (OSErr e))), w)
                | Inr f \<Rightarrow> (None, log_msg INFO ''log.msg.cron_added_file'' [path, Itoa hour, Itoa minute] (w\<lparr>files := f\<rparr>)))))"

definition ensureUnixCron ::
  "extenv \<Rightarrow> procenv \<Rightarrow> faults \<Rightarrow> int \<Rightarrow> Config \<Rightarrow> string \<Rightarrow> 'a sysworld_scheme \<Rightarrow> goerr option \<times> 'a sysworld_scheme"
where
  "ensureUnixCron X P F now cfg configPath w =
     (case Executable P of
        None \<Rightarrow> (Some (Err ''err.executable_path'' [] None), w)
      | Some exe0 \<Rightarrow>
          let exe = Clean exe0;
              (hour, minute) = cron_time (StartTime cfg);
              system = ensureUnixCronSystemFile F now hour minute (cronLineSystem hour minute exe configPath)
          in case getCrontab X w of
               (Inl e, w1) \<Rightarrow>
                 if e = ErrNotFound then system w1
                 else (Some (Err ''err.crontab_l'' [] (Some (ExitErr e))), w1)
             | (Inr existing, w1) \<Rightarrow>
                 (case cron_update (cronLineUser hour minute exe configPath) existing of
                    Present \<Rightarrow> (None, log_msg INFO ''log.msg.cron_present'' [] w1)
                  | ScanErr \<Rightarrow> (Some (Err ''err.crontab_l'' [] (Some TooLong)), w1)
                  | Unchanged \<Rightarrow> (None, w1)
                  | NewTable c \<Rightarrow>
                      (case setCrontab X c w1 of (e, w2) \<Rightarrow>
                         if e = ErrNotFound then system w2
                         else if e \<noteq> ExitOK then (Some (Err ''err.crontab'' [] (Some (ExitErr e))), w2)
                         else (None, log_msg INFO ''log.msg.cron_added'' [Itoa hour, Itoa minute] w2))))"

subsection \<open>systemd\<close>

definition unit_lines :: "string list \<Rightarrow> string" where
  "unit_lines ls = concat (map (\<lambda>l. l @ [NL]) ls)"

definition service_content :: "string \<Rightarrow> string \<Rightarrow> string" where
  "service_content exe configPath = unit_lines
     [''[Unit]'', ''Description=MySQL Backup'', ''After=network.target'', [], ''[Service]'', ''Type=oneshot'',
      ''ExecStart='' @ exe @ '' --backup -config '' @ configPath, ''WorkingDirectory='' @ Dir configPath, [],
      ''[Install]'', ''WantedBy=default.target'']"

definition onCalendar :: "string \<Rightarrow> string" where
  "onCalendar start =
     (let startTime = (if start = [] then ''22:00'' else start);
          parts = SplitN startTime (CHR '':'') 2;
          (hour, minute) = (if 2 \<le> length parts then (TrimSpace (parts ! 0), TrimSpace (parts ! 1)) else (''22'', ''00''))
      in ''*-*-* '' @ hour @ '':'' @ minute @ '':00'')"

definition timer_content :: "string \<Rightarrow> string" where
  "timer_content calendar = unit_lines
     [''[Unit]'', ''Description=Run MySQL Backup daily'', [], ''[Timer]'', ''OnCalendar='' @ calendar, ''Persistent=true'', [],
      ''[Install]'', ''WantedBy=timers.target'']"

definition userDir_of :: "string \<Rightarrow> string" where
  "userDir_of home = Join (Join (Join home ''.config'') ''systemd'') ''user''"

definition timerPath_of :: "string \<Rightarrow> string" where
  "timerPath_of home = Join (userDir_of home) (serviceName @ ''.timer'')"

definition servicePath_of :: "string \<Rightarrow> string" where
  "servicePath_of home = Join (userDir_of home) (serviceName @ ''.service'')"

definition ensureLinuxSystemd ::
  "procenv \<Rightarrow> faults \<Rightarrow> int \<Rightarrow> Config \<Rightarrow> string \<Rightarrow> 'a sysworld_scheme \<Rightarrow> goerr option \<times> 'a sysworld_scheme"
where
  "ensureLinuxSystemd P F now cfg configPath w =
     (case UserHomeDir P of
        None \<Rightarrow> (Some (Err ''err.home_dir'' [] None), w)
      | Some home \<Rightarrow>
          (case Executable P of
             None \<Rightarrow> (Some (Err ''err.executable_path'' [] None), w)
           | Some exe0 \<Rightarrow>
               (case MkdirAll F (files w) (userDir_of home) of
                  Inl e \<Rightarrow> (Some (Err ''err.mkdir_systemd_user'' [] (Some (OSErr e))), w)
                | Inr f1 \<Rightarrow>
                    (case WriteFile F f1 (servicePath_of home) (service_content (Clean exe0) configPath) now of
                       Inl e \<Rightarrow> (Some (Err ''err.write_service'' [] (Some (OSErr e))), w\<lparr>files := f1\<rparr>)
                     | Inr f2 \<Rightarrow>
                         (case WriteFile F f2 (timerPath_of home) (timer_content (onCalendar (StartTime cfg))) now of
                            Inl e \<Rightarrow> (Some (Err ''err.write_timer'' [] (Some (OSErr e))), w\<lparr>files := f2\<rparr>)
                          | Inr f3 \<Rightarrow>
                              (None, log_msg INFO ''log.msg.systemd_created'' [userDir_of home, serviceName] (w\<lparr>files := f3\<rparr>)))))))"

definition systemdUserAvailable :: "extenv \<Rightarrow> log_arg \<Rightarrow> 'a sysworld_scheme \<Rightarrow> bool \<times> 'a sysworld_scheme" where
  "systemdUserAvailable X log w =
     (case runWithDebug X log ''systemctl'' [''--user'', ''list-timers'', ''--no-legend''] w of (r, w1) \<Rightarrow> (status r = ExitOK, w1))"

definition ensureUnix ::
  "extenv \<Rightarrow> procenv \<Rightarrow> faults \<Rightarrow> int \<Rightarrow> Config \<Rightarrow> string \<Rightarrow> bool \<Rightarrow> 'a sysworld_scheme \<Rightarrow> goerr option \<times> 'a sysworld_scheme"
where
  "ensureUnix X P F now cfg configPath verbose w =
     (case UserHomeDir P of
        None \<Rightarrow> (Some (Err ''err.home_dir'' [] None), w)
      | Some home \<Rightarrow>
          (case Stat F (files w) (timerPath_of home) of
             Inr _ \<Rightarrow> (None, log_msg INFO ''log.msg.systemd_exists'' [timerPath_of home] w)
           | Inl _ \<Rightarrow>
               (case systemdUserAvailable X (Some verbose) w of
                  (True, w1) \<Rightarrow> ensureLinuxSystemd P F now cfg configPath w1
                | (False, w1) \<Rightarrow>
                    ensureUnixCron X P F now cfg configPath (log_msg WARN ''log.warn.systemd_fallback'' [] w1))))"

subsection \<open>Status and removal\<close>

text \<open>The lines of a crontab without those of the program; \<^const>\<open>None\<close> is a line too long.\<close>

definition drop_marked :: "bytes \<Rightarrow> bytes option" where
  "drop_marked data =
     (case ScanLines MaxScanTokenSize data of (ls, tooLong) \<Rightarrow>
        if tooLong then None
        else Some (unit_lines (filter (\<lambda>l. \<not> Contains l cronMarker) ls)))"

definition systemCrontabHasMarker :: "faults \<Rightarrow> fs \<Rightarrow> bool" where
  "systemCrontabHasMarker F f =
     list_ex (\<lambda>p. case ReadFile F f p of Inl _ \<Rightarrow> False | Inr data \<Rightarrow> Contains data cronMarker) systemCrontabPaths"

definition crontabHasMarker :: "extenv \<Rightarrow> faults \<Rightarrow> 'a sysworld_scheme \<Rightarrow> bool \<times> 'a sysworld_scheme" where
  "crontabHasMarker X F w =
     (case getCrontab X w of
        (Inr data, w1) \<Rightarrow> (Contains data cronMarker \<or> systemCrontabHasMarker F (files w1), w1)
      | (Inl _, w1) \<Rightarrow> (systemCrontabHasMarker F (files w1), w1))"

definition Status ::
  "extenv \<Rightarrow> procenv \<Rightarrow> faults \<Rightarrow> Config \<Rightarrow> string \<Rightarrow> 'a sysworld_scheme \<Rightarrow> (string \<times> string list) \<times> 'a sysworld_scheme"
where
  "Status X P F cfg configPath w =
     (let startTime = (if StartTime cfg = [] then ''22:00'' else StartTime cfg) in
      case UserHomeDir P of
        None \<Rightarrow> (([], []), w)
      | Some home \<Rightarrow>
          (case Stat F (files w) (timerPath_of home) of
             Inr _ \<Rightarrow> ((''job.systemd'', [timerPath_of home, startTime, serviceName, configPath]), w)
           | Inl _ \<Rightarrow>
               (case crontabHasMarker X F w of
                  (True, w1) \<Rightarrow>
                    ((''job.cron'', [startTime, (case Executable P of None \<Rightarrow> [] | Some e \<Rightarrow> e), configPath]), w1)
                | (False, w1) \<Rightarrow> (([], []), w1))))"

fun remove_system :: "faults \<Rightarrow> int \<Rightarrow> string list \<Rightarrow> 'a sysworld_scheme \<Rightarrow> goerr option \<times> 'a sysworld_scheme" where
  "remove_system F now [] w = (None, w)"
| "remove_system F now (path # ps) w =
     (case ReadFile F (files w) path of
        Inl _ \<Rightarrow> remove_system F now ps w
      | Inr data \<Rightarrow>
          if \<not> Contains data cronMarker then remove_system F now ps w
          else (case drop_marked data of
                  None \<Rightarrow> (Some TooLong, w)
                | Some out \<Rightarrow>
                    (case WriteFile F (files w) path out now of
                       Inl e \<Rightarrow> (Some (Err ''err.write_path'' [path] (Some (OSErr e))), w)
                     | Inr f \<Rightarrow> (None, w\<lparr>files := f\<rparr>))))"

definition removeSystemCrontabMarker :: "faults \<Rightarrow> int \<Rightarrow> 'a sysworld_scheme \<Rightarrow> goerr option \<times> 'a sysworld_scheme" where
  "removeSystemCrontabMarker F now w = remove_system F now systemCrontabPaths w"

definition removeCrontabMarker ::
  "extenv \<Rightarrow> faults \<Rightarrow> int \<Rightarrow> 'a sysworld_scheme \<Rightarrow> goerr option \<times> 'a sysworld_scheme"
where
  "removeCrontabMarker X F now w =
     (case getCrontab X w of
        (Inl _, w1) \<Rightarrow> removeSystemCrontabMarker F now w1
      | (Inr data, w1) \<Rightarrow>
          if Contains data cronMarker then
            (case drop_marked data of
               None \<Rightarrow> (Some TooLong, w1)
             | Some out \<Rightarrow>
                 (case setCrontab X out w1 of (e, w2) \<Rightarrow>
                    if e \<noteq> ExitOK then (Some (ExitErr e), w2) else removeSystemCrontabMarker F now w2))
          else removeSystemCrontabMarker F now w1)"

definition log_info :: "log_arg \<Rightarrow> string \<Rightarrow> string list \<Rightarrow> 'a world_scheme \<Rightarrow> 'a world_scheme" where
  "log_info log key args w = (case log of None \<Rightarrow> w | Some _ \<Rightarrow> log_msg INFO key args w)"

definition try_remove :: "faults \<Rightarrow> string \<Rightarrow> 'a world_scheme \<Rightarrow> 'a world_scheme" where
  "try_remove F p w = (case Remove F (files w) p of Inl _ \<Rightarrow> w | Inr f \<Rightarrow> w\<lparr>files := f\<rparr>)"

definition Uninstall ::
  "extenv \<Rightarrow> procenv \<Rightarrow> faults \<Rightarrow> int \<Rightarrow> log_arg \<Rightarrow> 'a sysworld_scheme \<Rightarrow> goerr option \<times> 'a sysworld_scheme"
where
  "Uninstall X P F now log w =
     (case UserHomeDir P of
        None \<Rightarrow> (Some (Text ''home''), w)
      | Some home \<Rightarrow>
          let hadSystemd = (case Stat F (files w) (timerPath_of home) of Inr _ \<Rightarrow> True | Inl _ \<Rightarrow> False);
              w1 = try_remove F (servicePath_of home) (try_remove F (timerPath_of home) w);
              w2 = (if hadSystemd
                    then log_info log ''systemd timer and service files removed from %s; run: systemctl --user daemon-reload''
                           [userDir_of home] w1
                    else w1)
          in case crontabHasMarker X F w2 of
               (False, w3) \<Rightarrow> (None, w3)
             | (True, w3) \<Rightarrow>
                 (case removeCrontabMarker X F now w3 of
                    (Some e, w4) \<Rightarrow> (Some (Err ''err.remove_cron'' [] (Some e)), w4)
                  | (None, w4) \<Rightarrow> (None, log_info log ''cron entry for mysqlbackup removed'' [] w4)))"

subsection \<open>Lines of a crontab\<close>

abbreviation CR_char :: char where "CR_char \<equiv> CHR 0x0D"

definition lines_of :: "bytes \<Rightarrow> string list" where
  "lines_of d = fst (ScanLines MaxScanTokenSize d)"

text \<open>A line that a crontab can hold: it is read back as it was written.\<close>

definition plain_line :: "string \<Rightarrow> bool" where
  "plain_line l \<longleftrightarrow> NL \<notin> set l \<and> CR_char \<notin> set l \<and> int (length l) < MaxScanTokenSize"

lemma dropCR_plain: "CR_char \<notin> set l \<Longrightarrow> dropCR l = l"
  by (cases l rule: rev_cases) (auto simp: dropCR_def)

lemma set_drop_NL: "set (drop (Suc n) s) \<subseteq> set s"
  by (meson set_drop_subset)

lemma ScanLines_plain:
  "CR_char \<notin> set d \<Longrightarrow> ScanLines MaxScanTokenSize d = (ls, b) \<Longrightarrow> list_all plain_line ls"
proof (induction "length d" arbitrary: d ls b rule: less_induct)
  case less
  show ?case
  proof (cases "d = []")
    case True
    then show ?thesis using less.prems by (simp add: ScanLines.simps)
  next
    case False
    define l where "l = takeWhile (\<lambda>c. c \<noteq> NL) d"
    obtain ls1 b1 where 1: "ScanLines MaxScanTokenSize (drop (Suc (length l)) d) = (ls1, b1)" by fastforce
    have cr: "CR_char \<notin> set l" "CR_char \<notin> set (drop (Suc (length l)) d)"
      using less.prems(1) by (auto simp: l_def dest: set_takeWhileD in_set_dropD)
    have nl: "NL \<notin> set l" by (auto simp: l_def dest: set_takeWhileD)
    have "list_all plain_line ls1" by (rule less.hyps [OF _ cr(2) 1]) (use False in simp)
    moreover have "(ls, b) = (if MaxScanTokenSize \<le> int (length l) then ([], True) else (dropCR l # ls1, b1))"
      using less.prems(2) False 1 by (subst (asm) ScanLines.simps) (auto simp: l_def Let_def split: if_splits)
    ultimately show ?thesis using cr(1) nl by (auto simp: plain_line_def dropCR_plain split: if_splits)
  qed
qed

lemma ScanLines_unit_lines:
  "list_all plain_line ls \<Longrightarrow> ScanLines MaxScanTokenSize (unit_lines ls) = (ls, False)"
proof (induction ls)
  case Nil
  then show ?case by (simp add: unit_lines_def ScanLines.simps)
next
  case (Cons l ls)
  have "takeWhile (\<lambda>c. c \<noteq> NL) (l @ NL # r) = l" for r using Cons.prems by (auto simp: plain_line_def takeWhile_append)
  then show ?case using Cons
    by (subst ScanLines.simps) (simp add: unit_lines_def plain_line_def dropCR_plain Let_def)
qed

subsection \<open>The job in a crontab\<close>

definition marked :: "string \<Rightarrow> bool" where
  "marked l \<longleftrightarrow> Contains (TrimSpace l) cronMarker"

lemma unit_lines_snoc [simp]: "unit_lines (xs @ ys) = unit_lines xs @ unit_lines ys" "unit_lines [] = []"
  "unit_lines (l # ls) = l @ NL # unit_lines ls"
  by (simp_all add: unit_lines_def)

text \<open>What the loop writes, after the first line of the program and before it.\<close>

lemma cron_loop_after:
  assumes "cron_loop line True True buf ls = Some (found, replaced, new)"
  shows "found \<and> replaced \<and> new = buf @ unit_lines (filter (\<lambda>l. \<not> marked l) ls)"
  using assms
proof (induction ls arbitrary: buf)
  case (Cons l ls)
  then show ?case using Cons.IH [of buf] Cons.IH [of "buf @ l @ [NL]"] by (auto simp: Let_def marked_def split: if_splits)
qed simp

lemma cron_loop_before:
  assumes "cron_loop line False False buf ls = Some (found, replaced, new)"
  shows "(\<not> found \<and> \<not> replaced \<and> list_all (\<lambda>l. \<not> marked l) ls \<and> new = buf @ unit_lines ls) \<or>
    (found \<and> replaced \<and> (\<exists>pre l post. ls = pre @ l # post \<and> list_all (\<lambda>l. \<not> marked l) pre \<and> marked l
       \<and> new = buf @ unit_lines (pre @ line # filter (\<lambda>l. \<not> marked l) post)))"
  using assms
proof (induction ls arbitrary: buf)
  case (Cons l ls)
  show ?case
  proof (cases "marked l")
    case True
    then have "cron_loop line True True (buf @ line @ [NL]) ls = Some (found, replaced, new)"
      using Cons.prems by (auto simp: Let_def marked_def split: if_splits)
    from cron_loop_after [OF this] show ?thesis
      using True by (intro disjI2 conjI exI [of _ "[]"] exI [of _ l] exI [of _ ls]) auto
  next
    case False
    then have "cron_loop line False False (buf @ l @ [NL]) ls = Some (found, replaced, new)"
      using Cons.prems by (auto simp: Let_def marked_def split: if_splits)
    from Cons.IH [OF this] show ?thesis
    proof
      assume "found \<and> replaced \<and> (\<exists>pre l' post. ls = pre @ l' # post \<and> list_all (\<lambda>l. \<not> marked l) pre \<and> marked l'
       \<and> new = (buf @ l @ [NL]) @ unit_lines (pre @ line # filter (\<lambda>l. \<not> marked l) post))"
      then obtain pre l' post where "found" "replaced" "ls = pre @ l' # post" "list_all (\<lambda>l. \<not> marked l) pre" "marked l'"
        "new = (buf @ l @ [NL]) @ unit_lines (pre @ line # filter (\<lambda>l. \<not> marked l) post)" by blast
      then show ?thesis using False
        by (intro disjI2 conjI exI [of _ "l # pre"] exI [of _ l'] exI [of _ post]) auto
    qed (use False in auto)
  qed
qed auto

lemma cron_loop_present:
  "line \<in> TrimSpace ` set ls \<Longrightarrow> Contains line cronMarker \<Longrightarrow> cron_loop line found replaced buf ls = None"
  by (induction ls arbitrary: found replaced buf) (auto simp: Let_def)

lemma cron_loop_None:
  "cron_loop line found replaced buf ls = None \<Longrightarrow> line \<in> TrimSpace ` set ls"
  by (induction ls arbitrary: found replaced buf) (auto simp: Let_def split: if_splits)

text \<open>A line for the job.\<close>

definition job_line :: "string \<Rightarrow> bool" where
  "job_line line \<longleftrightarrow> plain_line line \<and> TrimSpace line = line \<and> Contains line cronMarker"

lemma cron_update_new:
  assumes "cron_update line d = NewTable new" "job_line line" "CR_char \<notin> set d"
  shows "lines_of new = takeWhile (\<lambda>l. \<not> marked l) (lines_of d) @ line # filter (\<lambda>l. \<not> marked l) (dropWhile (\<lambda>l. \<not> marked l) (lines_of d))"
proof -
  obtain ls b where S: "ScanLines MaxScanTokenSize d = (ls, b)" by fastforce
  note pl = ScanLines_plain [OF assms(3) S]
  obtain found replaced buf where L: "cron_loop line False False [] ls = Some (found, replaced, buf)"
    and new: "new = (if found then buf else buf @ line @ [NL])"
    using assms(1) S by (auto simp: cron_update_def split: option.splits if_splits)
  have "new = unit_lines (takeWhile (\<lambda>l. \<not> marked l) ls @ line # filter (\<lambda>l. \<not> marked l) (dropWhile (\<lambda>l. \<not> marked l) ls))"
    using cron_loop_before [OF L]
  proof
    assume a: "\<not> found \<and> \<not> replaced \<and> list_all (\<lambda>l. \<not> marked l) ls \<and> buf = [] @ unit_lines ls"
    then have t: "takeWhile (\<lambda>l. \<not> marked l) ls = ls" "dropWhile (\<lambda>l. \<not> marked l) ls = []" by (auto simp: list_all_iff)
    show ?thesis unfolding t using a new by simp
  next
    assume "found \<and> replaced \<and> (\<exists>pre l post. ls = pre @ l # post \<and> list_all (\<lambda>l. \<not> marked l) pre \<and> marked l
       \<and> buf = [] @ unit_lines (pre @ line # filter (\<lambda>l. \<not> marked l) post))"
    then obtain pre l post where x: "found" "ls = pre @ l # post" "list_all (\<lambda>l. \<not> marked l) pre" "marked l"
      "buf = unit_lines (pre @ line # filter (\<lambda>l. \<not> marked l) post)" by auto
    then have t: "takeWhile (\<lambda>l. \<not> marked l) ls = pre" "dropWhile (\<lambda>l. \<not> marked l) ls = l # post"
      by (auto simp: list_all_iff takeWhile_append dropWhile_append)
    show ?thesis unfolding t using x new by simp
  qed
  moreover have ok: "list_all plain_line (takeWhile (\<lambda>l. \<not> marked l) ls @ line # filter (\<lambda>l. \<not> marked l) (dropWhile (\<lambda>l. \<not> marked l) ls))"
    using pl assms(2) by (auto simp: job_line_def list_all_iff dest: set_takeWhileD set_dropWhileD)
  ultimately show ?thesis
    using ScanLines_unit_lines [OF ok] S by (simp add: lines_of_def)
qed

text \<open>The other lines stay as they are, and the line of the job is the only one with the mark.\<close>

lemma cron_update_lines:
  assumes "cron_update line d = NewTable new" "job_line line" "CR_char \<notin> set d"
  shows "filter (\<lambda>l. \<not> marked l) (lines_of new) = filter (\<lambda>l. \<not> marked l) (lines_of d)" "filter marked (lines_of new) = [line]"
    "cron_update line new = Present"
proof -
  let ?u = "\<lambda>l. \<not> marked l" and ?ls = "lines_of d"
  note n = cron_update_new [OF assms]
  have m: "marked line" using assms(2) by (simp add: job_line_def marked_def)
  have t: "filter ?u (takeWhile ?u ?ls) = takeWhile ?u ?ls" "filter marked (takeWhile ?u ?ls) = []"
    by (auto simp: filter_id_conv filter_empty_conv dest: set_takeWhileD)
  have "filter ?u ?ls = takeWhile ?u ?ls @ filter ?u (dropWhile ?u ?ls)"
    by (metis filter_append t(1) takeWhile_dropWhile_id)
  then show "filter ?u (lines_of new) = filter ?u ?ls" using n m t by simp
  show "filter marked (lines_of new) = [line]" using n m t by simp
  have "line \<in> TrimSpace ` set (lines_of new)" using n assms(2) by (force simp: job_line_def)
  then have "cron_loop line False False [] (lines_of new) = None"
    using cron_loop_present assms(2) by (simp add: job_line_def)
  then show "cron_update line new = Present" by (cases "ScanLines MaxScanTokenSize new") (simp add: cron_update_def lines_of_def)
qed

lemma cron_update_present:
  assumes "cron_update line d = Present" shows "line \<in> TrimSpace ` set (lines_of d)"
  using assms cron_loop_None [of line False False "[]" "lines_of d"]
  by (cases "ScanLines MaxScanTokenSize d") (auto simp: cron_update_def lines_of_def split: option.splits if_splits)

lemma cron_update_not_unchanged: "cron_update line d \<noteq> Unchanged"
proof -
  obtain ls b where S: "ScanLines MaxScanTokenSize d = (ls, b)" by fastforce
  have "found \<longleftrightarrow> replaced" if "cron_loop line False False [] ls = Some (found, replaced, new)" for found replaced new
    using cron_loop_before [OF that] by blast
  then show ?thesis using S by (auto simp: cron_update_def split: option.splits if_splits)
qed

subsection \<open>The program crontab\<close>

text \<open>
  What \<open>crontab\<close> promises: it has one table, which the option \<open>-l\<close> lists and which only the
  call with \<open>-\<close> replaces, by its input.
\<close>

locale cron_tool =
  fixes X :: extenv and table :: "event list \<Rightarrow> bytes"
  assumes list_table: "r = process X (tr @ [Exec ''crontab'' [''-l''] []]) \<Longrightarrow>
      status r = ExitOK \<and> stdout r = table tr \<or> status r = ExitStatus 1 \<and> table tr = []"
    and set_table: "status (process X (tr @ [Exec ''crontab'' [''-''] d])) = ExitOK \<Longrightarrow>
      table (tr @ [Exec ''crontab'' [''-''] d]) = d"
    and other_event: "\<nexists>d. e = Exec ''crontab'' [''-''] d \<Longrightarrow> table (tr @ [e]) = table tr"
begin

lemma getCrontab_table: "getCrontab X w = (Inr (table (trace w)), emit (Exec ''crontab'' [''-l''] []) w)"
  using list_table [OF refl, of "trace w"] by (auto simp: getCrontab_def run_cmd_def Let_def)

lemma table_list [simp]: "table (tr @ [Exec ''crontab'' [''-l''] []]) = table tr"
  by (rule other_event) simp

lemma setCrontab_table: "setCrontab X d w = (ExitOK, w') \<Longrightarrow> table (trace w') = d \<and> files w' = files w"
  using set_table by (auto simp: setCrontab_def run_cmd_def Let_def)

end

context cron_tool
begin

lemma ensureUnixCron_table:
  assumes "ensureUnixCron X P F now cfg configPath w = (None, w')" "Executable P = Some exe"
    and "cron_time (StartTime cfg) = (hour, minute)" "line = cronLineUser hour minute (Clean exe) configPath"
    and "job_line line" "CR_char \<notin> set (table (trace w))"
    and "\<And>tr d. status (process X (tr @ [Exec ''crontab'' [''-''] d])) \<noteq> ErrNotFound"
  shows "line \<in> TrimSpace ` set (lines_of (table (trace w'))) \<and>
    filter (\<lambda>l. \<not> marked l) (lines_of (table (trace w'))) = filter (\<lambda>l. \<not> marked l) (lines_of (table (trace w))) \<and> files w' = files w"
proof (cases "cron_update line (table (trace w))")
  case Present
  then have "w' = log_msg INFO ''log.msg.cron_present'' [] (emit (Exec ''crontab'' [''-l''] []) w)"
    using assms(1-4) by (simp add: ensureUnixCron_def Let_def getCrontab_table)
  then show ?thesis using cron_update_present [OF Present] by simp
next
  case (NewTable c)
  define w1 where "w1 = emit (Exec ''crontab'' [''-l''] []) w"
  obtain e w2 where 2: "setCrontab X c w1 = (e, w2)" by fastforce
  have "e \<noteq> ErrNotFound" using assms(7) 2 by (auto simp: setCrontab_def run_cmd_def Let_def)
  then have e: "e = ExitOK" and w': "w' = log_msg INFO ''log.msg.cron_added'' [Itoa hour, Itoa minute] w2"
    using assms(1-4) NewTable 2 by (auto simp: ensureUnixCron_def Let_def getCrontab_table w1_def split: if_splits)
  have "table (trace w') = c" "files w' = files w" using setCrontab_table [OF 2 [unfolded e]] w' by (simp_all add: w1_def)
  moreover have "line \<in> TrimSpace ` set (lines_of c)"
    using cron_update_present [OF cron_update_lines(3) [OF NewTable assms(5,6)]] .
  ultimately show ?thesis using cron_update_lines(1) [OF NewTable assms(5,6)] by simp
next
  case ScanErr
  then show ?thesis using assms(1-4) by (simp add: ensureUnixCron_def Let_def getCrontab_table)
qed (simp add: cron_update_not_unchanged)

end

text \<open>Removing the lines of the program.\<close>

lemma drop_marked_lines:
  assumes "drop_marked d = Some out" "CR_char \<notin> set d"
  shows "lines_of out = filter (\<lambda>l. \<not> Contains l cronMarker) (lines_of d)"
proof -
  obtain ls b where S: "ScanLines MaxScanTokenSize d = (ls, b)" by fastforce
  have out: "out = unit_lines (filter (\<lambda>l. \<not> Contains l cronMarker) ls)"
    using assms(1) S by (auto simp: drop_marked_def split: if_splits)
  have "list_all plain_line (filter (\<lambda>l. \<not> Contains l cronMarker) ls)"
    using ScanLines_plain [OF assms(2) S] by (auto simp: list_all_iff)
  from ScanLines_unit_lines [OF this] show ?thesis by (simp add: lines_of_def S out)
qed

lemma Contains_part: "Contains s m \<Longrightarrow> Contains (a @ s @ b) m"
  unfolding Contains_iff by (metis append.assoc)

lemma ScanLines_part:
  "ScanLines lim d = (ls, b) \<Longrightarrow> l \<in> set ls \<Longrightarrow> \<exists>x y. d = x @ l @ y"
proof (induction "length d" arbitrary: d ls b rule: less_induct)
  case less
  show ?case
  proof (cases "d = []")
    case True
    then show ?thesis using less.prems by (simp add: ScanLines.simps)
  next
    case False
    define k where "k = takeWhile (\<lambda>c. c \<noteq> NL) d"
    obtain ls1 b1 where 1: "ScanLines lim (drop (Suc (length k)) d) = (ls1, b1)" by fastforce
    have "l = dropCR k \<or> l \<in> set ls1"
      using less.prems False 1 by (subst (asm) ScanLines.simps) (auto simp: k_def Let_def split: if_splits)
    then show ?thesis
    proof
      assume l: "l = dropCR k"
      have "d = k @ dropWhile (\<lambda>c. c \<noteq> NL) d" by (simp add: k_def)
      moreover have "\<exists>z. k = l @ z" by (cases k rule: rev_cases) (auto simp: l dropCR_def)
      ultimately show ?thesis by (metis append.assoc append_Nil)
    next
      assume "l \<in> set ls1"
      moreover have "length (drop (Suc (length k)) d) < length d" using False by simp
      ultimately obtain x y where "drop (Suc (length k)) d = x @ l @ y" using less.hyps [OF _ 1] by blast
      then show ?thesis by (metis append.assoc append_take_drop_id)
    qed
  qed
qed

lemma lines_unmarked: "\<not> Contains d cronMarker \<Longrightarrow> filter (\<lambda>l. \<not> Contains l cronMarker) (lines_of d) = lines_of d"
proof -
  assume d: "\<not> Contains d cronMarker"
  have "\<not> Contains l cronMarker" if "l \<in> set (lines_of d)" for l
    using ScanLines_part [of MaxScanTokenSize d "lines_of d"] that d Contains_part by (metis lines_of_def prod.collapse)
  then show ?thesis by (simp add: filter_id_conv)
qed

lemma remove_system_trace: "trace (snd (remove_system F now ps w)) = trace w"
  by (induction F now ps w rule: remove_system.induct) (auto split: sum.split option.split)

lemma try_remove_simps [simp]: "trace (try_remove F p w) = trace w"
  by (simp add: try_remove_def split: sum.split)

lemma log_info_simps [simp]: "trace (log_info l k a w) = trace w" "files (log_info l k a w) = files w"
  by (simp_all add: log_info_def split: option.split)

context cron_tool
begin

lemma removeCrontabMarker_table:
  assumes "removeCrontabMarker X F now w = (None, w')" "CR_char \<notin> set (table (trace w))"
  shows "lines_of (table (trace w')) = filter (\<lambda>l. \<not> Contains l cronMarker) (lines_of (table (trace w)))"
proof -
  define w1 where "w1 = emit (Exec ''crontab'' [''-l''] []) w"
  show ?thesis
  proof (cases "Contains (table (trace w)) cronMarker")
    case False
    then have "removeSystemCrontabMarker F now w1 = (None, w')"
      using assms(1) by (simp add: removeCrontabMarker_def getCrontab_table w1_def)
    from remove_system_trace [of F now systemCrontabPaths w1] this have "trace w' = trace w1" by (simp add: removeSystemCrontabMarker_def)
    then show ?thesis using lines_unmarked [OF False] by (simp add: w1_def)
  next
    case True
    then obtain out where out: "drop_marked (table (trace w)) = Some out"
      using assms(1) by (auto simp: removeCrontabMarker_def getCrontab_table split: option.splits)
    obtain e w2 where 2: "setCrontab X out w1 = (e, w2)" by fastforce
    have e: "e = ExitOK" and r: "removeSystemCrontabMarker F now w2 = (None, w')"
      using assms(1) True out 2 by (auto simp: removeCrontabMarker_def getCrontab_table w1_def split: if_splits)
    from remove_system_trace [of F now systemCrontabPaths w2] r have "trace w' = trace w2" by (simp add: removeSystemCrontabMarker_def)
    then show ?thesis using setCrontab_table [OF 2 [unfolded e]] drop_marked_lines [OF out assms(2)] by simp
  qed
qed

lemma Uninstall_table:
  assumes "Uninstall X P F now log w = (None, w')" "CR_char \<notin> set (table (trace w))"
  shows "lines_of (table (trace w')) = filter (\<lambda>l. \<not> Contains l cronMarker) (lines_of (table (trace w)))"
proof -
  obtain home where h: "UserHomeDir P = Some home" using assms(1) by (cases "UserHomeDir P") (auto simp: Uninstall_def)
  define w2 where "w2 = (let w1 = try_remove F (servicePath_of home) (try_remove F (timerPath_of home) w) in
    if (case Stat F (files w) (timerPath_of home) of Inr _ \<Rightarrow> True | Inl _ \<Rightarrow> False)
    then log_info log ''systemd timer and service files removed from %s; run: systemctl --user daemon-reload'' [userDir_of home] w1 else w1)"
  have tr: "trace w2 = trace w" by (simp add: w2_def Let_def)
  obtain b w3 where 3: "crontabHasMarker X F w2 = (b, w3)" by fastforce
  have b: "b \<longleftrightarrow> Contains (table (trace w)) cronMarker \<or> systemCrontabHasMarker F (files w3)" "w3 = emit (Exec ''crontab'' [''-l''] []) w2"
    using 3 tr by (auto simp: crontabHasMarker_def getCrontab_table)
  have t3: "table (trace w3) = table (trace w)" using b(2) tr by simp
  have U: "Uninstall X P F now log w = (case (b, w3) of (False, w3) \<Rightarrow> (None, w3)
      | (True, w3) \<Rightarrow> (case removeCrontabMarker X F now w3 of (Some e, w4) \<Rightarrow> (Some (Err ''err.remove_cron'' [] (Some e)), w4)
                  | (None, w4) \<Rightarrow> (None, log_info log ''cron entry for mysqlbackup removed'' [] w4)))"
    using h 3 unfolding Uninstall_def w2_def Let_def by (simp split del: if_split)
  show ?thesis
  proof (cases b)
    case False
    then show ?thesis using U assms(1) b(1) t3 lines_unmarked by simp
  next
    case True
    then obtain w4 where 4: "removeCrontabMarker X F now w3 = (None, w4)" "trace w' = trace w4"
      using U assms(1) by (auto split: prod.splits option.splits)
    from removeCrontabMarker_table [OF 4(1)] show ?thesis using assms(2) t3 4(2) by simp
  qed
qed

end

subsection \<open>The line of the job\<close>

lemma no_prefix_hd: "list_all (\<lambda>r. hd r \<noteq> c) rs \<Longrightarrow> no_prefix rs (c # s)"
  by (auto simp: no_prefix_def list_all_iff HasPrefix_iff Cons_eq_append_conv)

lemma space_runes_hd:
  "is_digit c \<Longrightarrow> list_all (\<lambda>r. hd r \<noteq> c) space_runes" "list_all (\<lambda>r. hd r \<noteq> CHR ''e'') (map rev space_runes)"
  by (auto simp: space_runes_def is_digit_def Let_def)

lemma cron_time_range: "cron_time s = (h, m) \<Longrightarrow> 0 \<le> h \<and> h \<le> 23 \<and> 0 \<le> m \<and> m \<le> 59"
  by (auto simp: cron_time_def Let_def split: if_splits option.splits)

lemma Itoa_digits: "0 \<le> n \<Longrightarrow> Itoa n \<noteq> [] \<and> list_all is_digit (Itoa n)"
proof -
  assume "0 \<le> n"
  then have n: "Itoa n = dec_digits (max 1 (dec_len n)) n" by (simp add: Itoa_def pad_int_def)
  have "length (Itoa n) \<noteq> 0" unfolding n length_dec_digits by simp
  then have "Itoa n \<noteq> []" by (metis list.size(3))
  moreover have "list_all is_digit (Itoa n)" unfolding n by (rule dec_digits_digits)
  ultimately show ?thesis by blast
qed

lemma quoteForCron_plain: "c \<in> set (quoteForCron s) \<Longrightarrow> c \<in> set s \<or> c = squote \<or> c = backslash"
  by (auto simp: quoteForCron_def ReplaceAll_def split: if_splits)

lemma cronLineUser_job:
  assumes "0 \<le> minute" "0 \<le> hour" "plain_line exe" "plain_line configPath"
    "int (length (cronLineUser hour minute exe configPath)) < MaxScanTokenSize"
  shows "job_line (cronLineUser hour minute exe configPath)"
proof -
  define l where "l = cronLineUser hour minute exe configPath"
  obtain d ds where d: "Itoa minute = d # ds" "is_digit d" using Itoa_digits [OF assms(1)] by (cases "Itoa minute") auto
  have dig: "NL \<notin> set (Itoa n) \<and> CR_char \<notin> set (Itoa n)" if "0 \<le> n" for n
    using Itoa_digits [OF that] by (auto simp: list_all_iff is_digit_def Let_def)
  have q: "NL \<notin> set (quoteForCron s) \<and> CR_char \<notin> set (quoteForCron s)" if "plain_line s" for s
    using that quoteForCron_plain [of _ s] by (auto simp: plain_line_def)
  have "NL \<notin> set l \<and> CR_char \<notin> set l"
    using dig [OF assms(1)] dig [OF assms(2)] q [OF assms(3)] q [OF assms(4)] by (auto simp: l_def cronLineUser_def cronMarker_def)
  then have "plain_line l" using assms(5) by (simp add: plain_line_def l_def)
  moreover have "TrimSpace l = l"
  proof (rule TrimSpace_id)
    obtain r where "l = d # r" using d by (simp add: l_def cronLineUser_def)
    then show "no_prefix space_runes l" using no_prefix_hd [OF space_runes_hd(1) [OF d(2)]] by simp
    obtain t where "l = t @ ''e''" by (simp add: l_def cronLineUser_def cronMarker_def)
    then show "no_prefix (map rev space_runes) (rev l)" using no_prefix_hd [OF space_runes_hd(2)] by simp
  qed
  moreover have "Contains l cronMarker" unfolding Contains_iff l_def cronLineUser_def by (metis append.assoc append_Nil2)
  ultimately show ?thesis by (simp add: job_line_def l_def)
qed

subsection \<open>Properties\<close>



text \<open>A system with a working \<open>crontab\<close> and without a user session of systemd.\<close>

definition cron_table :: "bytes \<Rightarrow> event list \<Rightarrow> bytes" where
  "cron_table t tr = foldl (\<lambda>t e. case e of Exec n a d \<Rightarrow> if n = ''crontab'' \<and> a = [''-''] then d else t | _ \<Rightarrow> t) t tr"

definition cron_system :: "bytes \<Rightarrow> extenv" where
  "cron_system t = \<lparr>process = (\<lambda>tr.
       case rev tr of
         Exec n a d # _ \<Rightarrow>
           if n = ''crontab'' then \<lparr>combined = [], stdout = cron_table t (butlast tr), stderr = [], status = ExitOK, eaten = True\<rparr>
           else \<lparr>combined = [], stdout = [], stderr = [], status = ExitStatus 1, eaten = True\<rparr>
       | _ \<Rightarrow> \<lparr>combined = [], stdout = [], stderr = [], status = ErrNotFound, eaten = True\<rparr>),
     listens = (\<lambda>_. False), smtp_ok = (\<lambda>_. False), clock = (\<lambda>_. 0)\<rparr>"

interpretation cron: cron_tool "cron_system t" "cron_table t" for t
  by unfold_locales (auto simp: cron_system_def cron_table_def split: event.split)

definition ex_crontab :: bytes where
  "ex_crontab = unit_lines [''# jobs'', ''5 4 * * * /bin/other'', ''1 1 * * * old # mysqlbackup-schedule'']"

definition ex_proc :: procenv where
  "ex_proc = \<lparr>Executable = Some ''/opt/mysqlbackup'', Getwd = Some ''/'', UserHomeDir = Some ''/root''\<rparr>"

definition ex_idle_system :: sysworld where
  "ex_idle_system = \<lparr>files = [], logs = [], trace = []\<rparr>"

definition ex_installed :: "goerr option \<times> sysworld" where
  "ex_installed = ensureUnixCron (cron_system ex_crontab) ex_proc (\<lambda>_ _. False) 7 DefaultConfig ''/etc/c.json'' ex_idle_system"

definition ex_line :: string where
  "ex_line = cronLineUser 22 0 ''/opt/mysqlbackup'' ''/etc/c.json''"



subsection \<open>Details\<close>

text \<open>
  A quote in a path is written as a backslash and a quote. Between single quotes a shell takes
  the backslash as it is, so this quote ends the quoted text.
\<close>

lemma quoteForCron_quote: "quoteForCron (''a'' @ [squote] @ ''b'') = [squote] @ ''a'' @ [backslash, squote] @ ''b'' @ [squote]"
  by code_simp

text \<open>
  An old line of the job stays where the line of the job is there too: with both in the table
  the backup runs twice.
\<close>

lemma old_line_stays: "cron_update ex_line (ex_crontab @ ex_line @ [NL]) = Present"
  by code_simp

end
