(* ===== verification/Schedule_Windows.thy ===== *)
theory Schedule_Windows
  imports Schedule
begin

text \<open>
  \<open>internal/schedule/schedule.go\<close> on Windows: the daily backup as a scheduled task, made and
  changed with PowerShell and \<open>schtasks\<close>, and the choice between the systems. The programs are
  part of the outside world. The functions \<open>filepath.Clean\<close> and \<open>filepath.Dir\<close> of Windows, which
  differ from those of Unix, are the parameter \<open>winpath\<close>.
\<close>

subsection \<open>Reading a task\<close>

definition taskNameWindows :: string where
  "taskNameWindows = ''MySQLBackup''"

definition in_quotes :: "string \<Rightarrow> string" where
  "in_quotes s = [squote] @ s @ [squote]"

definition powershell :: "extenv \<Rightarrow> log_arg \<Rightarrow> string \<Rightarrow> 'a sysworld_scheme \<Rightarrow> reply \<times> 'a sysworld_scheme" where
  "powershell X log script w = runWithDebug X log ''powershell'' [''-NoProfile'', ''-NonInteractive'', ''-Command'', script] w"

definition run_string_script :: string where
  "run_string_script = ''$t = Get-ScheduledTask -TaskName '' @ in_quotes taskNameWindows
     @ '' -ErrorAction SilentlyContinue; if ($t -and $t.Actions.Count -gt 0) { $a = $t.Actions[0]; $a.Execute + ''
     @ in_quotes '' '' @ '' + $a.Arguments }''"

definition task_prefix :: string where
  "task_prefix = ''Task To Run:''"

fun run_string_line :: "string list \<Rightarrow> string option" where
  "run_string_line [] = None"
| "run_string_line (l # ls) =
     (let line = TrimSpace l in
      if HasPrefix line task_prefix then Some (TrimSpace (TrimPrefix line task_prefix)) else run_string_line ls)"

definition query_verbose :: "string list" where
  "query_verbose = [''/Query'', ''/TN'', taskNameWindows, ''/FO'', ''LIST'', ''/V'']"

definition windowsTaskGetRunString ::
  "extenv \<Rightarrow> log_arg \<Rightarrow> 'a sysworld_scheme \<Rightarrow> (goerr, string) result \<times> 'a sysworld_scheme"
where
  "windowsTaskGetRunString X log w =
     (case powershell X log run_string_script w of (r, w1) \<Rightarrow>
        if status r = ExitOK \<and> TrimSpace (combined r) \<noteq> [] then (Inr (TrimSpace (combined r)), w1)
        else (case runWithDebug X log ''schtasks'' query_verbose w1 of (r2, w2) \<Rightarrow>
                (if status r2 \<noteq> ExitOK then Inl (ExitErr (status r2))
                 else (case run_string_line (Split (combined r2) NL) of
                         Some s \<Rightarrow> Inr s
                       | None \<Rightarrow> Inl (Err ''err.task_cmd_not_found'' [] None)), w2)))"

text \<open>\<open>extractDoubleQuoted\<close>: a quoted text in which a quote is written twice.\<close>

fun quoted_loop :: "string \<Rightarrow> string \<Rightarrow> (string \<times> string) option" where
  "quoted_loop buf [] = None"
| "quoted_loop buf (c # s) =
     (if c = dquote then
        (case s of
           [] \<Rightarrow> Some (buf, [])
         | d # t \<Rightarrow> if d = dquote then quoted_loop (buf @ [dquote]) t else Some (buf, s))
      else quoted_loop (buf @ [c]) s)"

definition extractDoubleQuoted :: "string \<Rightarrow> (string \<times> string) option" where
  "extractDoubleQuoted s = (if s = [] \<or> hd s \<noteq> dquote then None else quoted_loop [] (tl s))"

text \<open>
  \<open>extractBackslashQuotedPaths\<close>: the inner loop, up to a quote without a backslash, and the
  outer loop, which after a text skips one more byte.
\<close>

fun backslash_loop :: "string \<Rightarrow> string \<Rightarrow> string option \<times> string" where
  "backslash_loop buf [] = (None, [])"
| "backslash_loop buf (c # s) =
     (if c = backslash \<and> s \<noteq> [] \<and> hd s = dquote then backslash_loop (buf @ [dquote]) (tl s)
      else if c = dquote then (Some buf, s)
      else backslash_loop (buf @ [c]) s)"

lemma backslash_loop_shorter: "backslash_loop buf s = (q, r) \<Longrightarrow> length r \<le> length s"
  by (induction buf s rule: backslash_loop.induct) (fastforce split: if_splits)+

function extractBackslashQuotedPaths :: "string \<Rightarrow> string list" where
  "extractBackslashQuotedPaths s =
     (case s of
        c # d # t \<Rightarrow>
          if c \<noteq> backslash \<or> d \<noteq> dquote then extractBackslashQuotedPaths (d # t)
          else (case backslash_loop [] t of
                  (None, r) \<Rightarrow> []
                | (Some q, r) \<Rightarrow> q # extractBackslashQuotedPaths (drop 1 r))
      | _ \<Rightarrow> [])"
  by pat_completeness auto
termination
  by (relation "measure length") (auto dest!: backslash_loop_shorter [OF sym])

declare extractBackslashQuotedPaths.simps [simp del]

text \<open>A text in single or double quotes, up to a quote that no backslash precedes.\<close>

fun closing :: "char \<Rightarrow> char \<Rightarrow> string \<Rightarrow> (string \<times> string) option" where
  "closing q prev [] = None"
| "closing q prev (c # s) =
     (if c = q \<and> prev \<noteq> backslash then Some ([], s)
      else map_option (\<lambda>(a, r). (c # a, r)) (closing q c s))"

definition starts_quote :: "string \<Rightarrow> bool" where
  "starts_quote s \<longleftrightarrow> s \<noteq> [] \<and> (hd s = dquote \<or> hd s = squote)"

text \<open>
  The three formats of the command of a task: executable and configuration. \<^const>\<open>None\<close> goes on
  with the next format, or with the next line.
\<close>

definition format_cd :: "string \<Rightarrow> (string \<times> string) option" where
  "format_cd rest =
     (let prefix = (if HasPrefix rest ''cmd.exe /c cd /d '' then ''cmd.exe /c cd /d ''
                    else if HasPrefix rest ''cmd /c cd /d '' then ''cmd /c cd /d '' else [])
      in if prefix \<noteq> [] \<and> Contains rest '' && '' then
           (case extractDoubleQuoted (TrimSpace (drop (length prefix) rest)) of
              None \<Rightarrow> None
            | Some (_, r2) \<Rightarrow>
                let rest2 = TrimSpace r2 in
                if HasPrefix rest2 ''&& '' then
                  (case extractDoubleQuoted (TrimSpace (drop 3 rest2)) of
                     None \<Rightarrow> None
                   | Some (e, r3) \<Rightarrow>
                       (let rest3 = TrimSpace r3 in
                        case Index rest3 ''-config '' of
                          None \<Rightarrow> None
                        | Some idx \<Rightarrow>
                            map_option (\<lambda>(c, _). (e, c)) (extractDoubleQuoted (TrimSpace (drop (idx + 8) rest3)))))
                else None)
         else None)"

definition format_legacy :: "string \<Rightarrow> (string \<times> string) option" where
  "format_legacy rest =
     (if HasPrefix rest ''cmd '' \<and> Contains rest ''cd /d '' \<and> Contains rest '' && '' then
        (let quoted = extractBackslashQuotedPaths rest in
         if 3 \<le> length quoted then Some (quoted ! 1, quoted ! 2) else None)
      else None)"

definition format_plain :: "string \<Rightarrow> (string \<times> string) option" where
  "format_plain rest =
     (if \<not> starts_quote rest then None
      else (case closing (hd rest) (hd rest) (tl rest) of
              None \<Rightarrow> None
            | Some (exe, r) \<Rightarrow>
                let rest1 = TrimSpace r in
                (case Index rest1 ''-config'' of
                   None \<Rightarrow> None
                 | Some idx \<Rightarrow>
                     let rest2 = TrimSpace (drop (idx + 7) rest1) in
                     if length rest2 < 2 \<or> \<not> starts_quote rest2 then None
                     else Some (exe, (case closing (hd rest2) (hd rest2) (tl rest2) of
                                        Some (c, _) \<Rightarrow> c | None \<Rightarrow> [])))))"

definition task_command :: "string \<Rightarrow> (string \<times> string) option" where
  "task_command rest =
     (if length rest < 2 then None
      else (case format_cd rest of
              Some p \<Rightarrow> Some p
            | None \<Rightarrow> (case format_legacy rest of Some p \<Rightarrow> Some p | None \<Rightarrow> format_plain rest)))"

fun task_lines :: "string list \<Rightarrow> (string \<times> string) option" where
  "task_lines [] = None"
| "task_lines (l # ls) =
     (let line = TrimSpace l in
      if \<not> HasPrefix line task_prefix then task_lines ls
      else (case task_command (TrimSpace (TrimPrefix line task_prefix)) of
              Some p \<Rightarrow> Some p
            | None \<Rightarrow> task_lines ls))"

definition windowsTaskGetCommand ::
  "extenv \<Rightarrow> log_arg \<Rightarrow> 'a sysworld_scheme \<Rightarrow> (goerr, string \<times> string) result \<times> 'a sysworld_scheme"
where
  "windowsTaskGetCommand X log w =
     (case runWithDebug X log ''schtasks'' query_verbose w of (r, w1) \<Rightarrow>
        (if status r \<noteq> ExitOK then Inl (ExitErr (status r))
         else (case task_lines (Split (combined r) NL) of
                 Some p \<Rightarrow> Inr p
               | None \<Rightarrow> Inl (Err ''err.task_cmd_not_found'' [] None)), w1))"

subsection \<open>Making a task\<close>

text \<open>\<open>resolveDriveToUNC\<close>: a path on a network drive, by the name of its share.\<close>

definition resolveDriveToUNC :: "extenv \<Rightarrow> log_arg \<Rightarrow> string \<Rightarrow> 'a sysworld_scheme \<Rightarrow> string \<times> 'a sysworld_scheme" where
  "resolveDriveToUNC X log path w =
     (if path = [] \<or> HasPrefix path [backslash, backslash] \<or> length path < 2 \<or> path ! 1 \<noteq> CHR '':'' then (path, w)
      else if \<not> ((of_char (hd path) :: int) \<in> {65..90} \<or> (of_char (hd path) :: int) \<in> {97..122}) then (path, w)
      else
        (case powershell X log (''try { (Get-Item -LiteralPath '' @ in_quotes (take 2 path @ [backslash])
                 @ '').PSDrive.RemoteName } catch { '' @ in_quotes [] @ '' }'') w of (r, w1) \<Rightarrow>
           (let unc = TrimSpace (combined r) in
            if status r \<noteq> ExitOK \<or> unc = [] \<or> \<not> HasPrefix unc [backslash, backslash] then path
            else
              let rest = drop 2 path;
                  rest1 = (if rest \<noteq> [] \<and> hd rest \<noteq> backslash then backslash # rest else rest)
              in TrimSuffix unc [backslash] @ rest1, w1)))"

definition escapeForPSSingleQuoted :: "string \<Rightarrow> string" where
  "escapeForPSSingleQuoted s = ReplaceAll s squote [squote, squote]"

definition settings_script :: string where
  "settings_script = ''$s = New-ScheduledTaskSettingsSet -WakeToRun -StartWhenAvailable -ExecutionTimeLimit (New-TimeSpan -Hours 12); ''"

definition log_warn :: "log_arg \<Rightarrow> string \<Rightarrow> string list \<Rightarrow> 'a world_scheme \<Rightarrow> 'a world_scheme" where
  "log_warn log key args w = (case log of None \<Rightarrow> w | Some _ \<Rightarrow> log_msg WARN key args w)"

definition applyWindowsTaskSettings :: "extenv \<Rightarrow> log_arg \<Rightarrow> 'a sysworld_scheme \<Rightarrow> 'a sysworld_scheme" where
  "applyWindowsTaskSettings X log w =
     (case powershell X log (settings_script @ ''Set-ScheduledTask -TaskName '' @ in_quotes taskNameWindows @ '' -Settings $s'') w of
        (r, w1) \<Rightarrow>
          if status r \<noteq> ExitOK then log_warn log ''log.warn.powershell_settings'' [] w1
          else log_info log ''log.msg.windows_task_settings'' [] w1)"

definition applyWindowsTaskWorkingDir :: "extenv \<Rightarrow> string \<Rightarrow> log_arg \<Rightarrow> 'a sysworld_scheme \<Rightarrow> 'a sysworld_scheme" where
  "applyWindowsTaskWorkingDir X workDir log w =
     (case powershell X log (''$t = Get-ScheduledTask -TaskName '' @ in_quotes taskNameWindows
              @ '' -ErrorAction SilentlyContinue; if ($t) { $a = $t.Actions[0]; $a.WorkingDirectory = ''
              @ in_quotes (escapeForPSSingleQuoted workDir) @ ''; Set-ScheduledTask -TaskName '' @ in_quotes taskNameWindows
              @ '' -Action $a }'') w of (r, w1) \<Rightarrow>
        if status r \<noteq> ExitOK then log_warn log ''log.warn.powershell_workdir'' [] w1
        else log_info log ''log.msg.windows_task_workdir'' [] w1)"

definition createWindowsTaskViaPowerShell ::
  "extenv \<Rightarrow> string \<Rightarrow> string \<Rightarrow> string \<Rightarrow> string \<Rightarrow> log_arg \<Rightarrow> 'a sysworld_scheme \<Rightarrow> goerr option \<times> 'a sysworld_scheme"
where
  "createWindowsTaskViaPowerShell X taskName cmdArgument workingDir startTime log w =
     (let script = ''$arg = '' @ in_quotes (escapeForPSSingleQuoted cmdArgument) @ ''; $wd = ''
            @ in_quotes (escapeForPSSingleQuoted workingDir) @ ''; ''
            @ ''$a = New-ScheduledTaskAction -Execute '' @ in_quotes ''cmd.exe'' @ '' -Argument $arg -WorkingDirectory $wd; ''
            @ ''$t = New-ScheduledTaskTrigger -Daily -At '' @ in_quotes startTime @ ''; '' @ settings_script
            @ ''Register-ScheduledTask -TaskName '' @ in_quotes taskName @ '' -Action $a -Trigger $t -Settings $s -Force''
      in case powershell X log script w of (r, w1) \<Rightarrow>
           (if status r \<noteq> ExitOK then Some (Err ''%w: %s'' [combined r] (Some (ExitErr (status r)))) else None, w1))"

record winpath =
  winClean :: "string \<Rightarrow> string"
  winDir :: "string \<Rightarrow> string"

definition pathForTR :: "string \<Rightarrow> string" where
  "pathForTR s = ReplaceAll s dquote [dquote, dquote]"

definition cmdArgument_of :: "string \<Rightarrow> string \<Rightarrow> string \<Rightarrow> string" where
  "cmdArgument_of workDir exe configPath =
     ''/c cd /d '' @ [dquote] @ pathForTR workDir @ [dquote] @ '' && '' @ [dquote] @ pathForTR exe @ [dquote]
     @ '' --backup -config '' @ [dquote] @ pathForTR configPath @ [dquote]"

definition windows_start :: "string \<Rightarrow> string" where
  "windows_start start =
     (let startTime = TrimSpace (if start = [] then ''22:00'' else start) in
      if length startTime \<noteq> 5 \<or> startTime ! 2 \<noteq> CHR '':'' then ''22:00'' else startTime)"

definition ensureWindows ::
  "winpath \<Rightarrow> extenv \<Rightarrow> procenv \<Rightarrow> Config \<Rightarrow> string \<Rightarrow> bool \<Rightarrow> 'a sysworld_scheme \<Rightarrow> goerr option \<times> 'a sysworld_scheme"
where
  "ensureWindows W X P cfg configPath0 verbose w =
     (case Executable P of
        None \<Rightarrow> (Some (Err ''err.executable_path'' [] None), w)
      | Some exe0 \<Rightarrow>
          let log = Some verbose;
              configPath = winClean W configPath0;
              dir = winDir W configPath;
              (exeTask, w1) = resolveDriveToUNC X log (winClean W exe0) w;
              (configPathTask, w2) = resolveDriveToUNC X log configPath w1;
              (workDirTask, w3) = resolveDriveToUNC X log (if dir = [] then ''.'' else dir) w2;
              startTime = windows_start (StartTime cfg);
              cmdArgument = cmdArgument_of workDirTask exeTask configPathTask;
              (q, w4) = runWithDebug X log ''schtasks'' [''/Query'', ''/TN'', taskNameWindows] w3;
              create = (\<lambda>w. case createWindowsTaskViaPowerShell X taskNameWindows cmdArgument workDirTask startTime log w of
                          (Some e, w') \<Rightarrow> (Some (Err ''err.schtasks_create'' [] (Some e)), w')
                        | (None, w') \<Rightarrow>
                            (None, applyWindowsTaskWorkingDir X workDirTask log (applyWindowsTaskSettings X log
                                     (log_msg INFO ''log.msg.windows_task_created'' [taskNameWindows, startTime] w'))))
          in if status q \<noteq> ExitOK then create w4
             else (case windowsTaskGetRunString X log w4 of
                     (Inr existingRun, w5) \<Rightarrow>
                       if TrimSpace existingRun = TrimSpace (''cmd.exe '' @ cmdArgument) then
                         (None, log_msg INFO ''log.msg.windows_task_uptodate'' [taskNameWindows]
                                  (applyWindowsTaskWorkingDir X workDirTask log (applyWindowsTaskSettings X log w5)))
                       else create (snd (runWithDebug X log ''schtasks'' [''/Delete'', ''/TN'', taskNameWindows, ''/F'']
                                     (log_msg INFO ''log.msg.windows_task_updating'' [] w5)))
                   | (Inl _, w5) \<Rightarrow>
                       create (snd (runWithDebug X log ''schtasks'' [''/Delete'', ''/TN'', taskNameWindows, ''/F''] w5))))"

subsection \<open>Both systems\<close>

definition EnsureInstalled ::
  "bool \<Rightarrow> winpath \<Rightarrow> extenv \<Rightarrow> procenv \<Rightarrow> faults \<Rightarrow> int \<Rightarrow> Config \<Rightarrow> string \<Rightarrow> bool \<Rightarrow> 'a sysworld_scheme
     \<Rightarrow> goerr option \<times> 'a sysworld_scheme"
where
  "EnsureInstalled windows W X P F now cfg configPath verbose w =
     (if windows then ensureWindows W X P cfg configPath verbose w
      else ensureUnix X P F now cfg configPath verbose w)"

definition windows_Status ::
  "extenv \<Rightarrow> procenv \<Rightarrow> Config \<Rightarrow> string \<Rightarrow> 'a sysworld_scheme \<Rightarrow> (string \<times> string list) \<times> 'a sysworld_scheme"
where
  "windows_Status X P cfg configPath w =
     (case run_cmd X ''schtasks'' [''/Query'', ''/TN'', taskNameWindows] [] w of (r, w1) \<Rightarrow>
        (if status r \<noteq> ExitOK then ([], [])
         else (''job.windows'', [taskNameWindows, (if StartTime cfg = [] then ''22:00'' else StartTime cfg),
                 (case Executable P of None \<Rightarrow> [] | Some e \<Rightarrow> e), configPath]), w1))"

definition windows_Uninstall :: "extenv \<Rightarrow> log_arg \<Rightarrow> 'a sysworld_scheme \<Rightarrow> goerr option \<times> 'a sysworld_scheme" where
  "windows_Uninstall X log w =
     (case runWithDebug X log ''schtasks'' [''/Delete'', ''/TN'', taskNameWindows, ''/F''] w of (r, w1) \<Rightarrow>
        if status r \<noteq> ExitOK then (Some (Err ''err.schtasks_delete'' [combined r] (Some (ExitErr (status r)))), w1)
        else (None, log_info log ''Windows task %s removed'' [taskNameWindows] w1))"

subsection \<open>The command reads back\<close>

lemma quoted_loop_path:
  "r = [] \<or> hd r \<noteq> dquote \<Longrightarrow> quoted_loop buf (pathForTR s @ dquote # r) = Some (buf @ s, r)"
  by (induction s arbitrary: buf) (auto simp: pathForTR_def split: list.split)

lemma extractDoubleQuoted_path:
  "r = [] \<or> hd r \<noteq> dquote \<Longrightarrow> extractDoubleQuoted (dquote # pathForTR s @ dquote # r) = Some (s, r)"
  using quoted_loop_path [of r "[]" s] by (simp add: extractDoubleQuoted_def)

lemma no_space_ends:
  "c \<in> {dquote, CHR ''&'', CHR ''-'', CHR ''c'', CHR ''T''} \<Longrightarrow> list_all (\<lambda>r. hd r \<noteq> c) space_runes"
  "list_all (\<lambda>r. hd r \<noteq> dquote) (map rev space_runes)"
  by (auto simp: space_runes_def)

lemma TrimSpace_quoted:
  assumes "c \<in> {dquote, CHR ''&'', CHR ''-'', CHR ''c'', CHR ''T''}" shows "TrimSpace (c # s @ [dquote]) = c # s @ [dquote]"
proof (rule TrimSpace_id)
  show "no_prefix space_runes (c # s @ [dquote])" using no_space_ends(1) [OF assms] by (rule no_prefix_hd)
  show "no_prefix (map rev space_runes) (rev (c # s @ [dquote]))" using no_prefix_hd [OF no_space_ends(2)] by simp
qed

lemma TrimSpace_blank: "TrimSpace (CHR '' '' # s) = TrimSpace s"
proof -
  have "trim_runes space_runes (CHR '' '' # s) = trim_runes space_runes s"
    by (subst trim_runes.simps) (simp add: space_runes_def HasPrefix_def)
  then show ?thesis by (simp add: TrimSpace_def)
qed

lemma task_command_planned: "task_command (''cmd.exe '' @ cmdArgument_of workDir exe configPath) = Some (exe, configPath)"
proof -
  let ?q = "\<lambda>s r. dquote # pathForTR s @ dquote # r"
  let ?c = "''-config '' @ ?q configPath []"
  let ?b = "''--backup '' @ ?c"
  define R where "R = ''cmd.exe '' @ cmdArgument_of workDir exe configPath"
  have rest: "R = ''cmd.exe /c cd /d '' @ ?q workDir ('' && '' @ ?q exe ('' '' @ ?b))" by (simp add: R_def cmdArgument_of_def)
  have t1: "TrimSpace (?q workDir ('' && '' @ ?q exe ('' '' @ ?b))) = ?q workDir ('' && '' @ ?q exe ('' '' @ ?b))"
    using TrimSpace_quoted [of dquote "pathForTR workDir @ dquote # '' && '' @ dquote # pathForTR exe @ dquote # '' '' @ ''--backup -config '' @ dquote # pathForTR configPath"]
    by simp
  have t2: "TrimSpace ('' && '' @ ?q exe ('' '' @ ?b)) = ''&& '' @ ?q exe ('' '' @ ?b)"
    using TrimSpace_quoted [of "CHR ''&''" "''& '' @ dquote # pathForTR exe @ dquote # '' '' @ ''--backup -config '' @ dquote # pathForTR configPath"]
    by (simp add: TrimSpace_blank)
  have t3: "TrimSpace (?q exe ('' '' @ ?b)) = ?q exe ('' '' @ ?b)"
    using TrimSpace_quoted [of dquote "pathForTR exe @ dquote # '' '' @ ''--backup -config '' @ dquote # pathForTR configPath"] by simp
  have t4: "TrimSpace ('' '' @ ?b) = ?b"
    using TrimSpace_quoted [of "CHR ''-''" "''-backup -config '' @ dquote # pathForTR configPath"] by (simp add: TrimSpace_blank)
  have t5: "TrimSpace (?q configPath []) = ?q configPath []" using TrimSpace_quoted [of dquote "pathForTR configPath"] by simp
  have i: "Index ?b ''-config '' = Some 9" by (simp add: HasPrefix_def)
  have "R = (''cmd.exe /c cd /d '' @ dquote # pathForTR workDir @ [dquote]) @ '' && '' @ ?q exe ('' '' @ ?b)" by (simp add: rest)
  then have "Contains R '' && ''" unfolding Contains_iff by blast
  then have "format_cd R = Some (exe, configPath)"
    unfolding format_cd_def Let_def
    using t1 t2 t3 t4 t5 i extractDoubleQuoted_path [of "'' && '' @ ?q exe ('' '' @ ?b)" workDir]
      extractDoubleQuoted_path [of "'' '' @ ?b" exe] extractDoubleQuoted_path [of "[]" configPath]
    by (simp add: rest HasPrefix_def)
  moreover have "\<not> length R < 2" by (simp add: rest)
  ultimately show ?thesis unfolding task_command_def R_def [symmetric] by simp
qed

lemma task_lines_skip: "list_all (\<lambda>l. \<not> HasPrefix (TrimSpace l) task_prefix) ls \<Longrightarrow> task_lines (ls @ rest) = task_lines rest"
  by (induction ls) (auto simp: Let_def)

text \<open>
  C40. The command of a task reads back: where \<open>schtasks\<close> lists the command that \<open>ensureWindows\<close>
  stores for a task, \<open>windowsTaskGetCommand\<close> finds the paths of the executable and of the
  configuration in it, whatever characters they hold.
\<close>

theorem windowsTaskGetCommand_planned:
  assumes "runWithDebug X log ''schtasks'' query_verbose w = (r, w1)" "status r = ExitOK"
    and "Split (combined r) NL = before @ l # after" "list_all (\<lambda>l. \<not> HasPrefix (TrimSpace l) task_prefix) before"
    and "TrimSpace l = task_prefix @ rest" "TrimSpace rest = ''cmd.exe '' @ cmdArgument_of workDir exe configPath"
  shows "windowsTaskGetCommand X log w = (Inr (exe, configPath), w1)"
proof -
  have "HasPrefix (TrimSpace l) task_prefix" "TrimPrefix (TrimSpace l) task_prefix = rest"
    using assms(5) by (simp_all add: HasPrefix_iff TrimPrefix_def HasPrefix_def)
  moreover have "task_command (TrimSpace rest) = Some (exe, configPath)" unfolding assms(6) by (rule task_command_planned)
  ultimately have "task_lines (Split (combined r) NL) = Some (exe, configPath)"
    unfolding assms(3) task_lines_skip [OF assms(4)] task_lines.simps(2) Let_def by simp
  then show ?thesis using assms(1,2) by (simp add: windowsTaskGetCommand_def)
qed

definition ex_task :: string where
  "ex_task = task_prefix @ ''   cmd.exe '' @ cmdArgument_of ''C:'' (''C:'' @ [backslash] @ ''b.exe'') (''D:'' @ [backslash, dquote] @ ''c'')"

definition ex_windows :: extenv where
  "ex_windows = \<lparr>process = (\<lambda>_. \<lparr>combined = ''Folder:'' @ [CHR 0x0D, NL] @ ex_task @ [CHR 0x0D, NL], stdout = [], stderr = [],
       status = ExitOK, eaten = True\<rparr>), listens = (\<lambda>_. False), smtp_ok = (\<lambda>_. False), clock = (\<lambda>_. 0)\<rparr>"

theorem windowsTaskGetCommand_planned_witness:
  "windowsTaskGetCommand ex_windows None ex_idle_system =
     (Inr (''C:'' @ [backslash] @ ''b.exe'', ''D:'' @ [backslash, dquote] @ ''c''),
      snd (runWithDebug ex_windows None ''schtasks'' query_verbose ex_idle_system))"
proof (rule windowsTaskGetCommand_planned)
  show "runWithDebug ex_windows None ''schtasks'' query_verbose ex_idle_system =
      (fst (runWithDebug ex_windows None ''schtasks'' query_verbose ex_idle_system),
       snd (runWithDebug ex_windows None ''schtasks'' query_verbose ex_idle_system))" by simp
  show "status (fst (runWithDebug ex_windows None ''schtasks'' query_verbose ex_idle_system)) = ExitOK" by code_simp
  show "Split (combined (fst (runWithDebug ex_windows None ''schtasks'' query_verbose ex_idle_system))) NL =
      [''Folder:'' @ [CHR 0x0D]] @ (ex_task @ [CHR 0x0D]) # [[]]" by code_simp
  show "list_all (\<lambda>l. \<not> HasPrefix (TrimSpace l) task_prefix) [''Folder:'' @ [CHR 0x0D]]" by code_simp
  show "TrimSpace (ex_task @ [CHR 0x0D]) =
      task_prefix @ ''   cmd.exe '' @ cmdArgument_of ''C:'' (''C:'' @ [backslash] @ ''b.exe'') (''D:'' @ [backslash, dquote] @ ''c'')" by code_simp
  show "TrimSpace (''   cmd.exe '' @ cmdArgument_of ''C:'' (''C:'' @ [backslash] @ ''b.exe'') (''D:'' @ [backslash, dquote] @ ''c'')) =
      ''cmd.exe '' @ cmdArgument_of ''C:'' (''C:'' @ [backslash] @ ''b.exe'') (''D:'' @ [backslash, dquote] @ ''c'')" by code_simp
qed

text \<open>
  A command in the legacy format is never read: the loop takes every quote with a backslash for
  a quote in the text, so the three paths come out as one.
\<close>

lemma legacy_not_read:
  "format_legacy (''cmd /c '' @ [dquote] @ ''cd /d '' @ [backslash, dquote] @ ''w'' @ [backslash, dquote] @ '' && '' @ [backslash, dquote] @ ''e''
     @ [backslash, dquote] @ '' --backup -config '' @ [backslash, dquote] @ ''c'' @ [backslash, dquote, dquote]) = None"
  by code_simp

end
