(* ===== verification/Main_Cmd.thy ===== *)
theory Main_Cmd
  imports Main_Flags Run_Secured Restore Logger Schedule_Windows
begin

text \<open>
  \<open>main.go\<close>: the actions of the program and their choice. The result of an action is the exit
  status of the process. What the program prints is the list \<open>screen\<close> of the state: the
  channel, the translation key (or the format) and the arguments of every line. The texts of the
  errors of \<open>os.Getwd\<close>, of \<open>time.ParseInLocation\<close> and of the package \<open>flag\<close> are left out.

  The program changes to the directory of its configuration before the action begins. The files
  of the state are those seen from there; only \<open>ConfigPath\<close> looks at files before, in \<open>f0\<close>.
\<close>

subsection \<open>State\<close>

datatype channel = Stdout | Stderr

record mworld = rworld +
  screen :: "(channel \<times> string \<times> string list) list"

definition put :: "channel \<Rightarrow> string \<Rightarrow> string list \<Rightarrow> 'a mworld_scheme \<Rightarrow> 'a mworld_scheme" where
  "put ch key args w = w\<lparr>screen := screen w @ [(ch, key, args)]\<rparr>"

text \<open>
  Besides what a run needs: the system, the file system functions of Windows, the package
  \<open>sconfig\<close>, the reading of zip files, the text of a time stamp, and \<open>os.Args\<close>.
\<close>

record mainenv = runenv +
  m_windows :: bool
  m_linux :: bool
  m_winpath :: winpath
  m_sconfig :: sconfig
  m_zipreader :: zipreader
  m_timestamp :: "int \<Rightarrow> string"
  m_Args :: "string list"

definition the_version :: string where
  "the_version = ''1.2.0.65''"

subsection \<open>Header and usage\<close>

definition usage_items :: "string list" where
  "usage_items = [''usage.title'', ''usage.usage'', ''usage.one_action'', ''usage.config'', ''usage.config_desc'', ''usage.verbose'',
     ''usage.verbose_desc'', ''usage.init'', ''usage.init_desc'', ''usage.cleanconfig'', ''usage.cleanconfig_desc'', ''usage.remove'',
     ''usage.remove_desc'', ''usage.status'', ''usage.status_desc'', ''usage.backup'', ''usage.backup_desc'', ''usage.restore'',
     ''usage.restore_desc'', ''usage.restorefull'', ''usage.restorefull_desc'', ''usage.getfile'', ''usage.getfile_desc'',
     ''usage.getfile_wildcards'', ''usage.help'', ''usage.help_desc'']"

definition printUsage :: "'a mworld_scheme \<Rightarrow> 'a mworld_scheme" where
  "printUsage w = fold (\<lambda>k. put Stderr k []) usage_items w"

definition own_path :: "'b mainenv_scheme \<Rightarrow> string" where
  "own_path N = (case Executable (r_proc N) of Some exe \<Rightarrow> exe | None \<Rightarrow> hd (m_Args N))"

definition printStartupHeader :: "'b mainenv_scheme \<Rightarrow> string \<Rightarrow> 'a mworld_scheme \<Rightarrow> 'a mworld_scheme" where
  "printStartupHeader N configPath w =
     (let w1 = put Stderr ''header.version'' [the_version] w;
          w2 = put Stderr ''header.executable'' [own_path N] w1;
          w3 = put Stderr ''header.arguments'' (tl (m_Args N)) w2
      in if configPath \<noteq> []
         then put Stderr ''section.config_file'' [case Abs (r_proc N) configPath of Some a \<Rightarrow> a | None \<Rightarrow> configPath] w3
         else w3)"

definition logStartup :: "'b mainenv_scheme \<Rightarrow> 'a mworld_scheme \<Rightarrow> 'a mworld_scheme" where
  "logStartup N w =
     log_msg INFO ''log.start.arguments'' (tl (m_Args N))
       (log_msg INFO ''log.start.version'' [the_version]
         (log_msg INFO ''log.start.executable'' [own_path N] w))"

text \<open>\<open>logger.New\<close> on the files of the state.\<close>

definition open_log :: "'b mainenv_scheme \<Rightarrow> string \<Rightarrow> 'a mworld_scheme \<Rightarrow> oserr option \<times> 'a mworld_scheme" where
  "open_log N path w =
     (case New (r_faults N) (r_now N (trace w)) path \<lparr>lfiles = files w, out = []\<rparr> of
        (Inl e, st) \<Rightarrow> (Some e, w\<lparr>files := lfiles st\<rparr>)
      | (Inr _, st) \<Rightarrow> (None, w\<lparr>files := lfiles st\<rparr>))"

definition load :: "'b mainenv_scheme \<Rightarrow> string \<Rightarrow> 'a mworld_scheme \<Rightarrow> (goerr, Config) result \<times> 'a mworld_scheme" where
  "load N path w =
     (case Load (m_sconfig N) path False (files w) of
        (Inl (key, text), f) \<Rightarrow> (Inl (Err key [text] None), w\<lparr>files := f\<rparr>)
      | (Inr cfg, f) \<Rightarrow> (Inr cfg, w\<lparr>files := f\<rparr>))"

definition log_path :: "'b mainenv_scheme \<Rightarrow> Config \<Rightarrow> string" where
  "log_path N cfg =
     (if LogFilename cfg \<noteq> [] then LogFilename cfg
      else
        let p = (case Executable (r_proc N) of
                   Some exe \<Rightarrow> if Dir exe \<noteq> [] then Join (Dir exe) ''mysqlbackup.log'' else []
                 | None \<Rightarrow> [])
        in if p = [] then Join (BackupDir cfg) ''mysqlbackup.log'' else p)"

definition loadConfigAndLog ::
  "'b mainenv_scheme \<Rightarrow> string \<Rightarrow> 'a mworld_scheme \<Rightarrow> (goerr, Config) result \<times> 'a mworld_scheme"
where
  "loadConfigAndLog N path w =
     (case load N path w of
        (Inl e, w1) \<Rightarrow> (Inl e, w1)
      | (Inr cfg, w1) \<Rightarrow>
          (case open_log N (log_path N cfg) w1 of
             (Some e, w2) \<Rightarrow> (Inl (OSErr e), w2)
           | (None, w2) \<Rightarrow>
               let w3 = (case Abs (r_proc N) (log_path N cfg) of
                           Some a \<Rightarrow> put Stderr ''section.log_file'' [a] w2
                         | None \<Rightarrow> w2)
               in (Inr cfg, logStartup N w3)))"

text \<open>An action that needs the configuration.\<close>

definition with_config ::
  "'b mainenv_scheme \<Rightarrow> string \<Rightarrow> (Config \<Rightarrow> 'a mworld_scheme \<Rightarrow> (int \<times> 'a mworld_scheme) option) \<Rightarrow> 'a mworld_scheme
     \<Rightarrow> (int \<times> 'a mworld_scheme) option"
where
  "with_config N path action w =
     (case loadConfigAndLog N path w of
        (Inl e, w1) \<Rightarrow> Some (1, put Stderr ''error.config'' [r_errtext N e] w1)
      | (Inr cfg, w1) \<Rightarrow> action cfg w1)"

definition die :: "string \<Rightarrow> string list \<Rightarrow> 'a mworld_scheme \<Rightarrow> int \<times> 'a mworld_scheme" where
  "die key args w = (1, put Stderr key args w)"

subsection \<open>Actions\<close>

definition ensure_schedule ::
  "'b mainenv_scheme \<Rightarrow> Config \<Rightarrow> string \<Rightarrow> bool \<Rightarrow> 'a mworld_scheme \<Rightarrow> goerr option \<times> 'a mworld_scheme"
where
  "ensure_schedule N cfg path verbose w =
     EnsureInstalled (m_windows N) (m_winpath N) (r_ext N) (r_proc N) (r_faults N) (r_now N (trace w)) cfg path verbose w"

definition runInit :: "'b mainenv_scheme \<Rightarrow> string \<Rightarrow> bool \<Rightarrow> 'a mworld_scheme \<Rightarrow> (int \<times> 'a mworld_scheme) option" where
  "runInit N path verbose w =
     with_config N path (\<lambda>cfg w. Some
       (case ensure_schedule N cfg path verbose w of
          (Some e, w1) \<Rightarrow> die ''error.init'' [r_errtext N e] w1
        | (None, w1) \<Rightarrow> (0, put Stdout ''msg.jobs_created'' [path] w1))) (printStartupHeader N path w)"

definition runCleanConfig :: "'b mainenv_scheme \<Rightarrow> string \<Rightarrow> bool \<Rightarrow> 'a mworld_scheme \<Rightarrow> (int \<times> 'a mworld_scheme) option" where
  "runCleanConfig N path verbose w =
     (let w1 = printStartupHeader N path w;
          w2 = (if verbose then put Stderr ''log.debug.loadclean'' [] w1 else w1)
      in Some (case LoadClean (m_sconfig N) path verbose (files w2) of
                 (Inl (key, text), f) \<Rightarrow> die ''error.cleanconfig'' [r_errtext N (Err key [text] None)] (w2\<lparr>files := f\<rparr>)
               | (Inr _, f) \<Rightarrow> (0, put Stdout ''msg.cleanconfig_done'' [path] (w2\<lparr>files := f\<rparr>))))"

definition runRemove :: "'b mainenv_scheme \<Rightarrow> string \<Rightarrow> bool \<Rightarrow> 'a mworld_scheme \<Rightarrow> (int \<times> 'a mworld_scheme) option" where
  "runRemove N path verbose w =
     (let (opened, w2) =
        (case load N path (printStartupHeader N path w) of
           (Inl _, w1) \<Rightarrow> (False, w1)
         | (Inr cfg, w1) \<Rightarrow>
             (case open_log N (if LogFilename cfg = [] then Join (BackupDir cfg) ''mysqlbackup.log'' else LogFilename cfg) w1 of
                (e, w2) \<Rightarrow> (e = None, w2)));
          (opened1, w3) = (if opened then (True, w2)
                           else (case open_log N ''mysqlbackup.log'' w2 of (e, w3) \<Rightarrow> (e = None, w3)));
          w4 = (if opened1 then logStartup N w3 else w3);
          log = (if opened1 then Some verbose else None)
      in Some (case (if m_windows N then windows_Uninstall (r_ext N) log w4
                     else Uninstall (r_ext N) (r_proc N) (r_faults N) (r_now N (trace w4)) log w4) of
                 (Some e, w5) \<Rightarrow> die ''error.remove'' [r_errtext N e] w5
               | (None, w5) \<Rightarrow> (0, put Stdout ''msg.jobs_removed'' [] w5)))"

text \<open>The overview: the size of a backup, and the sum as a 64-bit integer.\<close>

definition int64 :: "int \<Rightarrow> int" where
  "int64 n = (n + 2 ^ 63) mod 2 ^ 64 - 2 ^ 63"

definition short_name :: "string \<Rightarrow> string" where
  "short_name name = (if length name > 60 then take 59 name @ [CHR 0xE2, CHR 0x80, CHR 0xA6] else name)"

definition status_row :: "'b mainenv_scheme \<Rightarrow> BackupFile \<Rightarrow> string list" where
  "status_row N g = [m_timestamp N (ModTime g), formatSize (Size g), short_name (Base (Path g)),
     ''('' @ Classify (r_i18n N) (Date g) @ '')'']"

definition print_backups :: "'b mainenv_scheme \<Rightarrow> BackupFile list \<Rightarrow> 'a mworld_scheme \<Rightarrow> 'a mworld_scheme" where
  "print_backups N fls w =
     (let w1 = fold (\<lambda>g. put Stdout ''%-*s %*s %-*s %-*s'' (status_row N g)) fls w;
          total = foldl (\<lambda>s g. int64 (s + Size g)) 0 fls
      in put Stdout ''%-*s %*s %-*s'' [T (r_i18n N) ''status.summe'', formatSize total, ''msg.files_count'', Itoa (int (length fls))] w1)"

definition print_config :: "Config \<Rightarrow> string \<Rightarrow> 'a mworld_scheme \<Rightarrow> 'a mworld_scheme" where
  "print_config cfg path w =
     (let w1 = put Stdout ''section.config'' [] w;
          w2 = put Stdout ''section.config_file'' [path] w1;
          w3 = put Stdout ''section.mysql'' [MySQLHost cfg, Itoa (MySQLPort cfg)] w2;
          w4 = put Stdout ''section.backup_dir'' [BackupDir cfg] w3;
          w5 = put Stdout ''section.retention''
                 [Itoa (RetainDaily cfg), Itoa (RetainWeekly cfg), Itoa (RetainMonthly cfg), Itoa (RetainYearly cfg)] w4;
          w6 = put Stdout ''section.start_time'' [StartTime cfg] w5;
          w7 = (if RemoteBackupDir cfg \<noteq> [] \<and> RemoteSSHHost cfg \<noteq> []
                then put Stdout ''section.remote'' [RemoteBackupDir cfg, RemoteSSHHost cfg] w6 else w6)
      in put Stdout [] [] w7)"

definition job_status :: "'b mainenv_scheme \<Rightarrow> Config \<Rightarrow> string \<Rightarrow> 'a mworld_scheme \<Rightarrow> (string \<times> string list) \<times> 'a mworld_scheme" where
  "job_status N cfg path w =
     (if m_windows N then windows_Status (r_ext N) (r_proc N) cfg path w
      else Status (r_ext N) (r_proc N) (r_faults N) cfg path w)"

definition runStatus :: "'b mainenv_scheme \<Rightarrow> string \<Rightarrow> bool \<Rightarrow> 'a mworld_scheme \<Rightarrow> (int \<times> 'a mworld_scheme) option" where
  "runStatus N path verbose w =
     with_config N path (\<lambda>cfg w.
       let w1 = (if m_windows N \<or> m_linux N then
                   (case ensure_schedule N cfg path verbose w of
                      (Some e, w') \<Rightarrow> log_msg WARN ''log.warn.schedule_ensure'' [r_errtext N e] w'
                    | (None, w') \<Rightarrow> w')
                 else w);
           w2 = put Stdout ''section.job'' [] (print_config cfg path w1);
           ((key, args), w3) = job_status N cfg path w2;
           w4 = (if key \<noteq> [] then put Stdout key args w3 else put Stdout ''msg.no_job'' [] w3);
           w5 = put Stdout ''section.backups'' [] (put Stdout [] [] w4)
       in Some (0, (case ListBackups (r_sort N) (r_faults N) (files w5) (BackupDir cfg) of
                      Inl e \<Rightarrow> put Stderr ''section.backup_dir_error'' [r_errtext N (OSErr e)] w5
                    | Inr [] \<Rightarrow> put Stdout ''msg.no_backups'' [] w5
                    | Inr fls \<Rightarrow> print_backups N fls w5))) (printStartupHeader N path w)"

definition runGetfile :: "'b mainenv_scheme \<Rightarrow> string \<Rightarrow> string \<Rightarrow> 'a mworld_scheme \<Rightarrow> (int \<times> 'a mworld_scheme) option" where
  "runGetfile N path filename w =
     (let w1 = printStartupHeader N path w in
      if \<not> valid_getfile_arg filename then Some (die ''error.getfile_no_path'' [] w1)
      else with_config N path (\<lambda>cfg w. Some
        (case Getwd (r_proc N) of
           None \<Rightarrow> die ''error.workdir'' [] w
         | Some cwd \<Rightarrow>
             (case GetFile (r_ssh N) (r_faults N) (r_now N (trace w)) cfg filename cwd w of
                (Some e, _, w2) \<Rightarrow> die ''error.getfile'' [r_errtext N e] w2
              | (None, saved, w2) \<Rightarrow> (0, fold (\<lambda>p. put Stdout ''msg.saved'' [p]) saved w2)))) w1)"

definition refresh_schedule :: "'b mainenv_scheme \<Rightarrow> Config \<Rightarrow> string \<Rightarrow> bool \<Rightarrow> 'a mworld_scheme \<Rightarrow> 'a mworld_scheme" where
  "refresh_schedule N cfg path verbose w =
     (if \<not> m_windows N \<and> \<not> m_linux N then log_msg WARN ''log.warn.schedule_platform'' [] w
      else (case ensure_schedule N cfg path verbose w of
              (Some e, w1) \<Rightarrow> log_msg WARN ''log.warn.schedule_ensure'' [r_errtext N e] w1
            | (None, w1) \<Rightarrow> w1))"

definition runBackup :: "'b mainenv_scheme \<Rightarrow> string \<Rightarrow> bool \<Rightarrow> 'a mworld_scheme \<Rightarrow> (int \<times> 'a mworld_scheme) option" where
  "runBackup N path verbose w =
     with_config N path (\<lambda>cfg w.
       (case run_Backup (runenv.truncate N) cfg (refresh_schedule N cfg path verbose w) of
          None \<Rightarrow> None
        | Some (Some e, w2) \<Rightarrow> Some (1, log_msg ERROR ''log.error.backup_failed'' [r_errtext N e] w2)
        | Some (None, w2) \<Rightarrow> Some (0, log_msg INFO ''log.msg.backup_ok'' [] w2))) (printStartupHeader N path w)"

text \<open>The date of \<open>-restore\<close>: \<^term>\<open>Some None\<close> is no date, \<^const>\<open>None\<close> a date that is not one.\<close>

definition before_date :: "string \<Rightarrow> date option option" where
  "before_date dateStr =
     (if TrimSpace dateStr = [] then Some None else map_option Some (ParseDate (TrimSpace dateStr)))"

definition restore_loaded ::
  "'b mainenv_scheme \<Rightarrow> string \<Rightarrow> bool \<Rightarrow> Config \<Rightarrow> 'a mworld_scheme \<Rightarrow> (int \<times> 'a mworld_scheme) option"
where
  "restore_loaded N dateStr full cfg w =
     (case before_date dateStr of
        None \<Rightarrow> Some (die ''error.restoredate_format'' [] w)
      | Some beforeDate \<Rightarrow>
          (case LastBackupBefore (r_sort N) (r_faults N) (files w) (BackupDir cfg) beforeDate of
             Inl e \<Rightarrow> Some (die ''error.restore_select'' [r_errtext N (OSErr e)] w)
           | Inr fls \<Rightarrow>
               if fls = [] then Some (die ''error.restore_no_backup_found'' [] w)
               else
                 (case (if full then FullReinit (r_ext N) (r_faults N) (r_now N (trace w)) cfg w else Some (None, w)) of
                    None \<Rightarrow> None
                  | Some (Some e, w1) \<Rightarrow> Some (die ''error.restorefull'' [r_errtext N e] w1)
                  | Some (None, w1) \<Rightarrow>
                      let conn = (conn_of cfg)\<lparr>Password := if full then [] else RootPassword cfg\<rparr> in
                      (case RestoreFromZips (r_ext N) (m_zipreader N) (r_faults N) conn fls w1 of
                         (Some e, w2) \<Rightarrow> Some (die ''error.restore'' [r_errtext N e] w2)
                       | (None, w2) \<Rightarrow> Some (0, log_msg INFO ''log.msg.restore_ok'' [] w2)))))"

definition runRestore ::
  "'b mainenv_scheme \<Rightarrow> string \<Rightarrow> string \<Rightarrow> bool \<Rightarrow> 'a mworld_scheme \<Rightarrow> (int \<times> 'a mworld_scheme) option"
where
  "runRestore N path dateStr full w = with_config N path (restore_loaded N dateStr full) (printStartupHeader N path w)"

subsection \<open>The command line\<close>

text \<open>The change to the directory of the configuration; \<open>ok\<close> says whether it works.\<close>

definition work_dir :: "bool \<Rightarrow> string \<Rightarrow> procenv \<Rightarrow> procenv" where
  "work_dir ok path P =
     (if path = [] then P
      else (case Abs P path of
              None \<Rightarrow> P
            | Some a \<Rightarrow> if Dir a \<noteq> [] \<and> ok then P\<lparr>Getwd := Some (Dir a)\<rparr> else P))"

definition dispatch ::
  "'b mainenv_scheme \<Rightarrow> flags \<Rightarrow> string \<Rightarrow> string \<Rightarrow> 'a mworld_scheme \<Rightarrow> (int \<times> 'a mworld_scheme) option"
where
  "dispatch N fl path dateArg w =
     (let verbose = (fl_v fl \<or> fl_verbose fl) in
      if fl_init fl then runInit N path verbose w
      else if fl_cleanconfig fl then runCleanConfig N path verbose w
      else if fl_remove fl then runRemove N path verbose w
      else if fl_status fl then runStatus N path verbose w
      else if fl_backup fl then runBackup N path verbose w
      else if fl_restore fl then runRestore N path dateArg False w
      else if fl_restorefull fl then runRestore N path dateArg True w
      else if fl_getfile fl \<noteq> [] then runGetfile N path (fl_getfile fl) w
      else Some (0, w))"

definition main_cmd :: "'b mainenv_scheme \<Rightarrow> fs \<Rightarrow> bool \<Rightarrow> 'a mworld_scheme \<Rightarrow> (int \<times> 'a mworld_scheme) option" where
  "main_cmd N0 f0 chdir_ok w =
     (case flag_Parse no_flags (tl (m_Args N0)) of
        Inl code \<Rightarrow> Some (code, printUsage w)
      | Inr (fl, args) \<Rightarrow>
          let path = ConfigPath (r_faults N0) f0 (r_proc N0) (fl_config fl) (invokedDirectory (r_proc N0) (m_Args N0));
              N = N0\<lparr>r_proc := work_dir chdir_ok path (r_proc N0)\<rparr>;
              usage = printUsage (printStartupHeader N path w)
          in if 1 < length args then Some (die ''error.restore_too_many_args'' [] usage)
             else if length args = 1 \<and> \<not> fl_restore fl \<and> \<not> fl_restorefull fl
             then Some (die ''error.restoredate_requires_restore'' [] usage)
             else if action_count fl = 0 then Some (0, usage)
             else if 1 < action_count fl then Some (die ''error.one_flag'' [] usage)
             else dispatch N fl path (case args of [] \<Rightarrow> [] | a # _ \<Rightarrow> TrimSpace a) w)"

subsection \<open>Details\<close>

text \<open>
  A relative path of the configuration is read from the directory of the configuration: once the
  program has changed there, it looks for the file one directory further down.
\<close>

lemma relative_config:
  "Abs (work_dir True ''sub/c.json'' \<lparr>Executable = None, Getwd = Some ''/w'', UserHomeDir = None\<rparr>) ''sub/c.json'' = Some ''/w/sub/sub/c.json''"
  by code_simp

text \<open>A gibibyte is shown as \<open>1.0T\<close>.\<close>

lemma gibibyte_as_T: "formatSize 1073741824 = ''1.0T''"
  by code_simp

end
