(* ===== verification/Main_Secured.thy ===== *)
theory Main_Secured
  imports Main_Cmd
begin

text \<open>
  What the whole program achieves, from its command line to its exit status: a call that is not
  a request for one action changes nothing; a backup that ends with status 0 has secured every
  database; and a later restore that ends with status 0 has given every dump of that backup back
  to the server.
\<close>

subsection \<open>The files of the configuration\<close>

text \<open>
  The package \<open>sconfig\<close> changes no file but the configuration itself, in which it replaces
  passwords in plain text by encrypted ones.
\<close>

locale config_store =
  fixes S :: sconfig
  assumes only_path: "S c v p clean debug f = (r, f') \<Longrightarrow> fs_ok f \<Longrightarrow> fs_ok f' \<and> (\<forall>q. q \<noteq> p \<longrightarrow> map_of f' q = map_of f q)"

text \<open>
  Steps that leave every backup alone, here and on the other host.
\<close>

definition leaves :: "'a rworld_scheme \<Rightarrow> 'a rworld_scheme \<Rightarrow> bool" where
  "leaves w w' \<longleftrightarrow> rfiles w' = rfiles w \<and> extends (trace w) (trace w') \<and> (fs_ok (files w) \<longrightarrow> fs_ok (files w'))
     \<and> (\<forall>p. backup_suffix p \<longrightarrow> look w' p = look w p)"

named_theorems leavesi

lemma leaves_refl [simp, leavesi]: "leaves w w"
  by (simp add: leaves_def)

lemma leaves_trans: "leaves a b \<Longrightarrow> leaves b c \<Longrightarrow> leaves a c"
  by (auto simp: leaves_def intro: extends_trans)

lemma leaves_fine: "leaves w w' \<Longrightarrow> fine w \<Longrightarrow> fine w'"
  by (simp add: leaves_def fine_def nodirs_def)

lemma leaves_log_msg [simp, leavesi]: "leaves a b \<Longrightarrow> leaves a (log_msg l k x b)"
  by (simp add: leaves_def log_msg_def)

lemma leaves_emit [simp, leavesi]: "leaves a b \<Longrightarrow> leaves a (emit e b)"
  by (simp add: leaves_def emit_def)

lemma leaves_put [simp, leavesi]: "leaves a b \<Longrightarrow> leaves a (put ch k x b)"
  by (simp add: leaves_def put_def)

lemma leaves_WriteFile: "leaves a w \<Longrightarrow> WriteFile F (files w) p c now = Inr f \<Longrightarrow> \<not> backup_suffix p \<Longrightarrow> leaves a (w\<lparr>files := f\<rparr>)"
  by (auto simp: leaves_def WriteFile_def split: if_splits)

lemma leaves_MkdirAll: "leaves a w \<Longrightarrow> MkdirAll F (files w) p = Inr f \<Longrightarrow> \<not> backup_suffix p \<Longrightarrow> leaves a (w\<lparr>files := f\<rparr>)"
  by (auto simp: leaves_def MkdirAll_def split: if_splits option.splits node.splits)

lemma leaves_OpenAppend: "leaves a w \<Longrightarrow> OpenAppend F (files w) p now = Inr f \<Longrightarrow> \<not> backup_suffix p \<Longrightarrow> leaves a (w\<lparr>files := f\<rparr>)"
  by (auto simp: leaves_def OpenAppend_def split: if_splits option.splits node.splits)

lemma leaves_header: "leaves a w \<Longrightarrow> leaves a (printStartupHeader N path w)"
  by (simp add: printStartupHeader_def Let_def)

lemma leaves_open_log:
  assumes "open_log N path w = (None, w')" "leaves a w" "\<not> backup_suffix path" "\<not> backup_suffix (Dir path)"
  shows "leaves a w'"
proof -
  obtain f where f: "MkdirAll (r_faults N) (files w) (Dir path) = Inr f"
    using assms(1) by (auto simp: open_log_def New_def FromSlash_def Let_def split: sum.splits prod.splits)
  obtain f' where f': "OpenAppend (r_faults N) f path (r_now N (trace w)) = Inr f'" "w' = w\<lparr>files := f'\<rparr>"
    using assms(1) f by (auto simp: open_log_def New_def FromSlash_def Let_def split: sum.splits prod.splits)
  have "leaves a (w\<lparr>files := f\<rparr>)" by (rule leaves_MkdirAll [OF assms(2) f assms(4)])
  from leaves_OpenAppend [OF this _ assms(3), of "r_faults N" "r_now N (trace w)" f'] show ?thesis using f' by simp
qed

context config_store
begin

lemma leaves_load:
  assumes "load N path w = (r, w')" "m_sconfig N = S" "leaves a w" "fs_ok (files a)" "\<not> backup_suffix path"
  shows "leaves a w'"
proof -
  obtain r' f where f: "S DefaultConfig (Version DefaultConfig) path False False (files w) = (r', f)" by fastforce
  have "fs_ok (files w)" using assms(3,4) by (simp add: leaves_def)
  from only_path [OF f this] have "leaves a (w\<lparr>files := f\<rparr>)" using assms(3,5) by (auto simp: leaves_def)
  moreover have "w' = w\<lparr>files := f\<rparr>"
    using assms(1) f by (auto simp: load_def Load_def assms(2) Let_def split: sum.splits prod.splits)
  ultimately show ?thesis by simp
qed

text \<open>What the beginning of an action does where it succeeds.\<close>

lemma with_config_ok:
  assumes "with_config N path action w = Some (0, w')" "m_sconfig N = S" "fs_ok (files w)" "\<not> backup_suffix path"
    and "fst (Load S path False (files w)) = Inr cfg" "\<not> backup_suffix (LogFilename cfg)" "\<not> backup_suffix (Dir (LogFilename cfg))"
  obtains v where "leaves w v" "action cfg v = Some (0, w')"
proof -
  have P: "LogFilename cfg \<noteq> []"
    using assms(5) by (auto simp: Load_def Let_def split: sum.splits prod.splits)
  then have lp: "log_path N cfg = LogFilename cfg" by (simp add: log_path_def)
  obtain w1 where l: "load N path w = (Inr cfg, w1)"
    using assms(5) by (cases "Load S path False (files w)") (auto simp: load_def assms(2))
  have w1: "leaves w w1" by (rule leaves_load [OF l assms(2) leaves_refl assms(3,4)])
  obtain w2 where o: "open_log N (log_path N cfg) w1 = (None, w2)"
    using assms(1) l by (auto simp: with_config_def loadConfigAndLog_def split: prod.splits option.splits)
  have "leaves w w2" by (rule leaves_open_log [OF o w1]) (simp_all add: lp assms(6,7))
  then have "leaves w (logStartup N (case Abs (r_proc N) (log_path N cfg) of Some a \<Rightarrow> put Stderr ''section.log_file'' [a] w2 | None \<Rightarrow> w2))"
    by (auto simp: logStartup_def split: option.split)
  then show thesis using that assms(1) l o by (simp add: with_config_def loadConfigAndLog_def)
qed

end

subsection \<open>Scheduling\<close>

lemma not_backup_entry:
  assumes "entry_name n" "\<not> backup_suffix n" "4 \<le> length n" shows "\<not> backup_suffix (Join d n)"
proof -
  have "\<exists>x. Join d n = x @ n"
  proof (cases "d = []")
    case True
    have "Split n slash = [n]" using assms(1) by (simp add: Split_no_sep entry_name_def)
    then have "Clean n = n" using assms(1) by (cases n) (auto simp: Clean_def elements_def clean_step_def path_of_def rooted_def HasPrefix_def entry_name_def)
    then show ?thesis using True by (simp add: Join_def)
  next
    case False
    have "Join (Clean d) n = (if Clean d = ''.'' then n else if Clean d = [slash] then slash # n else Clean d @ slash # n)"
      by (rule Join_entry [OF is_clean_Clean assms(1)])
    then have "\<exists>x. Join (Clean d) n = x @ n" by (metis append_Cons append_Nil append_assoc)
    then show ?thesis using Join_Clean [OF False assms(1)] by simp
  qed
  then show ?thesis using assms(2,3) by (auto simp: backup_suffix_def HasSuffix_def numeral_eq_Suc)
qed

lemma job_paths:
  "\<not> backup_suffix (userDir_of home)" "\<not> backup_suffix (servicePath_of home)" "\<not> backup_suffix (timerPath_of home)"
  unfolding userDir_of_def servicePath_of_def timerPath_of_def
  by (rule not_backup_entry; simp add: entry_name_def serviceName_def backup_suffix_def HasSuffix_def)+

lemma leaves_runWithDebug [leavesi]: "leaves a w \<Longrightarrow> leaves a (snd (runWithDebug X log n args w))"
  by (simp add: runWithDebug_def Let_def case_prod_beta)

lemma leaves_system_cron:
  assumes "leaves a w" shows "leaves a (snd (ensureUnixCronSystemFile F now hour minute line w))"
proof -
  have p: "\<not> backup_suffix p" if "first_readable F (files w) systemCrontabPaths ErrOther = Inr (p, d)" for p d
    using that by (auto simp: systemCrontabPaths_def backup_suffix_def HasSuffix_def split: sum.splits)
  show ?thesis unfolding ensureUnixCronSystemFile_def
    using assms by (auto simp: leaves_WriteFile [OF assms _ p] split: sum.split cron_change.split)
qed

lemma leaves_cron:
  assumes "leaves a w" shows "leaves a (snd (ensureUnixCron X P F now cfg path w))"
proof -
  have g: "leaves a (snd (getCrontab X w))" using assms by (simp add: getCrontab_def case_prod_beta)
  have t: "leaves a v \<Longrightarrow> leaves a (snd (setCrontab X c v))" for c v by (simp add: setCrontab_def case_prod_beta)
  show ?thesis unfolding ensureUnixCron_def Let_def case_prod_beta
    using assms g t [OF g] leaves_system_cron [OF g] leaves_system_cron [OF t [OF g]]
    by (simp add: case_prod_beta split: option.split sum.split cron_change.split)
qed

lemma leaves_systemd:
  assumes "leaves a w" shows "leaves a (snd (ensureLinuxSystemd P F now cfg path w))"
proof -
  have 1: "leaves a (w\<lparr>files := f1\<rparr>)" if "MkdirAll F (files w) (userDir_of home) = Inr f1" for home f1
    using leaves_MkdirAll [OF assms that job_paths(1)] .
  have 2: "leaves a (w\<lparr>files := f2\<rparr>)" if "leaves a (w\<lparr>files := f1\<rparr>)" "WriteFile F f1 p c now = Inr f2" "\<not> backup_suffix p" for f1 f2 p c
    using leaves_WriteFile [OF that(1) _ that(3), of F c now f2] that(2) by simp
  show ?thesis unfolding ensureLinuxSystemd_def
    using assms 1 2 [OF 1 _ job_paths(2)] 2 [OF 2 [OF 1 _ job_paths(2)] _ job_paths(3)]
    by (auto split: option.split sum.split)
qed

lemma leaves_schedule:
  assumes "leaves a w" "\<not> m_windows N" shows "leaves a (snd (ensure_schedule N cfg path verbose w))"
proof -
  obtain b w1 where b: "systemdUserAvailable (r_ext N) (Some verbose) w = (b, w1)" by fastforce
  have "leaves a w1"
    using leaves_runWithDebug [OF assms(1)] b by (auto simp: systemdUserAvailable_def case_prod_beta)
  then show ?thesis
    using assms by (simp add: ensure_schedule_def EnsureInstalled_def ensureUnix_def b leaves_systemd leaves_cron split: option.split sum.split bool.split)
qed

subsection \<open>Actions\<close>

text \<open>The environment of a run does not depend on the working directory of the process.\<close>

definition run_env :: "'b mainenv_scheme \<Rightarrow> runenv" where
  "run_env N = runenv.truncate N"

lemma run_env_simps [simp]:
  "r_ext (run_env N) = r_ext N" "r_zip (run_env N) = r_zip N" "r_ssh (run_env N) = r_ssh N" "r_faults (run_env N) = r_faults N"
  "r_order (run_env N) = r_order N" "r_errtext (run_env N) = r_errtext N" "r_sort (run_env N) = r_sort N" "r_now (run_env N) = r_now N"
  "r_today (run_env N) = r_today N" "r_i18n (run_env N) = r_i18n N" "r_proc (run_env N) = r_proc N"
  "run_env (N\<lparr>r_proc := P\<rparr>) = (run_env N)\<lparr>r_proc := P\<rparr>"
  by (simp_all add: run_env_def runenv.defs)

lemma r_proc_simps [simp]:
  fixes N :: runenv
  shows "r_ext (N\<lparr>r_proc := P\<rparr>) = r_ext N" "r_zip (N\<lparr>r_proc := P\<rparr>) = r_zip N" "r_ssh (N\<lparr>r_proc := P\<rparr>) = r_ssh N"
    "r_errtext (N\<lparr>r_proc := P\<rparr>) = r_errtext N" "r_i18n (N\<lparr>r_proc := P\<rparr>) = r_i18n N" "r_order (N\<lparr>r_proc := P\<rparr>) = r_order N"
    "r_sort (N\<lparr>r_proc := P\<rparr>) = r_sort N" "r_today (N\<lparr>r_proc := P\<rparr>) = r_today N"
  by simp_all

lemma proc_simps [simp]:
  fixes N :: runenv
  shows "run_ok (N\<lparr>r_proc := P\<rparr>) = run_ok N" "query_server (N\<lparr>r_proc := P\<rparr>) = query_server N"
    "user_sql (N\<lparr>r_proc := P\<rparr>) = user_sql N" "secured (N\<lparr>r_proc := P\<rparr>) = secured N"
  unfolding run_ok_def query_server_def user_sql_def secured_def give_up_def sendErrorEmail_def export_users_def r_proc_simps
  by (rule refl)+

text \<open>What an action needs to know of the configuration file, the configuration and its log file.\<close>

definition loads :: "'b mainenv_scheme \<Rightarrow> string \<Rightarrow> fs \<Rightarrow> Config \<Rightarrow> bool" where
  "loads N path f cfg \<longleftrightarrow> config_store (m_sconfig N) \<and> \<not> m_windows N \<and> fst (Load (m_sconfig N) path False f) = Inr cfg
     \<and> list_all (\<lambda>p. \<not> backup_suffix p) [path, LogFilename cfg, Dir (LogFilename cfg)]"

lemma files_header [simp]: "files (printStartupHeader N path w) = files w"
  by (simp add: printStartupHeader_def put_def Let_def)

lemma action_loaded:
  assumes "with_config N path action (printStartupHeader N path w) = Some (0, w')" "loads N path (files w) cfg" "fs_ok (files w)"
  shows "\<exists>v. leaves w v \<and> action cfg v = Some (0, w')"
proof -
  have L: "config_store (m_sconfig N)" using assms(2) by (simp add: loads_def)
  obtain v where "leaves (printStartupHeader N path w) v" "action cfg v = Some (0, w')"
    by (rule config_store.with_config_ok [OF L assms(1) refl, of cfg]) (use assms(2,3) in \<open>auto simp: loads_def\<close>)
  then show ?thesis using leaves_trans [OF leaves_header [OF leaves_refl]] by blast
qed

lemma runBackup_ok:
  fixes w :: "'a mworld_scheme"
  assumes "runBackup N path verbose w = Some (0, w')" "loads N path (files w) cfg" "fs_ok (files w)"
  obtains v w2 :: "'a mworld_scheme" where "leaves w v" "run_Backup (run_env N) cfg v = Some (None, w2)" "w' = log_msg INFO ''log.msg.backup_ok'' [] w2"
proof -
  from action_loaded [OF assms(1) [unfolded runBackup_def] assms(2,3)] obtain v w2 where v: "leaves w v"
    "run_Backup (run_env N) cfg (refresh_schedule N cfg path verbose v) = Some (None, w2)" "w' = log_msg INFO ''log.msg.backup_ok'' [] w2"
    unfolding run_env_def by (auto split: option.splits prod.splits)
  have "\<not> m_windows N" using assms(2) by (simp add: loads_def)
  then have "leaves w (refresh_schedule N cfg path verbose v)" using v(1) leaves_schedule [OF v(1), of N cfg path verbose]
    unfolding refresh_schedule_def by (auto split: prod.split option.split)
  then show thesis using that v by blast
qed

lemma runRestore_ok:
  fixes w :: "'a mworld_scheme"
  assumes "runRestore N path [] False w = Some (0, w')" "loads N path (files w) cfg" "fs_ok (files w)"
  obtains v w2 :: "'a mworld_scheme" and fls where "leaves w v"
    "LastBackupBefore (r_sort N) (r_faults N) (files v) (BackupDir cfg) None = Inr fls" "fls \<noteq> []"
    "RestoreFromZips (r_ext N) (m_zipreader N) (r_faults N) (conn_of cfg) fls v = (None, w2)" "trace w' = trace w2"
proof -
  have d: "before_date [] = Some None" by code_simp
  have c: "(conn_of cfg)\<lparr>Password := RootPassword cfg\<rparr> = conn_of cfg" by (simp add: conn_of_def)
  from action_loaded [OF assms(1) [unfolded runRestore_def] assms(2,3)] obtain v where
    v: "leaves w v" "restore_loaded N [] False cfg v = Some (0, w')" by blast
  obtain fls where f: "LastBackupBefore (r_sort N) (r_faults N) (files v) (BackupDir cfg) None = Inr fls" "fls \<noteq> []"
    using v(2) by (auto simp: restore_loaded_def d die_def split: sum.splits if_splits)
  obtain e w2 where R: "RestoreFromZips (r_ext N) (m_zipreader N) (r_faults N) (conn_of cfg) fls v = (e, w2)" by fastforce
  with v(2) f have "e = None" "trace w' = trace w2"
    by (auto simp: restore_loaded_def d die_def c split: option.splits)
  then show thesis using that v(1) f R by blast
qed

text \<open>The command lines of a backup and of a restore; that of the backup is the one a schedule has.\<close>

lemma flag_Parse_action:
  "flag_Parse no_flags [''--backup'', ''-config'', p] = Inr (no_flags\<lparr>fl_backup := True, fl_config := p\<rparr>, [])"
  "flag_Parse no_flags [''--restore'', ''-config'', p] = Inr (no_flags\<lparr>fl_restore := True, fl_config := p\<rparr>, [])"
  by (simp_all add: flag_Parse.simps declared_def Let_def no_flags_def)

lemma no_flags_simps [simp]:
  "fl_config no_flags = []" "fl_v no_flags = False" "fl_verbose no_flags = False" "fl_init no_flags = False" "fl_cleanconfig no_flags = False"
  "fl_remove no_flags = False" "fl_status no_flags = False" "fl_backup no_flags = False" "fl_restore no_flags = False"
  "fl_restorefull no_flags = False" "fl_getfile no_flags = []"
  by (simp_all add: no_flags_def)

lemma main_action:
  assumes "main_cmd N f0 chdir_ok w = r" "m_Args N = [arg0, action, ''-config'', p]" "p \<noteq> []"
    and "N' = N\<lparr>r_proc := work_dir chdir_ok (Clean p) (r_proc N)\<rparr>"
  shows "action = ''--backup'' \<Longrightarrow> runBackup N' (Clean p) False w = r"
    "action = ''--restore'' \<Longrightarrow> runRestore N' (Clean p) [] False w = r"
  using assms by (simp_all add: main_cmd_def flag_Parse_action Let_def ConfigPath_def FromSlash_def action_count_def dispatch_def)

lemma loads_proc [simp]: "loads (N\<lparr>r_proc := P\<rparr>) = loads N"
  by (simp add: fun_eq_iff loads_def)

lemma main_backup_run:
  fixes w :: "'a mworld_scheme"
  assumes "main_cmd N f0 chdir_ok w = Some (0, w')" "m_Args N = [arg0, ''--backup'', ''-config'', p]" "p \<noteq> []"
    and "loads N (Clean p) (files w) cfg" "run_ok (run_env N) cfg" "fine w" "cleanup_ok (r_faults N)" "sftp_server (r_ssh N)"
    and "\<forall>tr. r_today N tr = today" "0 \<le> RetainDaily cfg"
    and "\<forall>tr q c s. map_of (rfiles w) q = Some (File c s) \<longrightarrow> s < r_now N tr"
  shows "\<exists>(v :: 'a mworld_scheme) v' m names t. extends (trace w) (trace v) \<and> query_server (run_env N) cfg (conn_of cfg) v = (Inr (m, names), v')
     \<and> extends (trace v') (trace w') \<and> list_all (secured (run_env N) cfg today t m (user_sql (run_env N) cfg m v') (trace v') w') names"
proof -
  define N' where "N' = N\<lparr>r_proc := work_dir chdir_ok (Clean p) (r_proc N)\<rparr>"
  have E: "run_env N' = (run_env N)\<lparr>r_proc := work_dir chdir_ok (Clean p) (r_proc N)\<rparr>" by (simp add: N'_def)
  have "runBackup N' (Clean p) False w = Some (0, w')" by (rule main_action(1) [OF assms(1-3) N'_def refl])
  moreover have "loads N' (Clean p) (files w) cfg" "fs_ok (files w)" using assms(4,6) by (simp_all add: N'_def fine_def)
  ultimately obtain v w2 :: "'a mworld_scheme" where v: "leaves w v" "run_Backup (run_env N') cfg v = Some (None, w2)"
      "w' = log_msg INFO ''log.msg.backup_ok'' [] w2" by (rule runBackup_ok)
  have l: "rfiles v = rfiles w" "extends (trace w) (trace v)" using v(1) by (simp_all add: leaves_def)
  have s: "secured (run_env N) cfg today t m us evs (log_msg l k a w2) = secured (run_env N) cfg today t m us evs w2" for t m us evs l k a
    by (simp add: fun_eq_iff secured_def)
  from run_Backup_secured [OF v(2), of today] obtain u :: "'a mworld_scheme" and u' m names t where "extends (trace v) (trace u)"
      "query_server (run_env N) cfg (conn_of cfg) u = (Inr (m, names), u')" "extends (trace u') (trace w2)"
      "list_all (secured (run_env N) cfg today t m (user_sql (run_env N) cfg m u') (trace u') w2) names"
    using assms(5,7-11) leaves_fine [OF v(1) assms(6)] l(1) unfolding E by auto
  then show ?thesis using extends_trans [OF l(2)] unfolding v(3) s trace_log_msg by blast
qed

subsection \<open>Restoring a backup\<close>

text \<open>
  A database has been restored by the events \<open>evs2\<close>: a \<open>mysql\<close> has been given the complete output
  of the \<open>mysqldump\<close> that was run for the database between \<open>evs0\<close> and \<open>evs\<close>, with the SQL of its users.
\<close>

definition restored :: "extenv \<Rightarrow> Conn \<Rightarrow> bool \<Rightarrow> (string \<rightharpoonup> string) \<Rightarrow> event list \<Rightarrow> event list \<Rightarrow> event list \<Rightarrow> string \<Rightarrow> bool" where
  "restored X conn m us evs0 evs evs2 db \<longleftrightarrow>
     (\<exists>tr. extends evs0 tr \<and> extends (tr @ [Exec (binPath conn ''mysqldump'') (dump_args conn db m) []]) evs
        \<and> status (dump_reply X conn m db tr) = ExitOK
        \<and> Exec (binPath conn ''mysql'') (baseArgs conn)
             (stdout (dump_reply X conn m db tr) @ concat (user_writes (case us db of None \<Rightarrow> [] | Some s \<Rightarrow> s))) \<in> set evs2)"

text \<open>The backup of the latest day is selected, and the SQL of each of its files is imported.\<close>

lemma latest_selected:
  assumes "slice_sort s" "LastBackupBefore s F f dir None = Inr sel" "sel \<noteq> []" "is_clean dir"
    and "map_of f (Join dir n) = Some (File c t)" "entry_name n" "backup_name_date n = Some today"
    and "\<forall>n d. entry_name n \<longrightarrow> map_of f (Join dir n) \<noteq> None \<longrightarrow> backup_name_date n = Some d \<longrightarrow> d \<le> today"
  shows "\<exists>g \<in> set sel. Path g = Join dir n"
proof -
  obtain fls where L: "ListBackups s F f dir = Inr fls" using assms(2) by (auto simp: LastBackupBefore_def split: sum.splits)
  then have "fls \<noteq> []" using assms(2,3) by (auto simp: LastBackupBefore_def)
  then obtain es where es: "ReadDir F f dir = Inr es" "set fls = set (list_loop F f dir es)"
    using L by (cases rule: slice_sort.ListBackups_cases [OF assms(1)]) auto
  have "(n, File c t) \<in> set es"
    using set_ReadDir [OF es(1)] assms(5,6) Base_Join [OF assms(4,6)] by (auto simp: entries_iff dest!: map_of_SomeD)
  then have g: "backup_file F f (Join dir n) today \<in> set fls" using es(2) assms(7) by (auto simp: set_list_loop)
  have "Date h \<le> today" if in_fls: "h \<in> set fls" for h
  proof -
    obtain n' c' m' d where h: "(n', File c' m') \<in> set es" "backup_name_date n' = Some d" "Date h = d"
      using in_fls es(2) by (auto simp: set_list_loop)
    then have e: "entry_name n'" "(Join dir n', File c' m') \<in> set f"
      using set_ReadDir [OF es(1)] by (auto simp: entries_iff)
    then have "map_of f (Join dir n') \<noteq> None" by (metis weak_map_of_SomeI option.distinct(1))
    then show ?thesis using assms(8) e(1) h(2,3) by blast
  qed
  with g have "latest None fls (backup_file F f (Join dir n) today)" by (simp add: latest_def eligible_def)
  then have "backup_file F f (Join dir n) today \<in> set sel" using slice_sort.LastBackupBefore_latest [OF assms(1) L assms(2)] by blast
  then show ?thesis by (rule rev_bexI) simp
qed

lemma imported:
  assumes "RestoreFromZips X ZR F conn fls w = (None, w')" "g \<in> set fls" "sql_of ZR (files w) (Path g) = Some d"
  shows "Exec (binPath conn ''mysql'') (baseArgs conn) d \<in> set (drop (length (trace w)) (trace w'))"
proof -
  have "fls \<noteq> []" using assms(2) by auto
  from RestoreFromZips_outcome [OF assms(1) this] obtain ds where
    ds: "map (\<lambda>f. sql_of ZR (files w) (Path f)) fls = map Some ds" "trace w' = trace w @ import_events conn ds"
    by (auto simp: restore_outcome_def)
  have "Some d \<in> set (map (\<lambda>f. sql_of ZR (files w) (Path f)) fls)" using assms(2,3) by (metis list.set_map image_eqI)
  then have "d \<in> set ds" unfolding ds(1) by auto
  then show ?thesis by (simp add: ds(2) import_events_def)
qed

lemma archive_sql:
  assumes "\<forall>n c. ZR (zip_final Z n c) = Some [(n, Readable c)]" "map_of f p = Some (File (zip_final Z (db @ ''.sql'') d) t)"
  shows "sql_of ZR f p = Some d"
proof -
  have "Ext (db @ ''.sql'') = ''.sql''" using Ext_append [of "''sql''" db] by simp
  moreover have "EqualFold ''.sql'' ''.sql''" by code_simp
  ultimately show ?thesis using assms by (simp add: sql_of_def sql_entry_def)
qed

lemma restore_secured:
  fixes w :: "'a mworld_scheme"
  assumes "runRestore N path [] False w = Some (0, w')" "loads N path (files w) cfg" "fs_ok (files w)"
    and "slice_sort (r_sort N)" "is_clean (BackupDir cfg)" "date_ok today" "db_name db"
    and "\<forall>n c. m_zipreader N (zip_final Z n c) = Some [(n, Readable c)]"
    and "\<forall>n d. entry_name n \<longrightarrow> look w (Join (BackupDir cfg) n) \<noteq> None \<longrightarrow> backup_name_date n = Some d \<longrightarrow> d \<le> today"
    and "backed_up X Z evs0 evs t (conn_of cfg) m us db (look w (Join (BackupDir cfg) (zipName_of today (hostnameForFile h) db)))"
  shows "restored X (conn_of cfg) m us evs0 evs (drop (length (trace w)) (trace w')) db"
proof -
  define n where "n = zipName_of today (hostnameForFile h) db"
  have n: "entry_name n" "backup_name_date n = Some today"
    unfolding n_def using zipName_entry [OF assms(6,7)] zipName_date [OF assms(6)] by simp_all
  obtain a where "Join (BackupDir cfg) n = a @ ''.zip''" unfolding n_def using zip_sav_paths [OF assms(5-7)] by blast
  then have bs: "backup_suffix (Join (BackupDir cfg) n)" by (simp add: backup_suffix_def)
  obtain v w2 :: "'a mworld_scheme" and fls where v: "leaves w v"
    "LastBackupBefore (r_sort N) (r_faults N) (files v) (BackupDir cfg) None = Inr fls" "fls \<noteq> []"
    "RestoreFromZips (r_ext N) (m_zipreader N) (r_faults N) (conn_of cfg) fls v = (None, w2)" "trace w' = trace w2"
    by (rule runRestore_ok [OF assms(1-3)])
  have v': "look v p = look w p" if "backup_suffix p" for p using v(1) that by (simp add: leaves_def)
  from assms(10) obtain tr where tr: "extends evs0 tr" "extends (tr @ [Exec (binPath (conn_of cfg) ''mysqldump'') (dump_args (conn_of cfg) db m) []]) evs"
      "status (dump_reply X (conn_of cfg) m db tr) = ExitOK"
      "look w (Join (BackupDir cfg) n) = Some (File (zip_final Z (db @ ''.sql'')
         (stdout (dump_reply X (conn_of cfg) m db tr) @ concat (user_writes (case us db of None \<Rightarrow> [] | Some s \<Rightarrow> s)))) t)"
    unfolding backed_up_def n_def by blast
  have old: "d \<le> today" if x: "entry_name k" "look v (Join (BackupDir cfg) k) \<noteq> None" "backup_name_date k = Some d" for k d
  proof -
    obtain u where "k = u @ ''.zip''" using x(3) unfolding backup_name_date_iff by (metis append_assoc)
    then obtain b where "Join (BackupDir cfg) k = b @ ''.zip''" using Join_suffix [OF assms(5), of u "''.zip''"] x(1) by metis
    then have "backup_suffix (Join (BackupDir cfg) k)" by (simp add: backup_suffix_def)
    then show ?thesis using assms(9) x v' by simp
  qed
  obtain g where g: "g \<in> set fls" "Path g = Join (BackupDir cfg) n"
    using latest_selected [OF assms(4) v(2,3) assms(5) _ n] tr(4) v' [OF bs] old by auto
  have "sql_of (m_zipreader N) (files v) (Path g) =
      Some (stdout (dump_reply X (conn_of cfg) m db tr) @ concat (user_writes (case us db of None \<Rightarrow> [] | Some s \<Rightarrow> s)))"
    by (rule archive_sql [OF assms(8)]) (use tr(4) v' [OF bs] g(2) in simp)
  from imported [OF v(4) g(1) this] have "Exec (binPath (conn_of cfg) ''mysql'') (baseArgs (conn_of cfg))
      (stdout (dump_reply X (conn_of cfg) m db tr) @ concat (user_writes (case us db of None \<Rightarrow> [] | Some s \<Rightarrow> s)))
      \<in> set (drop (length (trace v)) (trace w'))" by (simp add: v(5))
  moreover have "extends (trace w) (trace v)" using v(1) by (simp add: leaves_def)
  then have "set (drop (length (trace v)) (trace w')) \<subseteq> set (drop (length (trace w)) (trace w'))"
    by (metis extends_iff length_append le_add1 set_drop_subset_set_drop)
  ultimately show ?thesis using tr(1-3) unfolding restored_def by blast
qed

subsection \<open>Output only\<close>

lemma fold_put: "fold (\<lambda>k. put ch k []) ks v = v\<lparr>screen := screen v @ map (\<lambda>k. (ch, k, [])) ks\<rparr>"
  by (induction ks arbitrary: v) (simp_all add: put_def)

definition printed :: "(channel \<times> string \<times> string list) list \<Rightarrow> 'a mworld_scheme \<Rightarrow> 'a mworld_scheme" where
  "printed shown w = w\<lparr>screen := screen w @ shown\<rparr>"

lemma put_printed [simp]: "put ch k a (printed shown w) = printed (shown @ [(ch, k, a)]) w"
  by (simp add: put_def printed_def)

lemma header_printed: "\<exists>shown. printStartupHeader N path w = printed shown w"
proof -
  have w: "w = printed [] w" by (simp add: printed_def)
  have "printStartupHeader N path (printed [] w) \<in> range (\<lambda>shown. printed shown w)"
    by (simp only: printStartupHeader_def Let_def put_printed split: if_split) blast
  then show ?thesis using w by auto
qed

definition only_prints :: "'a mworld_scheme \<Rightarrow> 'a mworld_scheme \<Rightarrow> bool" where
  "only_prints w w' \<longleftrightarrow> (\<exists>shown. w' = printed shown w \<and> set usage_items \<subseteq> (fst \<circ> snd) ` set shown)"

lemma only_prints_usage: "only_prints w (printUsage (printStartupHeader N path w))"
proof -
  obtain shown where s: "printStartupHeader N path w = printed shown w" using header_printed by blast
  have "set usage_items \<subseteq> (fst \<circ> snd) ` set (shown @ map (\<lambda>k. (Stderr, k, [])) usage_items)" by force
  then show ?thesis unfolding only_prints_def printUsage_def fold_put s
    by (intro exI [of _ "shown @ map (\<lambda>k. (Stderr, k, [])) usage_items"]) (simp add: printed_def)
qed

lemma only_prints_put: "only_prints w v \<Longrightarrow> only_prints w (put ch k a v)"
  unfolding only_prints_def using put_printed by fastforce

subsection \<open>Properties\<close>


text \<open>
  C2. The command a schedule runs, \<open>--backup -config\<close> and a path, that ends with exit status 0, has
  asked the server for its databases and has secured every one of them, here and, where it is
  configured, on the other host: from the command line through configuration, log, schedule,
  dump, retention and synchronisation. (The assumptions on the surroundings are those of a run;
  neither the configuration nor the log has the name of a backup.)
\<close>

theorem main_backup_secures:
  fixes w :: "'a mworld_scheme"
  assumes "main_cmd N f0 chdir_ok w = Some (0, w')" "m_Args N = [arg0, ''--backup'', ''-config'', p]" "p \<noteq> []"
    and "loads N (Clean p) (files w) cfg" "run_ok (run_env N) cfg" "fine w" "cleanup_ok (r_faults N)" "sftp_server (r_ssh N)"
    and "\<forall>tr. r_today N tr = today" "0 \<le> RetainDaily cfg"
    and "\<forall>tr q c s. map_of (rfiles w) q = Some (File c s) \<longrightarrow> s < r_now N tr"
  shows "\<exists>(v :: 'a mworld_scheme) v' m names t. extends (trace w) (trace v) \<and> query_server (run_env N) cfg (conn_of cfg) v = (Inr (m, names), v')
     \<and> extends (trace v') (trace w') \<and> list_all (secured (run_env N) cfg today t m (user_sql (run_env N) cfg m v') (trace v') w') names"
  using assms by (rule main_backup_run)

text \<open>
  C1. What was backed up can be restored: after a backup that ended with exit status 0, a restore
  without a date that ends with exit status 0 has given the server, for every database of the
  backup, the complete output that \<open>mysqldump\<close> wrote, followed by the SQL of the users of the
  database. (The same configuration is loaded both times, a zip file is read as it was written,
  and no backup is dated after the day of the backup.)
\<close>

theorem restore_after_backup:
  fixes w v :: "'a mworld_scheme"
  assumes "main_cmd N f0 chdir_ok w = Some (0, w')" "m_Args N = [arg0, ''--backup'', ''-config'', p]" "p \<noteq> []"
    and "loads N (Clean p) (files w) cfg" "run_ok (run_env N) cfg" "fine w" "cleanup_ok (r_faults N)" "sftp_server (r_ssh N)"
    and "\<forall>tr. r_today N tr = today" "0 \<le> RetainDaily cfg"
    and "\<forall>tr q c s. map_of (rfiles w) q = Some (File c s) \<longrightarrow> s < r_now N tr"
    and "main_cmd M g0 chdir_ok2 v = Some (0, v')" "m_Args M = [arg0, ''--restore'', ''-config'', p]" "files v = files w'" "fs_ok (files v)"
    and "loads M (Clean p) (files v) cfg" "slice_sort (r_sort M)"
    and "\<forall>n c. m_zipreader M (zip_final (r_zip N) n c) = Some [(n, Readable c)]"
    and "\<forall>n d. entry_name n \<longrightarrow> look v (Join (BackupDir cfg) n) \<noteq> None \<longrightarrow> backup_name_date n = Some d \<longrightarrow> d \<le> today"
  shows "\<exists>(u :: 'a mworld_scheme) u' m names. extends (trace w) (trace u) \<and> query_server (run_env N) cfg (conn_of cfg) u = (Inr (m, names), u')
     \<and> extends (trace u') (trace w')
     \<and> list_all (restored (r_ext N) (conn_of cfg) m (user_sql (run_env N) cfg m u') (trace u') (trace w') (drop (length (trace v)) (trace v'))) names"
proof -
  obtain u :: "'a mworld_scheme" and u' m names t where u: "extends (trace w) (trace u)" "query_server (run_env N) cfg (conn_of cfg) u = (Inr (m, names), u')"
     "extends (trace u') (trace w')" "list_all (secured (run_env N) cfg today t m (user_sql (run_env N) cfg m u') (trace u') w') names"
    using main_backup_run [OF assms(1-11)] by blast
  have ok: "is_clean (BackupDir cfg)" "date_ok today" "list_all db_name names"
    using assms(5,9) query_server_sane [OF _ u(2)] by (auto simp: run_ok_def)
  define M' where "M' = M\<lparr>r_proc := work_dir chdir_ok2 (Clean p) (r_proc M)\<rparr>"
  have R: "runRestore M' (Clean p) [] False v = Some (0, v')" by (rule main_action(2) [OF assms(12,13,3) M'_def refl])
  have "restored (r_ext N) (conn_of cfg) m (user_sql (run_env N) cfg m u') (trace u') (trace w') (drop (length (trace v)) (trace v')) db"
    if db: "db \<in> set names" for db
  proof (rule restore_secured [OF R])
    show "backed_up (r_ext N) (r_zip N) (trace u') (trace w') t (conn_of cfg) m (user_sql (run_env N) cfg m u') db
        (look v (Join (BackupDir cfg) (zipName_of today (hostnameForFile (HostnameForBackup cfg)) db)))"
      using u(4) db assms(14) by (auto simp: list_all_iff secured_def Let_def)
  qed (use assms(15-19) ok db in \<open>auto simp: M'_def list_all_iff\<close>)
  then show ?thesis using u(1-3) by (auto simp: list_all_iff)
qed

subsection \<open>Examples\<close>

text \<open>A store with one configuration, which it rewrites when it is loaded.\<close>

definition one_config :: "Config \<Rightarrow> sconfig" where
  "one_config cfg c v p clean debug f =
     (case map_of f p of
        Some (File _ t) \<Rightarrow> (Inr cfg, fs_update p (File (if clean then ''plain'' else ''sealed'') t) f)
      | _ \<Rightarrow> (Inl ''no such file'', f))"

interpretation store: config_store "one_config cfg" for cfg
  by unfold_locales (auto simp: one_config_def split: option.splits node.splits)

text \<open>An archive format that can be read: the length of the name in unary, the name and the content.\<close>

definition ex_archive :: zipenv where
  "ex_archive = \<lparr>zip_final = \<lambda>n c. replicate (length n) (CHR ''n'') @ [CHR ''/''] @ n @ c, zip_partial = \<lambda>n c. [], zip_torn = \<lambda>n c d. []\<rparr>"

definition ex_reader :: zipreader where
  "ex_reader s =
     (let k = length (takeWhile (\<lambda>c. c = CHR ''n'') s); r = drop (k + 1) s in Some [(take k r, Readable (drop k r))])"

lemma ex_reader: "ex_reader (zip_final ex_archive n c) = Some [(n, Readable c)]"
proof -
  have "takeWhile (\<lambda>c. c = CHR ''n'') (replicate k (CHR ''n'') @ CHR ''/'' # r) = replicate k (CHR ''n'')" for k r
    by (induction k) auto
  then show ?thesis by (simp add: ex_reader_def ex_archive_def Let_def)
qed

definition ex_main_cfg :: Config where
  "ex_main_cfg = ex_run_cfg\<lparr>LogFilename := ''l.log''\<rparr>"

definition ex_main :: "string list \<Rightarrow> mainenv" where
  "ex_main args = \<lparr>r_ext = ex_answers, r_zip = ex_archive, r_ssh = file_server (\<lambda>_ _. False) 9 ''S'', r_statfs = \<lambda>_. Some (1000000, 4096),
     r_proc = \<lparr>Executable = Some ''/opt/mysqlbackup'', Getwd = Some ''/w'', UserHomeDir = Some ''/h''\<rparr>, r_faults = \<lambda>_ _. False,
     r_order = insertion_order, r_i18n = ex_i18n, r_errtext = \<lambda>_. ''text'', r_sort = insertionSort, r_now = \<lambda>_. 9,
     r_today = \<lambda>_. YMD 2025 1 11, m_windows = False, m_linux = True, m_winpath = \<lparr>winClean = id, winDir = id\<rparr>,
     m_sconfig = one_config ex_main_cfg, m_zipreader = ex_reader, m_timestamp = \<lambda>_. ''2025-01-11 22:00:00'',
     m_Args = ''mysqlbackup'' # args\<rparr>"

definition ex_main_start :: mworld where
  "ex_main_start = \<lparr>files = [(''b'', Directory), (''c.json'', File ''{}'' 1), (''/h/.config/systemd/user/mysqlbackup.timer'', File [] 1)],
     logs = [], trace = [], rfiles = [(''r'', Directory)], screen = []\<rparr>"

definition ex_main_backup :: "(int \<times> mworld) option" where
  "ex_main_backup = main_cmd (ex_main [''--backup'', ''-config'', ''c.json'']) [] True ex_main_start"

definition ex_backed :: mworld where
  "ex_backed = snd (the ex_main_backup)"

text \<open>The files after the backup.\<close>

definition ex_after :: fs where
  "ex_after = [(''b/mysql_backup_20250111_h_db.zip'', File (zip_final ex_archive ''db.sql'' ''dump'') 9), (''l.log'', File [] 9), (''.'', Directory),
     (''c.json'', File ''sealed'' 1), (''b'', Directory), (''/h/.config/systemd/user/mysqlbackup.timer'', File [] 1)]"

lemma ex_main_backup: "map_option (\<lambda>(c, w). (c, files w)) ex_main_backup = Some (0, ex_after)"
  by code_simp

lemma ex_backed: "main_cmd (ex_main [''--backup'', ''-config'', ''c.json'']) [] True ex_main_start = Some (0, ex_backed)" "files ex_backed = ex_after"
  using ex_main_backup unfolding ex_main_backup_def ex_backed_def by auto

text \<open>The restore is a new process.\<close>

definition ex_later :: mworld where
  "ex_later = ex_main_start\<lparr>files := ex_after\<rparr>"

definition ex_main_restore :: "(int \<times> mworld) option" where
  "ex_main_restore = main_cmd (ex_main [''--restore'', ''-config'', ''c.json'']) [] True ex_later"

lemma ex_given_back: "main_cmd (ex_main [''--restore'', ''-config'', ''c.json'']) [] True ex_later = Some (0, snd (the ex_main_restore))"
proof -
  have "map_option fst ex_main_restore = Some 0" by code_simp
  then show ?thesis unfolding ex_main_restore_def by (auto simp: prod_eq_iff)
qed

lemma ex_loads:
  assumes "map_of f (Clean ''c.json'') = Some (File c t)" shows "loads (ex_main args) (Clean ''c.json'') f ex_main_cfg"
proof -
  have "normalizePaths ex_main_cfg = ex_main_cfg" by (rule normalizePaths_id) code_simp+
  then have "fst (Load (one_config ex_main_cfg) (Clean ''c.json'') False f) = Inr ex_main_cfg"
    by (simp add: Load_def one_config_def assms)
  moreover have "list_all (\<lambda>p. \<not> backup_suffix p) [Clean ''c.json'', LogFilename ex_main_cfg, Dir (LogFilename ex_main_cfg)]" by code_simp
  ultimately show ?thesis using store.config_store_axioms by (simp add: loads_def ex_main_def)
qed

lemma ex_config: "map_of (files ex_main_start) (Clean ''c.json'') = Some (File ''{}'' 1)" "map_of ex_after (Clean ''c.json'') = Some (File ''sealed'' 1)"
  by code_simp+

lemma ex_main_ok: "run_ok (run_env (ex_main args)) ex_main_cfg"
  using ex_run_ok by (simp add: run_ok_def ex_main_def ex_main_cfg_def ex_env_run_def)

lemma ex_main_fine: "fine ex_main_start"
  by (simp add: fine_def ex_main_start_def fs_ok_def nodirs_def backup_suffix_def HasSuffix_def)


theorem main_backup_secures_witness:
  "\<exists>(v :: mworld) v' m names t. extends (trace ex_main_start) (trace v)
     \<and> query_server (run_env (ex_main [''--backup'', ''-config'', ''c.json''])) ex_main_cfg (conn_of ex_main_cfg) v = (Inr (m, names), v')
     \<and> extends (trace v') (trace ex_backed)
     \<and> list_all (secured (run_env (ex_main [''--backup'', ''-config'', ''c.json''])) ex_main_cfg (YMD 2025 1 11) t m
          (user_sql (run_env (ex_main [''--backup'', ''-config'', ''c.json''])) ex_main_cfg m v') (trace v') ex_backed) names"
proof (rule main_backup_secures [OF ex_backed(1) _ _ ex_loads [OF ex_config(1)] ex_main_ok ex_main_fine])
  show "sftp_server (r_ssh (ex_main [''--backup'', ''-config'', ''c.json'']))"
    using server.sftp_server_axioms by (simp add: ex_main_def)
  show "0 \<le> RetainDaily ex_main_cfg" by code_simp
qed (simp_all add: ex_main_def cleanup_ok_def ex_main_start_def)

lemma ex_after_old:
  assumes "entry_name n" "map_of ex_after (Join (BackupDir ex_main_cfg) n) \<noteq> None" "backup_name_date n = Some d"
  shows "d \<le> YMD 2025 1 11"
proof -
  have "list_all (\<lambda>p. case backup_name_date (Base p) of None \<Rightarrow> True | Some d \<Rightarrow> d \<le> YMD 2025 1 11) (map fst ex_after)" by code_simp
  moreover have "is_clean (BackupDir ex_main_cfg)" by code_simp
  then have "Base (Join (BackupDir ex_main_cfg) n) = n" using assms(1) by (rule Base_Join)
  moreover have "Join (BackupDir ex_main_cfg) n \<in> fst ` set ex_after" using assms(2) by (metis map_of_eq_None_iff)
  ultimately show ?thesis using assms(3) by (auto simp: list_all_iff split: option.splits)
qed

theorem restore_after_backup_witness:
  "\<exists>(u :: mworld) u' m names. extends (trace ex_main_start) (trace u)
     \<and> query_server (run_env (ex_main [''--backup'', ''-config'', ''c.json''])) ex_main_cfg (conn_of ex_main_cfg) u = (Inr (m, names), u')
     \<and> extends (trace u') (trace ex_backed)
     \<and> list_all (restored (r_ext (ex_main [''--backup'', ''-config'', ''c.json''])) (conn_of ex_main_cfg) m
          (user_sql (run_env (ex_main [''--backup'', ''-config'', ''c.json''])) ex_main_cfg m u')
          (trace u') (trace ex_backed) (drop (length (trace ex_later)) (trace (snd (the ex_main_restore))))) names"
proof (rule restore_after_backup [OF ex_backed(1) _ _ ex_loads [OF ex_config(1)] ex_main_ok ex_main_fine _ _ _ _ _ ex_given_back])
  show "sftp_server (r_ssh (ex_main [''--backup'', ''-config'', ''c.json'']))"
    using server.sftp_server_axioms by (simp add: ex_main_def)
  show "0 \<le> RetainDaily ex_main_cfg" by code_simp
  show "fs_ok (files ex_later)" by (simp add: ex_later_def ex_after_def fs_ok_def)
  show "slice_sort (r_sort (ex_main [''--restore'', ''-config'', ''c.json'']))" using go_sort.slice_sort_axioms by (simp add: ex_main_def)
  show "loads (ex_main [''--restore'', ''-config'', ''c.json'']) (Clean ''c.json'') (files ex_later) ex_main_cfg"
    using ex_loads [OF ex_config(2)] by (simp add: ex_later_def)
  show "\<forall>n d. entry_name n \<longrightarrow> look ex_later (Join (BackupDir ex_main_cfg) n) \<noteq> None \<longrightarrow> backup_name_date n = Some d \<longrightarrow> d \<le> YMD 2025 1 11"
    using ex_after_old by (simp add: ex_later_def)
qed (simp_all add: ex_main_def ex_reader cleanup_ok_def ex_main_start_def ex_later_def ex_backed(2))

end
