(* ===== verification/Spec2Isabelle.thy ===== *)
theory Spec2Isabelle
  imports Backup_Crash Main_Secured
begin

text \<open>
  A verification of the program mysqlbackup (\<open>src/\<close>), which backs up the databases of a MySQL
  or MariaDB server into zip files, keeps them for a time, copies them to another host, restores
  them, and installs itself as a daily job.

  \<^bold>\<open>Parts and how they interact.\<close> \<open>main.go\<close> reads the command line, finds and loads the
  configuration, and runs one action. The action \<open>--backup\<close> refreshes the job (\<open>schedule\<close>) and
  calls \<open>Backup\<close> of \<open>internal/run\<close>. That checks the disk (\<open>disk\<close>), starts the server if need be,
  asks it for its databases and users (\<open>mysql\<close>), writes one zip file per database (\<open>backup\<close>, with
  the users that \<open>usersql.go\<close> finds), deletes expired files (\<open>retention\<close>), copies the rest to the
  other host (\<open>remote\<close>), stops the server, and sends a mail on an error (\<open>email\<close>). The actions
  \<open>--restore\<close> and \<open>--restorefull\<close> select files with \<open>retention\<close> and import them with \<open>restore\<close>.

  \<^bold>\<open>State.\<close> A Go string or byte slice is a \<^typ>\<open>string\<close>. The state grows by record extension:
  \<open>world\<close> (the files and the log), \<open>sysworld\<close> (also the events sent to the outside),
  \<open>rworld\<close> (also the files of the other host), \<open>mworld\<close> (also what is printed). The file
  system is a list of paths with their nodes; any call on it may be made to fail by a fault
  function. The outside world answers every request as a function of all events so far, so that
  it may have any state of its own. Errors are values of \<open>goerr\<close>, the exit status of the program
  an \<^typ>\<open>int\<close>.

  \<^bold>\<open>Theories.\<close>
  \<^item> \<open>Prelude\<close>, \<open>Go_Strings\<close>, \<open>Go_Filepath\<close>, \<open>Go_Match\<close>, \<open>Go_Regexp\<close>, \<open>Go_Time\<close>, \<open>Go_OS\<close>,
    \<open>Go_Exec\<close>: shared facts, and what the sources use of Go and its standard library. \<open>Glob\<close>
    proves \<open>filepath.Match\<close> against a declarative meaning of patterns.
  \<^item> \<open>I18n\<close>, \<open>Logger\<close>, \<open>Config\<close>, \<open>Disk\<close>, \<open>Email\<close>, \<open>Mysql\<close>: the packages of these names under
    \<open>internal/\<close>. A loaded configuration has clean paths; the 64-bit product of the free blocks is
    exact where it fits; the mail password is sent on secret connections only.
  \<^item> \<open>User_SQL\<close>: \<open>internal/backup/usersql.go\<close>. The parser builds well-formed records from any
    input; the SQL of a database has the blocks of exactly its users; a written statement reads
    back.
  \<^item> \<open>Backup\<close>, \<open>Backup_Crash\<close>: \<open>internal/backup/backup.go\<close>. A successful run leaves complete
    archives and a failed one keeps the previous backup. The calls on the zip file and its saved
    copy are a step relation that the code refines; a crash between any two steps leaves a
    backup that the next start recovers.
  \<^item> \<open>Retention\<close>: \<open>internal/retention/retention.go\<close>. Exactly the expired backups are deleted,
    what is kept is stated in calendar days, and a restore gets the files of the right day.
  \<^item> \<open>Remote\<close>, \<open>Remote_Sync\<close>: \<open>internal/remote/remote.go\<close>. After a synchronisation the other host
    has every backup; an uploaded file comes back byte for byte; fetching keeps local files.
  \<^item> \<open>Lifecycle\<close>, \<open>Restore\<close>: the start and stop of the server, and \<open>internal/restore/restore.go\<close>.
    Imports happen in order and stop at the first error; the data directory is never lost.
  \<^item> \<open>Run_Backup\<close>, \<open>Run_Secured\<close>: \<open>internal/run/run.go\<close>, and what a run achieves: success means
    that every database is secured, an error is reported, the run ends.
  \<^item> \<open>Schedule\<close>, \<open>Schedule_Windows\<close>: \<open>internal/schedule/schedule.go\<close>. The job is installed and
    removed and lines of other programs are kept; the planned Windows command reads back.
  \<^item> \<open>Main_Flags\<close>, \<open>Main_Cmd\<close>, \<open>Main_Secured\<close>: \<open>main.go\<close>, from the command line to the exit
    status. They end in the statement that what a successful backup has backed up, a later
    successful restore gives back to the server in full.

  \<^bold>\<open>Parameters and hypotheses.\<close> Code outside the repository is a parameter: the processes, the
  network and the clock, the zip format, the SSH and SFTP packages with the random source and the
  AES block, the package \<open>sconfig\<close>, the system calls for free space, the path functions of
  Windows. What is relied on is stated in locales, each interpreted on a concrete instance:
  \<open>sftp_server\<close> and \<open>remote_env\<close> (SFTP calls and lengths of the cryptographic values),
  \<open>cron_tool\<close> (the program crontab), \<open>moving_clock\<close>, \<open>slice_sort\<close> (\<open>sort.Slice\<close>), \<open>map_iteration\<close>
  (the order of a Go map) and \<open>config_store\<close> (\<open>sconfig\<close> changes no file but its own). The theorems
  on whole runs also assume that the day does not change during the run, and that the clean-up
  calls do not fail; each says so in its statement.

  \<^bold>\<open>Loops.\<close> All loops but two are total functions with a termination proof, without fuel. The two
  polling loops \<open>poll_mysql\<close> and \<open>poll_port\<close> are partial functions whose value \<^const>\<open>None\<close> means that
  they run forever; they are proved to end for every clock that a sleep moves on.

  \<^bold>\<open>Not modelled.\<close>
  \<^item> The program as built for Windows, apart from its scheduled task, its free space and its
    choice of the lifecycle command. Paths are those of Unix, so the suffix \<open>.exe\<close> of the
    tools is left out.
  \<^item> Symbolic links and permissions, hence the link branch of \<open>copyDir\<close>.
  \<^item> The second copy of \<open>splitCommandLine\<close> in \<open>restore.go\<close>, which has the text of the first.
  \<^item> The texts of some errors of the standard library, the JSON files of translations (the
    messages are a parameter) and the build time.
  \<^item> Code that nothing uses: the type \<open>UserBlock\<close>, \<open>windowsPathsMatch\<close>, \<open>ErrInsufficientSpace\<close>.
\<close>

end
